theory Spec2Isabelle
  imports Complex_Main "HOL-Library.AList"
begin

section \<open>StreamV9: the file-backed catalogue store\<close>

text \<open>
  The services of \<^verbatim>\<open>catalogService.ts\<close> and \<^verbatim>\<open>userService.ts\<close> are embedded as
  functions over an explicit file store. Every \<^verbatim>\<open>throw\<close> of the source is a value
  \<open>Inl e\<close>; a service returns its result together with the store it leaves behind.
  The embedding is sequential: \<^verbatim>\<open>withFileLock\<close> runs its body, reads and writes of
  files do not fail, and one call reads the clock once (\<open>now\<close> stands for
  \<^verbatim>\<open>dayjs().toISOString()\<close>, \<open>uuid\<close> for \<^verbatim>\<open>randomUUID()\<close>).
\<close>

subsection \<open>Errors and the libraries the code calls\<close>

text \<open>
  \<open>ValidationError\<close> is whatever a \<^verbatim>\<open>schema.parse\<close> throws: the \<^verbatim>\<open>ZodError\<close> of a
  failed check, or the \<^verbatim>\<open>TypeError\<close> that \<^verbatim>\<open>new URL(url)\<close> raises inside a refinement
  when the string is no URL. The plain \<^verbatim>\<open>Error(message)\<close> thrown elsewhere is
  \<open>NotFound message\<close> for the "... not found" messages and \<open>Conflict message\<close> for
  the "... already exists" messages.
\<close>

datatype error = ValidationError | NotFound string | Conflict string

text \<open>
  Library functions whose code is not part of the repository are parameters:
  \<^verbatim>\<open>DOMPurify.sanitize(_, { ALLOWED_TAGS: [], ALLOWED_ATTR: [] })\<close> (\<open>purify\<close>), zod's
  UUID test, the host name that \<^verbatim>\<open>new URL(url)\<close> computes (\<open>None\<close> when the URL does
  not parse), \<^verbatim>\<open>slugify(_, {lower: true, strict: true})\<close>, \<^verbatim>\<open>String.localeCompare\<close>
  and the calendar year of \<^verbatim>\<open>new Date()\<close>.
\<close>

record env =
  purify :: "string \<Rightarrow> string"
  is_uuid :: "string \<Rightarrow> bool"
  hostname :: "string \<Rightarrow> string option"
  slugify :: "string \<Rightarrow> string"
  localeCompare :: "string \<Rightarrow> string \<Rightarrow> int"
  current_year :: int

text \<open>
  \<^verbatim>\<open>sanitize\<close> of \<^verbatim>\<open>utils/sanitize.ts\<close>: the purified string, trimmed. A string is a
  list of code units below 256, among which \<^verbatim>\<open>String.prototype.trim\<close> removes tab,
  line feed, vertical tab, form feed, carriage return, blank and no-break blank.
\<close>

definition js_space :: "char \<Rightarrow> bool" where
  "js_space c = ((of_char c :: nat) \<in> {9, 10, 11, 12, 13, 32, 160})"

definition trim :: "string \<Rightarrow> string" where
  "trim s = rev (dropWhile js_space (rev (dropWhile js_space s)))"

definition sanitize :: "env \<Rightarrow> string \<Rightarrow> string" where
  "sanitize env s = trim (purify env s)"

text \<open>
  Numbers. An \<open>int\<close> of the model is a JavaScript number with an integer value, as
  \<^verbatim>\<open>z.number().int()\<close> admits. Comparisons and the sign of a difference are exact on
  such numbers. \<^verbatim>\<open>x += 1\<close> is the sum rounded to the nearest double, ties to the even
  significand (53 bits): exact while the sum stays within \<open>2 ^ 53\<close>; between \<open>2 ^ 53\<close> and
  \<open>2 ^ 54\<close> the doubles are the even integers and the sum lies halfway between two of
  them; from \<open>2 ^ 54\<close> on the nearest double is \<open>x\<close> itself.
\<close>

definition js_plus_one :: "int \<Rightarrow> int" where
  "js_plus_one x =
     (if - (2 ^ 53) \<le> x \<and> x < 2 ^ 53 then x + 1
      else if \<bar>x\<bar> < 2 ^ 54 then (if even (x div 2) then x else x + 2)
      else x)"

definition VIDEO_DOMAIN_WHITELIST :: "string list" where
  "VIDEO_DOMAIN_WHITELIST =
     [''example.com'', ''cdn.example.com'', ''videos.local'', ''stream.local'']"

text \<open>\<^verbatim>\<open>z.string().url().refine(url => VIDEO_DOMAIN_WHITELIST.includes(new URL(url).hostname))\<close>\<close>

definition url_allowed :: "env \<Rightarrow> string \<Rightarrow> bool" where
  "url_allowed env u =
     (case hostname env u of None \<Rightarrow> False | Some h \<Rightarrow> h \<in> set VIDEO_DOMAIN_WHITELIST)"

text \<open>The regular expression \<^verbatim>\<open>/^[a-z0-9-]+$/\<close> of the slug fields.\<close>

definition slug_char :: "char \<Rightarrow> bool" where
  "slug_char c = (c \<in> set ''abcdefghijklmnopqrstuvwxyz0123456789-'')"

definition slug_regex :: "string \<Rightarrow> bool" where
  "slug_regex s = (s \<noteq> [] \<and> list_all slug_char s)"

text \<open>The regular expression \<^verbatim>\<open>/^[a-zA-Z0-9_.-]+$/\<close> of \<^verbatim>\<open>usernameSchema\<close>.\<close>

definition username_char :: "char \<Rightarrow> bool" where
  "username_char c =
     (c \<in> set ''abcdefghijklmnopqrstuvwxyzABCDEFGHIJKLMNOPQRSTUVWXYZ0123456789_.-'')"

definition username_regex :: "string \<Rightarrow> bool" where
  "username_regex s = (s \<noteq> [] \<and> list_all username_char s)"

text \<open>\<^verbatim>\<open>schema.array().parse\<close>: the first element that fails makes the whole parse throw.\<close>

fun parse_array :: "('a \<Rightarrow> error + 'b) \<Rightarrow> 'a list \<Rightarrow> error + 'b list" where
  "parse_array f [] = Inr []"
| "parse_array f (x # xs) =
     (case f x of
        Inl e \<Rightarrow> Inl e
      | Inr y \<Rightarrow> (case parse_array f xs of Inl e \<Rightarrow> Inl e | Inr ys \<Rightarrow> Inr (y # ys)))"

text \<open>
  \<^verbatim>\<open>Array.prototype.sort(cmp)\<close> is stable; for a consistent comparator it is
  insertion sort from the right. \<^verbatim>\<open>findIndex\<close> returns \<open>None\<close> for \<open>-1\<close>.
\<close>

fun insort_cmp :: "('a \<Rightarrow> 'a \<Rightarrow> int) \<Rightarrow> 'a \<Rightarrow> 'a list \<Rightarrow> 'a list" where
  "insort_cmp cmp x [] = [x]"
| "insort_cmp cmp x (y # ys) =
     (if cmp x y \<le> 0 then x # y # ys else y # insort_cmp cmp x ys)"

definition sort_cmp :: "('a \<Rightarrow> 'a \<Rightarrow> int) \<Rightarrow> 'a list \<Rightarrow> 'a list" where
  "sort_cmp cmp xs = foldr (insort_cmp cmp) xs []"

fun findIndex :: "('a \<Rightarrow> bool) \<Rightarrow> 'a list \<Rightarrow> nat option" where
  "findIndex P [] = None"
| "findIndex P (x # xs) =
     (if P x then Some 0 else map_option Suc (findIndex P xs))"

subsection \<open>Records of \<^verbatim>\<open>validation/schemas.ts\<close>\<close>

record subtitle =
  st_lang :: string
  st_label :: string
  st_url :: string

definition subtitleSchema_parse :: "env \<Rightarrow> subtitle \<Rightarrow> error + subtitle" where
  "subtitleSchema_parse env s =
     (if 2 \<le> length (st_lang s) \<and> length (st_lang s) \<le> 8
         \<and> 1 \<le> length (st_label s) \<and> length (st_label s) \<le> 64
         \<and> url_allowed env (st_url s)
      then Inr \<lparr>st_lang = sanitize env (st_lang s), st_label = sanitize env (st_label s),
                st_url = st_url s\<rparr>
      else Inl ValidationError)"

text \<open>
  An episode as \<^verbatim>\<open>episodeSchema\<close> returns it, and an episode object before
  validation, where any key may be absent (\<open>None\<close>).
\<close>

record episode =
  ep_id :: string
  ep_title :: string
  ep_description :: string
  ep_season :: int
  ep_episode :: int
  ep_duration :: int
  ep_streamUrl :: string
  ep_subtitles :: "subtitle list"
  ep_published :: bool
  ep_views :: int
  ep_lastUpdated :: string

record episode_raw =
  r_id :: "string option"
  r_title :: "string option"
  r_description :: "string option"
  r_season :: "int option"
  r_episode :: "int option"
  r_duration :: "int option"
  r_streamUrl :: "string option"
  r_subtitles :: "subtitle list option"
  r_published :: "bool option"
  r_views :: "int option"
  r_lastUpdated :: "string option"

definition episode_to_raw :: "episode \<Rightarrow> episode_raw" where
  "episode_to_raw e =
     \<lparr>r_id = Some (ep_id e), r_title = Some (ep_title e),
      r_description = Some (ep_description e), r_season = Some (ep_season e),
      r_episode = Some (ep_episode e), r_duration = Some (ep_duration e),
      r_streamUrl = Some (ep_streamUrl e), r_subtitles = Some (ep_subtitles e),
      r_published = Some (ep_published e), r_views = Some (ep_views e),
      r_lastUpdated = Some (ep_lastUpdated e)\<rparr>"

text \<open>The keys of \<^verbatim>\<open>episodeSchema\<close> that have no \<^verbatim>\<open>.default(...)\<close>.\<close>

definition required_present :: "episode_raw \<Rightarrow> bool" where
  "required_present r =
     (r_id r \<noteq> None \<and> r_title r \<noteq> None \<and> r_description r \<noteq> None
      \<and> r_season r \<noteq> None \<and> r_episode r \<noteq> None \<and> r_duration r \<noteq> None
      \<and> r_streamUrl r \<noteq> None \<and> r_lastUpdated r \<noteq> None)"

definition with_default :: "'a \<Rightarrow> 'a option \<Rightarrow> 'a" where
  "with_default d x = (case x of None \<Rightarrow> d | Some v \<Rightarrow> v)"

definition episodeSchema_parse :: "env \<Rightarrow> episode_raw \<Rightarrow> error + episode" where
  "episodeSchema_parse env r =
     (if \<not> required_present r then Inl ValidationError
      else if is_uuid env (the (r_id r))
           \<and> 1 \<le> length (the (r_title r)) \<and> length (the (r_title r)) \<le> 160
           \<and> length (the (r_description r)) \<le> 1024
           \<and> 1 \<le> the (r_season r) \<and> 1 \<le> the (r_episode r) \<and> 0 < the (r_duration r)
           \<and> url_allowed env (the (r_streamUrl r))
           \<and> 0 \<le> with_default 0 (r_views r)
      then (case parse_array (subtitleSchema_parse env) (with_default [] (r_subtitles r)) of
              Inl e \<Rightarrow> Inl e
            | Inr subs \<Rightarrow>
                Inr \<lparr>ep_id = the (r_id r),
                     ep_title = sanitize env (the (r_title r)),
                     ep_description = sanitize env (the (r_description r)),
                     ep_season = the (r_season r),
                     ep_episode = the (r_episode r),
                     ep_duration = the (r_duration r),
                     ep_streamUrl = the (r_streamUrl r),
                     ep_subtitles = subs,
                     ep_published = with_default False (r_published r),
                     ep_views = with_default 0 (r_views r),
                     ep_lastUpdated = the (r_lastUpdated r)\<rparr>)
      else Inl ValidationError)"

text \<open>
  A season holds validated episodes (\<open>season\<close>) or, in a payload, episode objects
  that \<^verbatim>\<open>seasonSchema\<close> has yet to validate (\<open>season_raw\<close>).
\<close>

record 'e season_of =
  sn_season :: int
  sn_episodes :: "'e list"

type_synonym season = "episode season_of"
type_synonym season_raw = "episode_raw season_of"

definition season_to_raw :: "season \<Rightarrow> season_raw" where
  "season_to_raw s =
     \<lparr>sn_season = sn_season s, sn_episodes = map episode_to_raw (sn_episodes s)\<rparr>"

definition seasonSchema_parse :: "env \<Rightarrow> season_raw \<Rightarrow> error + season" where
  "seasonSchema_parse env s =
     (if 1 \<le> sn_season s
      then (case parse_array (episodeSchema_parse env) (sn_episodes s) of
              Inl e \<Rightarrow> Inl e
            | Inr eps \<Rightarrow> Inr \<lparr>sn_season = sn_season s, sn_episodes = eps\<rparr>)
      else Inl ValidationError)"

record 's series_of =
  sr_id :: string
  sr_name :: string
  sr_slug :: string
  sr_description :: string
  sr_posterUrl :: string
  sr_categories :: "string list"
  sr_seasons :: "'s list"
  sr_published :: bool
  sr_featured :: bool
  sr_createdAt :: string
  sr_updatedAt :: string

type_synonym series = "season series_of"
type_synonym series_raw = "season_raw series_of"

definition series_to_raw :: "series \<Rightarrow> series_raw" where
  "series_to_raw s =
     \<lparr>sr_id = sr_id s, sr_name = sr_name s, sr_slug = sr_slug s,
      sr_description = sr_description s, sr_posterUrl = sr_posterUrl s,
      sr_categories = sr_categories s, sr_seasons = map season_to_raw (sr_seasons s),
      sr_published = sr_published s, sr_featured = sr_featured s,
      sr_createdAt = sr_createdAt s, sr_updatedAt = sr_updatedAt s\<rparr>"

definition seriesSchema_parse :: "env \<Rightarrow> series_raw \<Rightarrow> error + series" where
  "seriesSchema_parse env s =
     (if is_uuid env (sr_id s)
         \<and> 1 \<le> length (sr_name s) \<and> length (sr_name s) \<le> 160
         \<and> 1 \<le> length (sr_slug s) \<and> length (sr_slug s) \<le> 160 \<and> slug_regex (sr_slug s)
         \<and> length (sr_description s) \<le> 1024
         \<and> url_allowed env (sr_posterUrl s)
         \<and> list_all (is_uuid env) (sr_categories s)
      then (case parse_array (seasonSchema_parse env) (sr_seasons s) of
              Inl e \<Rightarrow> Inl e
            | Inr sns \<Rightarrow>
                Inr \<lparr>sr_id = sr_id s, sr_name = sanitize env (sr_name s),
                     sr_slug = sanitize env (sr_slug s),
                     sr_description = sanitize env (sr_description s),
                     sr_posterUrl = sr_posterUrl s, sr_categories = sr_categories s,
                     sr_seasons = sns, sr_published = sr_published s,
                     sr_featured = sr_featured s, sr_createdAt = sr_createdAt s,
                     sr_updatedAt = sr_updatedAt s\<rparr>)
      else Inl ValidationError)"

record movie =
  mv_id :: string
  mv_title :: string
  mv_slug :: string
  mv_description :: string
  mv_year :: int
  mv_duration :: int
  mv_posterUrl :: string
  mv_streamUrl :: string
  mv_subtitles :: "subtitle list"
  mv_categories :: "string list"
  mv_published :: bool
  mv_featured :: bool
  mv_views :: int
  mv_createdAt :: string
  mv_updatedAt :: string

definition movieSchema_parse :: "env \<Rightarrow> movie \<Rightarrow> error + movie" where
  "movieSchema_parse env m =
     (if is_uuid env (mv_id m)
         \<and> 1 \<le> length (mv_title m) \<and> length (mv_title m) \<le> 160
         \<and> 1 \<le> length (mv_slug m) \<and> length (mv_slug m) \<le> 160 \<and> slug_regex (mv_slug m)
         \<and> length (mv_description m) \<le> 1024
         \<and> 1900 \<le> mv_year m \<and> mv_year m \<le> current_year env + 1
         \<and> 0 < mv_duration m
         \<and> url_allowed env (mv_posterUrl m)
         \<and> url_allowed env (mv_streamUrl m)
         \<and> list_all (is_uuid env) (mv_categories m)
         \<and> 0 \<le> mv_views m
      then (case parse_array (subtitleSchema_parse env) (mv_subtitles m) of
              Inl e \<Rightarrow> Inl e
            | Inr subs \<Rightarrow>
                Inr (m\<lparr>mv_title := sanitize env (mv_title m),
                       mv_slug := sanitize env (mv_slug m),
                       mv_description := sanitize env (mv_description m),
                       mv_subtitles := subs\<rparr>))
      else Inl ValidationError)"

text \<open>\<^verbatim>\<open>Partial<Movie>\<close>, the update that \<^verbatim>\<open>updateMovie\<close> spreads over the stored movie.\<close>

record movie_patch =
  mp_id :: "string option"
  mp_title :: "string option"
  mp_slug :: "string option"
  mp_description :: "string option"
  mp_year :: "int option"
  mp_duration :: "int option"
  mp_posterUrl :: "string option"
  mp_streamUrl :: "string option"
  mp_subtitles :: "subtitle list option"
  mp_categories :: "string list option"
  mp_published :: "bool option"
  mp_featured :: "bool option"
  mp_views :: "int option"
  mp_createdAt :: "string option"
  mp_updatedAt :: "string option"

text \<open>The object spread \<^verbatim>\<open>{ ...movie, ...update }\<close>.\<close>

definition spread_movie :: "movie \<Rightarrow> movie_patch \<Rightarrow> movie" where
  "spread_movie m u =
     \<lparr>mv_id = with_default (mv_id m) (mp_id u),
      mv_title = with_default (mv_title m) (mp_title u),
      mv_slug = with_default (mv_slug m) (mp_slug u),
      mv_description = with_default (mv_description m) (mp_description u),
      mv_year = with_default (mv_year m) (mp_year u),
      mv_duration = with_default (mv_duration m) (mp_duration u),
      mv_posterUrl = with_default (mv_posterUrl m) (mp_posterUrl u),
      mv_streamUrl = with_default (mv_streamUrl m) (mp_streamUrl u),
      mv_subtitles = with_default (mv_subtitles m) (mp_subtitles u),
      mv_categories = with_default (mv_categories m) (mp_categories u),
      mv_published = with_default (mv_published m) (mp_published u),
      mv_featured = with_default (mv_featured m) (mp_featured u),
      mv_views = with_default (mv_views m) (mp_views u),
      mv_createdAt = with_default (mv_createdAt m) (mp_createdAt u),
      mv_updatedAt = with_default (mv_updatedAt m) (mp_updatedAt u)\<rparr>"

datatype role = Admin | User

record user =
  u_id :: string
  u_username :: string
  u_passwordHash :: string
  u_role :: role
  u_active :: bool
  u_createdAt :: string
  u_updatedAt :: string

definition usernameSchema_ok :: "string \<Rightarrow> bool" where
  "usernameSchema_ok s = (3 \<le> length s \<and> length s \<le> 64 \<and> username_regex s)"

definition userSchema_parse :: "env \<Rightarrow> user \<Rightarrow> error + user" where
  "userSchema_parse env u =
     (if is_uuid env (u_id u) \<and> usernameSchema_ok (u_username u)
      then Inr (u\<lparr>u_username := sanitize env (u_username u)\<rparr>)
      else Inl ValidationError)"

record user_payload =
  cu_username :: string
  cu_password :: string
  cu_role :: role

definition createUserSchema_parse :: "env \<Rightarrow> user_payload \<Rightarrow> error + user_payload" where
  "createUserSchema_parse env p =
     (if usernameSchema_ok (cu_username p)
         \<and> 8 \<le> length (cu_password p) \<and> length (cu_password p) \<le> 128
      then Inr (p\<lparr>cu_username := sanitize env (cu_username p)\<rparr>)
      else Inl ValidationError)"

definition STREAM_TYPES :: "string list" where
  "STREAM_TYPES = [''movie'', ''series'']"

record history_entry =
  h_contentId :: string
  h_type :: string
  h_progress :: rat
  h_lastWatched :: string
  h_season :: "int option"
  h_episode :: "int option"

definition historyEntrySchema_parse :: "history_entry \<Rightarrow> error + history_entry" where
  "historyEntrySchema_parse h =
     (if h_type h \<in> set STREAM_TYPES \<and> 0 \<le> h_progress h \<and> h_progress h \<le> 1
         \<and> (case h_season h of None \<Rightarrow> True | Some n \<Rightarrow> 1 \<le> n)
         \<and> (case h_episode h of None \<Rightarrow> True | Some n \<Rightarrow> 1 \<le> n)
      then Inr h else Inl ValidationError)"

subsection \<open>The files under \<^verbatim>\<open>data/\<close>\<close>

text \<open>
  \<open>movies_file\<close> is \<^verbatim>\<open>catalog/movies.json\<close>, \<open>users_file\<close> is \<^verbatim>\<open>users/users.json\<close>
  (\<open>None\<close>: the file does not exist); \<open>admin_file\<close> is the admin of
  \<^verbatim>\<open>users/admin.json\<close> (\<open>None\<close>: no file, or \<^verbatim>\<open>admin: null\<close> in it);
  \<open>series_files\<close> maps a slug to the document of \<^verbatim>\<open>catalog/series/<slug>.json\<close> and
  \<open>history_files\<close> a user name to the list in \<^verbatim>\<open>users/history/<username>.json\<close>.
\<close>

record fs =
  movies_file :: "movie list option"
  admin_file :: "user option"
  users_file :: "user list option"
  series_files :: "string \<rightharpoonup> series"
  history_files :: "string \<rightharpoonup> history_entry list"

subsection \<open>Watch history (\<^verbatim>\<open>userService.ts\<close>)\<close>

text \<open>\<^verbatim>\<open>ensureJsonFile(path, { history: [] })\<close>: a missing file is written with the default.\<close>

definition ensure_history_file :: "string \<Rightarrow> fs \<Rightarrow> fs" where
  "ensure_history_file username fs =
     (case history_files fs username of
        None \<Rightarrow> fs\<lparr>history_files := (history_files fs)(username \<mapsto> [])\<rparr>
      | Some h \<Rightarrow> fs)"

definition getHistory :: "string \<Rightarrow> fs \<Rightarrow> (error + history_entry list) \<times> fs" where
  "getHistory username fs =
     (let fs1 = ensure_history_file username fs
      in (parse_array historyEntrySchema_parse
            (with_default [] (history_files fs1 username)), fs1))"

definition appendHistory :: "string \<Rightarrow> history_entry \<Rightarrow> fs \<Rightarrow> (error + unit) \<times> fs" where
  "appendHistory username entry fs =
     (let fs1 = ensure_history_file username fs
      in case parse_array historyEntrySchema_parse
                (with_default [] (history_files fs1 username)) of
           Inl e \<Rightarrow> (Inl e, fs1)
         | Inr history \<Rightarrow>
             (let filtered = filter (\<lambda>item. h_contentId item \<noteq> h_contentId entry) history
              in (Inr (), fs1\<lparr>history_files :=
                                (history_files fs1)(username \<mapsto> entry # filtered)\<rparr>)))"

subsection \<open>Series files (\<^verbatim>\<open>catalogService.ts\<close>)\<close>

definition readSeriesFile :: "env \<Rightarrow> fs \<Rightarrow> string \<Rightarrow> error + series option" where
  "readSeriesFile env fs slug =
     (case series_files fs slug of
        None \<Rightarrow> Inr None
      | Some data \<Rightarrow>
          (case seriesSchema_parse env (series_to_raw data) of
             Inl e \<Rightarrow> Inl e
           | Inr s \<Rightarrow> Inr (Some s)))"

definition saveSeries :: "series \<Rightarrow> fs \<Rightarrow> fs" where
  "saveSeries s fs = fs\<lparr>series_files := (series_files fs)(sr_slug s \<mapsto> s)\<rparr>"

text \<open>
  The object spread \<^verbatim>\<open>{ ...existingEpisode, ...incoming }\<close> over a validated
  episode: a key of \<open>incoming\<close> that is present wins.
\<close>

definition spread_episode :: "episode \<Rightarrow> episode_raw \<Rightarrow> episode" where
  "spread_episode e r =
     \<lparr>ep_id = with_default (ep_id e) (r_id r),
      ep_title = with_default (ep_title e) (r_title r),
      ep_description = with_default (ep_description e) (r_description r),
      ep_season = with_default (ep_season e) (r_season r),
      ep_episode = with_default (ep_episode e) (r_episode r),
      ep_duration = with_default (ep_duration e) (r_duration r),
      ep_streamUrl = with_default (ep_streamUrl e) (r_streamUrl r),
      ep_subtitles = with_default (ep_subtitles e) (r_subtitles r),
      ep_published = with_default (ep_published e) (r_published r),
      ep_views = with_default (ep_views e) (r_views r),
      ep_lastUpdated = with_default (ep_lastUpdated e) (r_lastUpdated r)\<rparr>"

text \<open>
  \<^verbatim>\<open>mergeSeasons\<close>. A JavaScript \<^verbatim>\<open>Map\<close> is an association list: \<^verbatim>\<open>set\<close> replaces
  the value of a key in place or appends a new key (\<open>AList.update\<close>), \<^verbatim>\<open>get\<close> is
  \<open>map_of\<close>, \<^verbatim>\<open>values()\<close> is \<open>map snd\<close>.
\<close>

fun merge_incoming_episodes ::
  "env \<Rightarrow> string \<Rightarrow> (int \<times> episode) list \<Rightarrow> episode list \<Rightarrow> error + (int \<times> episode) list"
where
  "merge_incoming_episodes env now episodeMap [] = Inr episodeMap"
| "merge_incoming_episodes env now episodeMap (incomingEpisode # rest) =
     (case episodeSchema_parse env (episode_to_raw incomingEpisode) of
        Inl e \<Rightarrow> Inl e
      | Inr parsedEpisode \<Rightarrow>
          (case map_of episodeMap (ep_episode parsedEpisode) of
             None \<Rightarrow>
               merge_incoming_episodes env now
                 (AList.update (ep_episode parsedEpisode) parsedEpisode episodeMap) rest
           | Some existingEpisode \<Rightarrow>
               merge_incoming_episodes env now
                 (AList.update (ep_episode parsedEpisode)
                    ((spread_episode existingEpisode (episode_to_raw parsedEpisode))
                       \<lparr>ep_lastUpdated := now\<rparr>)
                    episodeMap) rest))"

fun merge_incoming_seasons ::
  "env \<Rightarrow> string \<Rightarrow> (int \<times> season) list \<Rightarrow> season_raw list \<Rightarrow> error + (int \<times> season) list"
where
  "merge_incoming_seasons env now seasonMap [] = Inr seasonMap"
| "merge_incoming_seasons env now seasonMap (incoming # rest) =
     (case seasonSchema_parse env incoming of
        Inl e \<Rightarrow> Inl e
      | Inr sanitizedSeason \<Rightarrow>
          (case map_of seasonMap (sn_season sanitizedSeason) of
             None \<Rightarrow>
               merge_incoming_seasons env now
                 (AList.update (sn_season sanitizedSeason) sanitizedSeason seasonMap) rest
           | Some current \<Rightarrow>
               (case merge_incoming_episodes env now
                       (fold (\<lambda>episode m. AList.update (ep_episode episode) episode m)
                          (sn_episodes current) [])
                       (sn_episodes sanitizedSeason) of
                  Inl e \<Rightarrow> Inl e
                | Inr episodeMap \<Rightarrow>
                    merge_incoming_seasons env now
                      (AList.update (sn_season current)
                         (current\<lparr>sn_episodes :=
                            sort_cmp (\<lambda>a b. ep_episode a - ep_episode b)
                              (map snd episodeMap)\<rparr>)
                         seasonMap) rest)))"

definition mergeSeasons :: "env \<Rightarrow> string \<Rightarrow> season list \<Rightarrow> season_raw list \<Rightarrow> error + season list"
where
  "mergeSeasons env now existingSeasons incomingSeasons =
     (case merge_incoming_seasons env now
             (fold (\<lambda>season m. AList.update (sn_season season) season m) existingSeasons [])
             incomingSeasons of
        Inl e \<Rightarrow> Inl e
      | Inr seasonMap \<Rightarrow>
          Inr (sort_cmp (\<lambda>a b. sn_season a - sn_season b) (map snd seasonMap)))"

text \<open>
  The payload of \<^verbatim>\<open>createOrMergeSeries\<close>:
  \<^verbatim>\<open>Omit<Series, 'id' | 'createdAt' | 'updatedAt'> & { id?: string }\<close>, its seasons
  not yet validated.
\<close>

record series_payload =
  pl_id :: "string option"
  pl_name :: string
  pl_slug :: string
  pl_description :: string
  pl_posterUrl :: string
  pl_categories :: "string list"
  pl_seasons :: "season_raw list"
  pl_published :: bool
  pl_featured :: bool

definition createOrMergeSeries ::
  "env \<Rightarrow> string \<Rightarrow> string \<Rightarrow> series_payload \<Rightarrow> fs \<Rightarrow> (error + series) \<times> fs"
where
  "createOrMergeSeries env now uuid payload fs =
     (let slug = slugify env (if pl_slug payload \<noteq> [] then pl_slug payload else pl_name payload)
      in case readSeriesFile env fs slug of
           Inl e \<Rightarrow> (Inl e, fs)
         | Inr (Some existing) \<Rightarrow>
             (case mergeSeasons env now (sr_seasons existing) (pl_seasons payload) of
                Inl e \<Rightarrow> (Inl e, fs)
              | Inr mergedSeasons \<Rightarrow>
                  (case seriesSchema_parse env
                          \<lparr>sr_id = sr_id existing, sr_name = pl_name payload, sr_slug = slug,
                           sr_description = pl_description payload,
                           sr_posterUrl = pl_posterUrl payload,
                           sr_categories = pl_categories payload,
                           sr_seasons = map season_to_raw mergedSeasons,
                           sr_published = pl_published payload,
                           sr_featured = pl_featured payload,
                           sr_createdAt = sr_createdAt existing, sr_updatedAt = now\<rparr> of
                     Inl e \<Rightarrow> (Inl e, fs)
                   | Inr series \<Rightarrow> (Inr series, saveSeries series fs)))
         | Inr None \<Rightarrow>
             (case seriesSchema_parse env
                     \<lparr>sr_id = with_default uuid (pl_id payload), sr_name = pl_name payload,
                      sr_slug = slug, sr_description = pl_description payload,
                      sr_posterUrl = pl_posterUrl payload,
                      sr_categories = pl_categories payload,
                      sr_seasons = pl_seasons payload,
                      sr_published = pl_published payload,
                      sr_featured = pl_featured payload,
                      sr_createdAt = now, sr_updatedAt = now\<rparr> of
                Inl e \<Rightarrow> (Inl e, fs)
              | Inr series \<Rightarrow> (Inr series, saveSeries series fs)))"

text \<open>\<^verbatim>\<open>Partial<Series>\<close>, the update that \<^verbatim>\<open>updateSeries\<close> spreads over the stored series.\<close>

record series_patch =
  sp_id :: "string option"
  sp_name :: "string option"
  sp_slug :: "string option"
  sp_description :: "string option"
  sp_posterUrl :: "string option"
  sp_categories :: "string list option"
  sp_seasons :: "season_raw list option"
  sp_published :: "bool option"
  sp_featured :: "bool option"
  sp_createdAt :: "string option"
  sp_updatedAt :: "string option"

text \<open>The object spread \<^verbatim>\<open>{ ...existing, ...update }\<close>.\<close>

definition spread_series :: "series \<Rightarrow> series_patch \<Rightarrow> series_raw" where
  "spread_series s u =
     \<lparr>sr_id = with_default (sr_id s) (sp_id u),
      sr_name = with_default (sr_name s) (sp_name u),
      sr_slug = with_default (sr_slug s) (sp_slug u),
      sr_description = with_default (sr_description s) (sp_description u),
      sr_posterUrl = with_default (sr_posterUrl s) (sp_posterUrl u),
      sr_categories = with_default (sr_categories s) (sp_categories u),
      sr_seasons = with_default (map season_to_raw (sr_seasons s)) (sp_seasons u),
      sr_published = with_default (sr_published s) (sp_published u),
      sr_featured = with_default (sr_featured s) (sp_featured u),
      sr_createdAt = with_default (sr_createdAt s) (sp_createdAt u),
      sr_updatedAt = with_default (sr_updatedAt s) (sp_updatedAt u)\<rparr>"

definition updateSeries ::
  "env \<Rightarrow> string \<Rightarrow> string \<Rightarrow> series_patch \<Rightarrow> fs \<Rightarrow> (error + series) \<times> fs"
where
  "updateSeries env now slug update fs =
     (case readSeriesFile env fs slug of
        Inl e \<Rightarrow> (Inl e, fs)
      | Inr None \<Rightarrow> (Inl (NotFound ''Series not found''), fs)
      | Inr (Some existing) \<Rightarrow>
          (case seriesSchema_parse env
                  ((spread_series existing update)\<lparr>sr_slug := slug, sr_updatedAt := now\<rparr>) of
             Inl e \<Rightarrow> (Inl e, fs)
           | Inr merged \<Rightarrow> (Inr merged, saveSeries merged fs)))"

text \<open>The payload of \<^verbatim>\<open>mergeEpisode\<close>, with the eight keys its type declares.\<close>

record episode_payload =
  p_title :: string
  p_description :: string
  p_season :: int
  p_episode :: int
  p_duration :: int
  p_streamUrl :: string
  p_subtitles :: "subtitle list"
  p_published :: bool

definition payload_to_raw :: "episode_payload \<Rightarrow> episode_raw" where
  "payload_to_raw p =
     \<lparr>r_id = None, r_title = Some (p_title p), r_description = Some (p_description p),
      r_season = Some (p_season p), r_episode = Some (p_episode p),
      r_duration = Some (p_duration p), r_streamUrl = Some (p_streamUrl p),
      r_subtitles = Some (p_subtitles p), r_published = Some (p_published p),
      r_views = None, r_lastUpdated = None\<rparr>"

text \<open>\<^verbatim>\<open>{ ...episodePayload, id: randomUUID(), lastUpdated: now, views: 0 }\<close>\<close>

definition fresh_episode_raw :: "episode_payload \<Rightarrow> string \<Rightarrow> string \<Rightarrow> episode_raw" where
  "fresh_episode_raw p uuid now =
     (payload_to_raw p)\<lparr>r_id := Some uuid, r_lastUpdated := Some now, r_views := Some 0\<rparr>"

text \<open>\<^verbatim>\<open>{ ...season.episodes[episodeIndex], ...episodePayload, lastUpdated: now }\<close>\<close>

definition overwrite_episode_raw :: "episode \<Rightarrow> episode_payload \<Rightarrow> string \<Rightarrow> episode_raw" where
  "overwrite_episode_raw e p now =
     (episode_to_raw (spread_episode e (payload_to_raw p)))\<lparr>r_lastUpdated := Some now\<rparr>"

text \<open>
  Lines 249 to 287 of \<^verbatim>\<open>mergeEpisode\<close>: the change made to the document that was
  read, before it is saved.
\<close>

definition mergeEpisode_document ::
  "env \<Rightarrow> string \<Rightarrow> string \<Rightarrow> episode_payload \<Rightarrow> series \<Rightarrow> error + series"
where
  "mergeEpisode_document env now uuid p existing =
     (let finish = (\<lambda>sns. existing\<lparr>sr_seasons := sort_cmp (\<lambda>a b. sn_season a - sn_season b) sns,
                                   sr_updatedAt := now\<rparr>)
      in case findIndex (\<lambda>season. sn_season season = p_season p) (sr_seasons existing) of
           None \<Rightarrow>
             (case episodeSchema_parse env (fresh_episode_raw p uuid now) of
                Inl e \<Rightarrow> Inl e
              | Inr ep \<Rightarrow>
                  (case seasonSchema_parse env
                          \<lparr>sn_season = p_season p, sn_episodes = [episode_to_raw ep]\<rparr> of
                     Inl e \<Rightarrow> Inl e
                   | Inr sn \<Rightarrow> Inr (finish (sr_seasons existing @ [sn]))))
         | Some seasonIndex \<Rightarrow>
             (let season = sr_seasons existing ! seasonIndex
              in case findIndex (\<lambda>ep. ep_episode ep = p_episode p) (sn_episodes season) of
                   None \<Rightarrow>
                     (case episodeSchema_parse env (fresh_episode_raw p uuid now) of
                        Inl e \<Rightarrow> Inl e
                      | Inr ep \<Rightarrow>
                          Inr (finish ((sr_seasons existing)
                                 [seasonIndex := season\<lparr>sn_episodes :=
                                    sort_cmp (\<lambda>a b. ep_episode a - ep_episode b)
                                      (sn_episodes season @ [ep])\<rparr>])))
                 | Some episodeIndex \<Rightarrow>
                     (case episodeSchema_parse env
                             (overwrite_episode_raw (sn_episodes season ! episodeIndex) p now) of
                        Inl e \<Rightarrow> Inl e
                      | Inr ep \<Rightarrow>
                          Inr (finish ((sr_seasons existing)
                                 [seasonIndex := season\<lparr>sn_episodes :=
                                    sort_cmp (\<lambda>a b. ep_episode a - ep_episode b)
                                      ((sn_episodes season)[episodeIndex := ep])\<rparr>])))))"

definition mergeEpisode ::
  "env \<Rightarrow> string \<Rightarrow> string \<Rightarrow> string \<Rightarrow> episode_payload \<Rightarrow> fs \<Rightarrow> (error + series) \<times> fs"
where
  "mergeEpisode env now uuid slug p fs =
     (case readSeriesFile env fs slug of
        Inl e \<Rightarrow> (Inl e, fs)
      | Inr None \<Rightarrow> (Inl (NotFound ''Series not found''), fs)
      | Inr (Some existing) \<Rightarrow>
          (case mergeEpisode_document env now uuid p existing of
             Inl e \<Rightarrow> (Inl e, fs)
           | Inr merged \<Rightarrow> (Inr merged, saveSeries merged fs)))"

definition incrementSeriesView ::
  "env \<Rightarrow> string \<Rightarrow> string \<Rightarrow> int \<Rightarrow> int \<Rightarrow> fs \<Rightarrow> (error + unit) \<times> fs"
where
  "incrementSeriesView env now slug season episodeNumber fs =
     (case readSeriesFile env fs slug of
        Inl e \<Rightarrow> (Inl e, fs)
      | Inr None \<Rightarrow> (Inr (), fs)
      | Inr (Some series) \<Rightarrow>
          (case findIndex (\<lambda>s. sn_season s = season) (sr_seasons series) of
             None \<Rightarrow> (Inr (), fs)
           | Some i \<Rightarrow>
               (let targetSeason = sr_seasons series ! i
                in case findIndex (\<lambda>ep. ep_episode ep = episodeNumber)
                          (sn_episodes targetSeason) of
                     None \<Rightarrow> (Inr (), fs)
                   | Some j \<Rightarrow>
                       (let targetEpisode = sn_episodes targetSeason ! j;
                            viewed = targetEpisode\<lparr>ep_views := js_plus_one (ep_views targetEpisode),
                                                  ep_lastUpdated := now\<rparr>
                        in (Inr (),
                            saveSeries
                              (series\<lparr>sr_seasons := (sr_seasons series)
                                 [i := targetSeason\<lparr>sn_episodes :=
                                         (sn_episodes targetSeason)[j := viewed]\<rparr>]\<rparr>)
                              fs)))))"

subsection \<open>Movies (\<^verbatim>\<open>catalogService.ts\<close>)\<close>

text \<open>\<^verbatim>\<open>ensureJsonFile(MOVIES_FILE, { movies: [] })\<close>\<close>

definition ensure_movies_file :: "fs \<Rightarrow> fs" where
  "ensure_movies_file fs =
     (case movies_file fs of None \<Rightarrow> fs\<lparr>movies_file := Some []\<rparr> | Some ms \<Rightarrow> fs)"

definition listMovies :: "env \<Rightarrow> fs \<Rightarrow> (error + movie list) \<times> fs" where
  "listMovies env fs =
     (let fs1 = ensure_movies_file fs
      in (parse_array (movieSchema_parse env) (with_default [] (movies_file fs1)), fs1))"

definition saveMovies :: "movie list \<Rightarrow> fs \<Rightarrow> fs" where
  "saveMovies movies fs = (ensure_movies_file fs)\<lparr>movies_file := Some movies\<rparr>"

text \<open>
  The payload of \<^verbatim>\<open>createMovie\<close> is a movie object whose \<^verbatim>\<open>id\<close>, \<^verbatim>\<open>createdAt\<close>,
  \<^verbatim>\<open>updatedAt\<close> and \<^verbatim>\<open>views\<close> the spread overwrites.
\<close>

definition createMovie ::
  "env \<Rightarrow> string \<Rightarrow> string \<Rightarrow> movie \<Rightarrow> fs \<Rightarrow> (error + movie) \<times> fs"
where
  "createMovie env now uuid payload fs =
     (case movieSchema_parse env
             (payload\<lparr>mv_id := uuid, mv_createdAt := now, mv_updatedAt := now, mv_views := 0\<rparr>) of
        Inl e \<Rightarrow> (Inl e, fs)
      | Inr movie \<Rightarrow>
          (case listMovies env fs of
             (Inl e, fs1) \<Rightarrow> (Inl e, fs1)
           | (Inr movies, fs1) \<Rightarrow>
               if list_ex (\<lambda>existing. mv_slug existing = mv_slug movie) movies
               then (Inl (Conflict ''Movie slug already exists''), fs1)
               else (Inr movie,
                     saveMovies
                       (sort_cmp (\<lambda>a b. localeCompare env (mv_title a) (mv_title b))
                          (movies @ [movie]))
                       fs1)))"

definition updateMovie ::
  "env \<Rightarrow> string \<Rightarrow> string \<Rightarrow> movie_patch \<Rightarrow> fs \<Rightarrow> (error + movie) \<times> fs"
where
  "updateMovie env now ident update fs =
     (case listMovies env fs of
        (Inl e, fs1) \<Rightarrow> (Inl e, fs1)
      | (Inr movies, fs1) \<Rightarrow>
          (case findIndex (\<lambda>movie. mv_id movie = ident) movies of
             None \<Rightarrow> (Inl (NotFound ''Movie not found''), fs1)
           | Some index \<Rightarrow>
               (case movieSchema_parse env
                       ((spread_movie (movies ! index) update)\<lparr>mv_updatedAt := now\<rparr>) of
                  Inl e \<Rightarrow> (Inl e, fs1)
                | Inr updated \<Rightarrow> (Inr updated, saveMovies (movies[index := updated]) fs1))))"

definition deleteMovie :: "env \<Rightarrow> string \<Rightarrow> fs \<Rightarrow> (error + unit) \<times> fs" where
  "deleteMovie env ident fs =
     (case listMovies env fs of
        (Inl e, fs1) \<Rightarrow> (Inl e, fs1)
      | (Inr movies, fs1) \<Rightarrow>
          (Inr (), saveMovies (filter (\<lambda>movie. mv_id movie \<noteq> ident) movies) fs1))"

definition incrementMovieView :: "env \<Rightarrow> string \<Rightarrow> string \<Rightarrow> fs \<Rightarrow> (error + unit) \<times> fs" where
  "incrementMovieView env now ident fs =
     (case listMovies env fs of
        (Inl e, fs1) \<Rightarrow> (Inl e, fs1)
      | (Inr movies, fs1) \<Rightarrow>
          (case findIndex (\<lambda>movie. mv_id movie = ident) movies of
             None \<Rightarrow> (Inr (), fs1)
           | Some index \<Rightarrow>
               (Inr (),
                saveMovies
                  (movies[index := (movies ! index)
                     \<lparr>mv_views := js_plus_one (mv_views (movies ! index)), mv_updatedAt := now\<rparr>])
                  fs1)))"

subsection \<open>Users (\<^verbatim>\<open>userService.ts\<close>)\<close>

definition ensure_users_file :: "fs \<Rightarrow> fs" where
  "ensure_users_file fs =
     (case users_file fs of None \<Rightarrow> fs\<lparr>users_file := Some []\<rparr> | Some us \<Rightarrow> fs)"

definition listUsers :: "env \<Rightarrow> fs \<Rightarrow> (error + user list) \<times> fs" where
  "listUsers env fs =
     (let fs1 = ensure_users_file fs
      in (parse_array (userSchema_parse env) (with_default [] (users_file fs1)), fs1))"

definition getAdmin :: "env \<Rightarrow> fs \<Rightarrow> error + user option" where
  "getAdmin env fs =
     (case admin_file fs of
        None \<Rightarrow> Inr None
      | Some a \<Rightarrow> (case userSchema_parse env a of Inl e \<Rightarrow> Inl e | Inr u \<Rightarrow> Inr (Some u)))"

definition findUserByUsername :: "env \<Rightarrow> string \<Rightarrow> fs \<Rightarrow> (error + user option) \<times> fs" where
  "findUserByUsername env username fs =
     (case getAdmin env fs of
        Inl e \<Rightarrow> (Inl e, fs)
      | Inr admin \<Rightarrow>
          (case admin of
             Some a \<Rightarrow>
               if u_username a = username then (Inr (Some a), fs)
               else (case listUsers env fs of
                       (Inl e, fs1) \<Rightarrow> (Inl e, fs1)
                     | (Inr users, fs1) \<Rightarrow>
                         (Inr (find (\<lambda>user. u_username user = username) users), fs1))
           | None \<Rightarrow>
               (case listUsers env fs of
                  (Inl e, fs1) \<Rightarrow> (Inl e, fs1)
                | (Inr users, fs1) \<Rightarrow>
                    (Inr (find (\<lambda>user. u_username user = username) users), fs1))))"

text \<open>\<open>bcrypt\<close> stands for \<^verbatim>\<open>bcrypt.hash(_, 12)\<close>.\<close>

definition createUser ::
  "env \<Rightarrow> string \<Rightarrow> string \<Rightarrow> (string \<Rightarrow> string) \<Rightarrow> user_payload \<Rightarrow> fs \<Rightarrow> (error + user) \<times> fs"
where
  "createUser env now uuid bcrypt payload fs =
     (case createUserSchema_parse env payload of
        Inl e \<Rightarrow> (Inl e, fs)
      | Inr parsed \<Rightarrow>
          (case findUserByUsername env (cu_username parsed) fs of
             (Inl e, fs1) \<Rightarrow> (Inl e, fs1)
           | (Inr (Some existing), fs1) \<Rightarrow> (Inl (Conflict ''Username already exists''), fs1)
           | (Inr None, fs1) \<Rightarrow>
               (case userSchema_parse env
                       \<lparr>u_id = uuid, u_username = cu_username parsed,
                        u_passwordHash = bcrypt (cu_password parsed), u_role = cu_role parsed,
                        u_active = True, u_createdAt = now, u_updatedAt = now\<rparr> of
                  Inl e \<Rightarrow> (Inl e, fs1)
                | Inr user \<Rightarrow>
                    if u_role user = Admin
                    then (Inr user, fs1\<lparr>admin_file := Some user\<rparr>)
                    else (case listUsers env fs1 of
                            (Inl e, fs2) \<Rightarrow> (Inl e, fs2)
                          | (Inr users, fs2) \<Rightarrow>
                              (Inr user, fs2\<lparr>users_file := Some (users @ [user])\<rparr>)))))"

subsection \<open>Ordering invariants\<close>

text \<open>
  Season numbers strictly ascending within a series, episode numbers strictly
  ascending within every season (so no number occurs twice).
\<close>

definition episodes_ordered :: "season \<Rightarrow> bool" where
  "episodes_ordered sn = sorted_wrt (<) (map ep_episode (sn_episodes sn))"

definition seasons_ordered :: "season list \<Rightarrow> bool" where
  "seasons_ordered sns = (sorted_wrt (<) (map sn_season sns) \<and> list_all episodes_ordered sns)"

text \<open>
  No season number occurs twice in the list, no episode number twice in a season. This
  is weaker than \<open>seasons_ordered\<close>: the numbers need not be sorted.
\<close>

definition numbers_unique :: "season list \<Rightarrow> bool" where
  "numbers_unique sns =
     (distinct (map sn_season sns)
      \<and> list_all (\<lambda>sn. distinct (map ep_episode (sn_episodes sn))) sns)"

text \<open>The season numbers of a document, each with the episode numbers it holds, in order.\<close>

definition outline :: "season list \<Rightarrow> (int \<times> int list) list" where
  "outline sns = map (\<lambda>sn. (sn_season sn, map ep_episode (sn_episodes sn))) sns"

text \<open>A document with every timestamp blanked: what two documents share when they differ
  in \<^verbatim>\<open>updatedAt\<close> and \<^verbatim>\<open>lastUpdated\<close> only.\<close>

definition without_timestamps :: "series \<Rightarrow> series" where
  "without_timestamps s =
     s\<lparr>sr_updatedAt := [],
       sr_seasons := map (\<lambda>sn. sn\<lparr>sn_episodes :=
                        map (\<lambda>e. e\<lparr>ep_lastUpdated := []\<rparr>) (sn_episodes sn)\<rparr>) (sr_seasons s)\<rparr>"

subsection \<open>A concrete environment and store\<close>

text \<open>
  Stand-ins for the libraries, used to run the model on concrete inputs: the strings
  below hold no markup, so purifying returns them unchanged; a UUID is 8-4-4-4-12
  hexadecimal digits; the host of \<^verbatim>\<open>https://host/path\<close> is \<^verbatim>\<open>host\<close>; slugify
  turns blanks into hyphens and drops what is outside the slug alphabet.
\<close>

definition hex_char :: "char \<Rightarrow> bool" where
  "hex_char c = (c \<in> set ''0123456789abcdefABCDEF'')"

definition uuid_shape :: "string \<Rightarrow> bool" where
  "uuid_shape s =
     (length s = 36
      \<and> list_all hex_char (take 8 s) \<and> take 1 (drop 8 s) = ''-''
      \<and> list_all hex_char (take 4 (drop 9 s)) \<and> take 1 (drop 13 s) = ''-''
      \<and> list_all hex_char (take 4 (drop 14 s)) \<and> take 1 (drop 18 s) = ''-''
      \<and> list_all hex_char (take 4 (drop 19 s)) \<and> take 1 (drop 23 s) = ''-''
      \<and> list_all hex_char (drop 24 s))"

definition https_host :: "string \<Rightarrow> string option" where
  "https_host u =
     (if take 8 u = ''https://'' then Some (takeWhile (\<lambda>c. c \<noteq> CHR ''/'') (drop 8 u))
      else None)"

definition hyphenate :: "string \<Rightarrow> string" where
  "hyphenate s = filter slug_char (map (\<lambda>c. if c = CHR '' '' then CHR ''-'' else c) s)"

fun compare_strings :: "string \<Rightarrow> string \<Rightarrow> int" where
  "compare_strings [] [] = 0"
| "compare_strings [] (y # ys) = - 1"
| "compare_strings (x # xs) [] = 1"
| "compare_strings (x # xs) (y # ys) =
     (if x = y then compare_strings xs ys
      else if (of_char x :: nat) < of_char y then - 1 else 1)"

definition demo_env :: env where
  "demo_env = \<lparr>purify = (\<lambda>s. s), is_uuid = uuid_shape, hostname = https_host,
               slugify = hyphenate, localeCompare = compare_strings, current_year = 2026\<rparr>"

definition fs_empty :: fs where
  "fs_empty = \<lparr>movies_file = None, admin_file = None, users_file = None,
               series_files = Map.empty, history_files = Map.empty\<rparr>"

definition demo_episode :: "string \<Rightarrow> string \<Rightarrow> int \<Rightarrow> int \<Rightarrow> episode" where
  "demo_episode ident title s e =
     \<lparr>ep_id = ident, ep_title = title, ep_description = ''An episode'', ep_season = s,
      ep_episode = e, ep_duration = 10, ep_streamUrl = ''https://cdn.example.com/v.m3u8'',
      ep_subtitles = [], ep_published = True, ep_views = 5,
      ep_lastUpdated = ''2024-01-01T00:00:00.000Z''\<rparr>"

definition demo_series :: series where
  "demo_series =
     \<lparr>sr_id = ''aaaaaaaa-0000-4000-8000-000000000000'', sr_name = ''Echoes of Atlas'',
      sr_slug = ''echoes-of-atlas'', sr_description = ''A series'',
      sr_posterUrl = ''https://cdn.example.com/p.jpg'', sr_categories = [],
      sr_seasons =
        [\<lparr>sn_season = 1,
          sn_episodes =
            [demo_episode ''aaaaaaaa-0000-4000-8000-000000000001'' ''Pilot'' 1 1,
             demo_episode ''aaaaaaaa-0000-4000-8000-000000000002'' ''Second'' 1 2]\<rparr>],
      sr_published = True, sr_featured = False,
      sr_createdAt = ''2023-12-31T00:00:00.000Z'',
      sr_updatedAt = ''2024-01-01T00:00:00.000Z''\<rparr>"

definition demo_fs :: fs where
  "demo_fs = fs_empty\<lparr>series_files := [''echoes-of-atlas'' \<mapsto> demo_series]\<rparr>"

definition demo_h1 :: history_entry where
  "demo_h1 = \<lparr>h_contentId = ''m1'', h_type = ''movie'', h_progress = 1 / 4,
     h_lastWatched = ''2024-01-01T00:00:00.000Z'', h_season = None, h_episode = None\<rparr>"

definition demo_h2 :: history_entry where
  "demo_h2 = \<lparr>h_contentId = ''s1'', h_type = ''series'', h_progress = 1 / 2,
     h_lastWatched = ''2024-01-02T00:00:00.000Z'', h_season = Some 1, h_episode = Some 2\<rparr>"

definition demo_h3 :: history_entry where
  "demo_h3 = \<lparr>h_contentId = ''m1'', h_type = ''movie'', h_progress = 3 / 4,
     h_lastWatched = ''2024-01-03T00:00:00.000Z'', h_season = None, h_episode = None\<rparr>"

definition demo_payload :: "season_raw list \<Rightarrow> series_payload" where
  "demo_payload sns =
     \<lparr>pl_id = None, pl_name = ''Echoes of Atlas'', pl_slug = ''echoes-of-atlas'',
      pl_description = ''A series'', pl_posterUrl = ''https://cdn.example.com/p.jpg'',
      pl_categories = [], pl_seasons = sns, pl_published = True, pl_featured = False\<rparr>"

text \<open>An incoming season 2, not yet in \<open>demo_series\<close>, whose episodes are numbered 2, 1, 1.\<close>

definition unsorted_season :: season_raw where
  "unsorted_season =
     \<lparr>sn_season = 2,
      sn_episodes =
        map episode_to_raw
          [demo_episode ''bbbbbbbb-0000-4000-8000-000000000002'' ''Two'' 2 2,
           demo_episode ''bbbbbbbb-0000-4000-8000-000000000001'' ''One'' 2 1,
           demo_episode ''bbbbbbbb-0000-4000-8000-000000000003'' ''One again'' 2 1]\<rparr>"

definition demo_movie :: "string \<Rightarrow> string \<Rightarrow> string \<Rightarrow> movie" where
  "demo_movie ident title slug =
     \<lparr>mv_id = ident, mv_title = title, mv_slug = slug, mv_description = ''A film'',
      mv_year = 2020, mv_duration = 90, mv_posterUrl = ''https://cdn.example.com/p.jpg'',
      mv_streamUrl = ''https://cdn.example.com/v.m3u8'', mv_subtitles = [],
      mv_categories = [], mv_published = True, mv_featured = False, mv_views = 7,
      mv_createdAt = ''2024-01-01T00:00:00.000Z'',
      mv_updatedAt = ''2024-01-01T00:00:00.000Z''\<rparr>"

definition demo_movies :: "movie list" where
  "demo_movies =
     [demo_movie ''cccccccc-0000-4000-8000-000000000001'' ''Alpha'' ''alpha'',
      demo_movie ''cccccccc-0000-4000-8000-000000000002'' ''Beta'' ''beta'']"

definition slug_patch :: "string \<Rightarrow> movie_patch" where
  "slug_patch slug =
     \<lparr>mp_id = None, mp_title = None, mp_slug = Some slug, mp_description = None,
      mp_year = None, mp_duration = None, mp_posterUrl = None, mp_streamUrl = None,
      mp_subtitles = None, mp_categories = None, mp_published = None, mp_featured = None,
      mp_views = None, mp_createdAt = None, mp_updatedAt = None\<rparr>"

text \<open>
  The existing episode \<^verbatim>\<open>{title: "A", duration: 10, published: false}\<close> of season 1,
  the partial payload \<^verbatim>\<open>{season: 1, episode: 1, duration: 20}\<close>, and a payload for
  the same episode that supplies every key.
\<close>

definition episode_A :: episode where
  "episode_A =
     (demo_episode ''aaaaaaaa-0000-4000-8000-000000000001'' ''A'' 1 1)\<lparr>ep_published := False\<rparr>"

definition partial_duration_20 :: episode_raw where
  "partial_duration_20 =
     \<lparr>r_id = None, r_title = None, r_description = None, r_season = Some 1,
      r_episode = Some 1, r_duration = Some 20, r_streamUrl = None, r_subtitles = None,
      r_published = None, r_views = None, r_lastUpdated = None\<rparr>"

definition full_duration_20 :: episode_raw where
  "full_duration_20 =
     episode_to_raw
       ((demo_episode ''eeeeeeee-0000-4000-8000-000000000001'' ''A'' 1 1)
          \<lparr>ep_duration := 20, ep_views := 0\<rparr>)"

text \<open>Every key of \<^verbatim>\<open>episodeSchema\<close> is present in the payload.\<close>

definition all_present :: "episode_raw \<Rightarrow> bool" where
  "all_present r =
     (required_present r \<and> r_subtitles r \<noteq> None \<and> r_published r \<noteq> None \<and> r_views r \<noteq> None)"

text \<open>
  \<^verbatim>\<open>series.seasons.find(...)\<close> followed by \<^verbatim>\<open>targetSeason?.episodes.find(...)\<close>: the
  episode that \<^verbatim>\<open>incrementSeriesView\<close> addresses, if any.
\<close>

definition target_episode :: "series \<Rightarrow> int \<Rightarrow> int \<Rightarrow> episode option" where
  "target_episode s season episodeNumber =
     (case find (\<lambda>sn. sn_season sn = season) (sr_seasons s) of
        None \<Rightarrow> None
      | Some sn \<Rightarrow> find (\<lambda>ep. ep_episode ep = episodeNumber) (sn_episodes sn))"

text \<open>
  The same lookup on a list of seasons, and the payloads that \<^verbatim>\<open>mergeSeasons\<close> merges
  under a season and episode number: the episode objects of the incoming seasons of
  that number (the \<^verbatim>\<open>season\<close> key of the incoming season, not the one of the episode
  object), in the order of the two loops, whose \<^verbatim>\<open>episode\<close> key is that number.
\<close>

definition episode_at :: "season list \<Rightarrow> int \<Rightarrow> int \<Rightarrow> episode option" where
  "episode_at sns season episodeNumber =
     (case find (\<lambda>sn. sn_season sn = season) sns of
        None \<Rightarrow> None
      | Some sn \<Rightarrow> find (\<lambda>ep. ep_episode ep = episodeNumber) (sn_episodes sn))"

definition payloads_for :: "season_raw list \<Rightarrow> int \<Rightarrow> int \<Rightarrow> episode_raw list" where
  "payloads_for incoming season episodeNumber =
     filter (\<lambda>r. r_episode r = Some episodeNumber)
       (concat (map sn_episodes (filter (\<lambda>inc. sn_season inc = season) incoming)))"

text \<open>
  Two stored seasons (season 2 before season 1, episodes 1 and 2 in each) and an
  incoming list that addresses season 1 twice: episode 1 of season 1 first with the
  title \<^verbatim>\<open>Draft\<close>, then with the title \<^verbatim>\<open>Final\<close>; episode 3 of season 1 is new; nothing
  addresses episode 2 of season 1 or season 2.
\<close>

definition stored_seasons :: "season list" where
  "stored_seasons =
     [\<lparr>sn_season = 2,
       sn_episodes =
         [demo_episode ''bbbbbbbb-0000-4000-8000-000000000001'' ''Return'' 2 1,
          demo_episode ''bbbbbbbb-0000-4000-8000-000000000002'' ''Reunion'' 2 2]\<rparr>,
      \<lparr>sn_season = 1,
       sn_episodes =
         [demo_episode ''aaaaaaaa-0000-4000-8000-000000000001'' ''Pilot'' 1 1,
          demo_episode ''aaaaaaaa-0000-4000-8000-000000000002'' ''Second'' 1 2]\<rparr>]"

definition incoming_payload :: "string \<Rightarrow> string \<Rightarrow> int \<Rightarrow> int \<Rightarrow> episode_raw" where
  "incoming_payload ident title s e =
     episode_to_raw
       ((demo_episode ident title s e)
          \<lparr>ep_duration := 20, ep_views := 0, ep_lastUpdated := ''2023-06-01T00:00:00.000Z''\<rparr>)"

definition incoming_seasons :: "season_raw list" where
  "incoming_seasons =
     [\<lparr>sn_season = 1,
       sn_episodes =
         [incoming_payload ''eeeeeeee-0000-4000-8000-000000000003'' ''Third'' 1 3,
          incoming_payload ''eeeeeeee-0000-4000-8000-000000000001'' ''Draft'' 1 1]\<rparr>,
      \<lparr>sn_season = 1,
       sn_episodes =
         [incoming_payload ''eeeeeeee-0000-4000-8000-000000000002'' ''Final'' 1 1]\<rparr>]"

text \<open>The payload \<^verbatim>\<open>{season: 1, episode: 1, title: "Pilot Extended", ...}\<close> of \<^verbatim>\<open>mergeEpisode\<close>.\<close>

definition pilot_extended :: episode_payload where
  "pilot_extended =
     \<lparr>p_title = ''Pilot Extended'', p_description = ''An episode'', p_season = 1,
      p_episode = 1, p_duration = 12, p_streamUrl = ''https://cdn.example.com/v.m3u8'',
      p_subtitles = [], p_published = True\<rparr>"

definition demo_user :: "string \<Rightarrow> string \<Rightarrow> role \<Rightarrow> user" where
  "demo_user ident name r =
     \<lparr>u_id = ident, u_username = name, u_passwordHash = ''$2a$12$hash'', u_role = r,
      u_active = True, u_createdAt = ''2024-01-01T00:00:00.000Z'',
      u_updatedAt = ''2024-01-01T00:00:00.000Z''\<rparr>"

definition demo_users_fs :: fs where
  "demo_users_fs =
     fs_empty\<lparr>admin_file := Some (demo_user ''ffffffff-0000-4000-8000-000000000001'' ''admin'' Admin),
              users_file := Some [demo_user ''ffffffff-0000-4000-8000-000000000002'' ''jane'' User]\<rparr>"

definition demo_new_user :: "string \<Rightarrow> user_payload" where
  "demo_new_user name = \<lparr>cu_username = name, cu_password = ''password1'', cu_role = User\<rparr>"

text \<open>
  A document is stable when \<^verbatim>\<open>seriesSchema.parse\<close> accepts it and returns it unchanged:
  reading it back gives the document that was written. A payload is sanitized when
  sanitizing changes none of its text fields, as for a payload that has been through
  \<^verbatim>\<open>episodeSchema\<close> once and holds no markup.
\<close>

definition episode_stable :: "env \<Rightarrow> episode \<Rightarrow> bool" where
  "episode_stable env e = (episodeSchema_parse env (episode_to_raw e) = Inr e)"

definition season_stable :: "env \<Rightarrow> season \<Rightarrow> bool" where
  "season_stable env sn = (seasonSchema_parse env (season_to_raw sn) = Inr sn)"

definition series_stable :: "env \<Rightarrow> series \<Rightarrow> bool" where
  "series_stable env s = (seriesSchema_parse env (series_to_raw s) = Inr s)"

definition subtitle_sanitized :: "env \<Rightarrow> subtitle \<Rightarrow> bool" where
  "subtitle_sanitized env s =
     (sanitize env (st_lang s) = st_lang s \<and> sanitize env (st_label s) = st_label s)"

definition payload_sanitized :: "env \<Rightarrow> episode_payload \<Rightarrow> bool" where
  "payload_sanitized env p =
     (sanitize env (p_title p) = p_title p \<and> sanitize env (p_description p) = p_description p
      \<and> list_all (subtitle_sanitized env) (p_subtitles p))"

text \<open>The episode carries the eight fields of the payload.\<close>

definition carries :: "episode \<Rightarrow> episode_payload \<Rightarrow> bool" where
  "carries e p =
     (ep_title e = p_title p \<and> ep_description e = p_description p
      \<and> ep_season e = p_season p \<and> ep_episode e = p_episode p
      \<and> ep_duration e = p_duration p \<and> ep_streamUrl e = p_streamUrl p
      \<and> ep_subtitles e = p_subtitles p \<and> ep_published e = p_published p)"

text \<open>A payload for season 2, episode 1, which \<open>demo_series\<close> does not hold yet.\<close>

definition new_season_episode :: episode_payload where
  "new_season_episode =
     \<lparr>p_title = ''Return'', p_description = ''An episode'', p_season = 2,
      p_episode = 1, p_duration = 12, p_streamUrl = ''https://cdn.example.com/v.m3u8'',
      p_subtitles = [\<lparr>st_lang = ''en'', st_label = ''English'',
                      st_url = ''https://cdn.example.com/en.vtt''\<rparr>],
      p_published = False\<rparr>"



text \<open>A movie and an episode whose view counter has reached \<open>2 ^ 53 = 9007199254740992\<close>.\<close>

definition much_viewed_movie :: movie where
  "much_viewed_movie =
     (demo_movie ''cccccccc-0000-4000-8000-000000000001'' ''Alpha'' ''alpha'')
       \<lparr>mv_views := 9007199254740992\<rparr>"

definition much_viewed_series :: series where
  "much_viewed_series =
     demo_series\<lparr>sr_seasons :=
       [\<lparr>sn_season = 1,
         sn_episodes =
           [(demo_episode ''aaaaaaaa-0000-4000-8000-000000000001'' ''Pilot'' 1 1)
              \<lparr>ep_views := 9007199254740992\<rparr>]\<rparr>]\<rparr>"

section \<open>Properties\<close>

subsection \<open>Watch history\<close>

text \<open>
  C4. When the history file of a user validates, \<^verbatim>\<open>appendHistory\<close> stores the new
  entry as the first element, followed by the stored entries with another
  \<^verbatim>\<open>contentId\<close> in their order: every prior entry with the same \<^verbatim>\<open>contentId\<close> is
  gone, exactly one entry with that \<^verbatim>\<open>contentId\<close> remains, and a history with at
  most one entry per \<^verbatim>\<open>contentId\<close> stays so.
\<close>

theorem appendHistory_dedup_front:
  assumes stored: "history_files fs username = Some stored"
      and valid: "parse_array historyEntrySchema_parse stored = Inr stored"
  shows "\<exists>new. appendHistory username entry fs
             = (Inr (), fs\<lparr>history_files := (history_files fs)(username \<mapsto> new)\<rparr>)
          \<and> new = entry # filter (\<lambda>h. h_contentId h \<noteq> h_contentId entry) stored
          \<and> hd new = entry
          \<and> filter (\<lambda>h. h_contentId h = h_contentId entry) new = [entry]
          \<and> filter (\<lambda>h. h_contentId h \<noteq> h_contentId entry) new
              = filter (\<lambda>h. h_contentId h \<noteq> h_contentId entry) stored
          \<and> (distinct (map h_contentId stored) \<longrightarrow> distinct (map h_contentId new))"
proof -
  let ?new = "entry # filter (\<lambda>h. h_contentId h \<noteq> h_contentId entry) stored"
  have run: "appendHistory username entry fs
             = (Inr (), fs\<lparr>history_files := (history_files fs)(username \<mapsto> ?new)\<rparr>)"
    using stored valid
    by (simp add: appendHistory_def ensure_history_file_def with_default_def)
  have one: "filter (\<lambda>h. h_contentId h = h_contentId entry) ?new = [entry]"
    by (simp add: filter_empty_conv)
  have dist: "distinct (map h_contentId stored) \<longrightarrow> distinct (map h_contentId ?new)"
    by (auto simp: distinct_map_filter)
  show ?thesis using run one dist by simp
qed

theorem appendHistory_dedup_front_witness:
  "history_files (fs_empty\<lparr>history_files := [''jane'' \<mapsto> [demo_h1, demo_h2]]\<rparr>) ''jane''
     = Some [demo_h1, demo_h2]
   \<and> parse_array historyEntrySchema_parse [demo_h1, demo_h2] = Inr [demo_h1, demo_h2]
   \<and> distinct (map h_contentId [demo_h1, demo_h2])
   \<and> appendHistory ''jane'' demo_h3 (fs_empty\<lparr>history_files := [''jane'' \<mapsto> [demo_h1, demo_h2]]\<rparr>)
       = (Inr (), fs_empty\<lparr>history_files := [''jane'' \<mapsto> [demo_h3, demo_h2]]\<rparr>)"
  using appendHistory_dedup_front
    [of "fs_empty\<lparr>history_files := [''jane'' \<mapsto> [demo_h1, demo_h2]]\<rparr>" "''jane''"
        "[demo_h1, demo_h2]" demo_h3]
  by (simp add: demo_h1_def demo_h2_def demo_h3_def fs_empty_def
        historyEntrySchema_parse_def STREAM_TYPES_def)

subsection \<open>Validation and the series merge\<close>

lemma subtitle_error: "subtitleSchema_parse env s = Inl e \<Longrightarrow> e = ValidationError"
  by (simp add: subtitleSchema_parse_def split: if_splits)

lemma parse_array_error:
  assumes "\<And>x e. f x = Inl e \<Longrightarrow> e = ValidationError"
  shows "parse_array f xs = Inl e \<Longrightarrow> e = ValidationError"
  using assms by (induction xs arbitrary: e) (auto split: sum.splits)

lemma parse_array_fails:
  "x \<in> set xs \<Longrightarrow> f x = Inl e0 \<Longrightarrow> \<exists>e. parse_array f xs = Inl e"
  by (induction xs) (auto split: sum.splits)

lemma parse_array_elem:
  "parse_array f xs = Inr ys \<Longrightarrow> y \<in> set ys \<Longrightarrow> \<exists>x \<in> set xs. f x = Inr y"
  by (induction xs arbitrary: ys) (auto split: sum.splits)

lemma subtitles_error:
  "parse_array (subtitleSchema_parse env) xs = Inl e \<Longrightarrow> e = ValidationError"
  by (erule parse_array_error[rotated]) (rule subtitle_error)

lemma episode_error: "episodeSchema_parse env r = Inl e \<Longrightarrow> e = ValidationError"
  by (auto simp: episodeSchema_parse_def split: if_splits sum.splits dest: subtitles_error)

lemma episodes_error:
  "parse_array (episodeSchema_parse env) xs = Inl e \<Longrightarrow> e = ValidationError"
  by (erule parse_array_error[rotated]) (rule episode_error)

lemma season_error: "seasonSchema_parse env s = Inl e \<Longrightarrow> e = ValidationError"
  by (auto simp: seasonSchema_parse_def split: if_splits sum.splits dest: episodes_error)

lemma merge_incoming_episodes_error:
  "merge_incoming_episodes env now m eps = Inl e \<Longrightarrow> e = ValidationError"
  by (induction eps arbitrary: m) (auto split: sum.splits option.splits dest: episode_error)

lemma merge_incoming_seasons_error:
  "merge_incoming_seasons env now m sns = Inl e \<Longrightarrow> e = ValidationError"
  by (induction sns arbitrary: m)
     (auto split: sum.splits option.splits dest: season_error merge_incoming_episodes_error)

lemma merge_incoming_seasons_fails:
  "inc \<in> set sns \<Longrightarrow> seasonSchema_parse env inc = Inl e0 \<Longrightarrow>
   \<exists>e. merge_incoming_seasons env now m sns = Inl e"
  by (induction sns arbitrary: m) (auto split: sum.splits option.splits)

lemma mergeSeasons_rejects:
  assumes "inc \<in> set incoming" "seasonSchema_parse env inc = Inl e0"
  shows "mergeSeasons env now existing incoming = Inl ValidationError"
proof -
  obtain e where e: "merge_incoming_seasons env now
      (fold (\<lambda>season m. AList.update (sn_season season) season m) existing []) incoming = Inl e"
    using merge_incoming_seasons_fails[OF assms] by blast
  then have "e = ValidationError" by (rule merge_incoming_seasons_error)
  with e show ?thesis by (simp add: mergeSeasons_def)
qed

lemma season_missing_key:
  assumes "r \<in> set (sn_episodes inc)" "\<not> required_present r"
  shows "\<exists>e. seasonSchema_parse env inc = Inl e"
proof -
  have "episodeSchema_parse env r = Inl ValidationError"
    using assms(2) by (simp add: episodeSchema_parse_def)
  from parse_array_fails[of r "sn_episodes inc" "episodeSchema_parse env", OF assms(1) this]
  show ?thesis
    by (auto simp: seasonSchema_parse_def)
qed

lemma parse_array_subtitles:
  "parse_array (subtitleSchema_parse env) xs = Inr ys \<Longrightarrow>
   ys = map (\<lambda>s. s\<lparr>st_lang := sanitize env (st_lang s), st_label := sanitize env (st_label s)\<rparr>) xs"
  by (induction xs arbitrary: ys)
     (auto simp: subtitleSchema_parse_def split: sum.splits if_splits)

lemma spread_total [simp]: "spread_episode e (episode_to_raw p) = p"
  by (simp add: spread_episode_def episode_to_raw_def with_default_def)

lemma sort_cmp_single [simp]: "sort_cmp c [x] = [x]"
  by (simp add: sort_cmp_def)

lemma episodeSchema_parse_fields:
  assumes "episodeSchema_parse env r = Inr p"
  shows "required_present r \<and> ep_id p = the (r_id r) \<and> ep_title p = sanitize env (the (r_title r))
    \<and> ep_description p = sanitize env (the (r_description r))
    \<and> ep_season p = the (r_season r) \<and> ep_episode p = the (r_episode r)
    \<and> ep_duration p = the (r_duration r) \<and> ep_streamUrl p = the (r_streamUrl r)
    \<and> ep_subtitles p = map (\<lambda>s. s\<lparr>st_lang := sanitize env (st_lang s), st_label := sanitize env (st_label s)\<rparr>)
          (with_default [] (r_subtitles r))
    \<and> ep_published p = with_default False (r_published r)
    \<and> ep_views p = with_default 0 (r_views r)
    \<and> ep_lastUpdated p = the (r_lastUpdated r)"
  using assms
  by (auto simp: episodeSchema_parse_def split: if_splits sum.splits dest!: parse_array_subtitles)

subsection \<open>Runs that break an invariant\<close>

text \<open>
  C2 asks that every document produced by the merge has strictly ascending season
  numbers and, in each season, strictly ascending episode numbers. Here
  \<^verbatim>\<open>createOrMergeSeries\<close> merges a payload whose season 2, absent from the stored
  series, lists its episodes as 2, 1, 1: the season is inserted as it came, and the
  document returned and saved has a season whose episode numbers are neither ascending
  nor distinct.
\<close>

theorem createOrMergeSeries_inserts_unsorted_season:
  "\<not> isl (fst (createOrMergeSeries demo_env ''2024-02-01T00:00:00.000Z''
               ''dddddddd-0000-4000-8000-000000000000'' (demo_payload [unsorted_season]) demo_fs))
   \<and> outline (sr_seasons (projr (fst (createOrMergeSeries demo_env ''2024-02-01T00:00:00.000Z''
               ''dddddddd-0000-4000-8000-000000000000'' (demo_payload [unsorted_season]) demo_fs))))
       = [(1, [1, 2]), (2, [2, 1, 1])]
   \<and> \<not> seasons_ordered (sr_seasons (projr (fst (createOrMergeSeries demo_env
               ''2024-02-01T00:00:00.000Z'' ''dddddddd-0000-4000-8000-000000000000''
               (demo_payload [unsorted_season]) demo_fs))))
   \<and> map_option (\<lambda>s. outline (sr_seasons s))
        (series_files (snd (createOrMergeSeries demo_env ''2024-02-01T00:00:00.000Z''
               ''dddddddd-0000-4000-8000-000000000000'' (demo_payload [unsorted_season]) demo_fs))
           ''echoes-of-atlas'')
       = Some [(1, [1, 2]), (2, [2, 1, 1])]"
  by code_simp

text \<open>
  C6 asks that no movie operation produces two movies with the same slug. Here the
  stored movies have the slugs \<^verbatim>\<open>alpha\<close> and \<^verbatim>\<open>beta\<close>, and \<^verbatim>\<open>updateMovie\<close> with the
  update \<^verbatim>\<open>{slug: "beta"}\<close> for the first movie succeeds and saves two movies with the
  slug \<^verbatim>\<open>beta\<close>: unlike \<^verbatim>\<open>createMovie\<close>, it never compares slugs.
\<close>

theorem updateMovie_duplicates_slug:
  "distinct (map mv_slug demo_movies)
   \<and> \<not> isl (fst (updateMovie demo_env ''2024-02-01T00:00:00.000Z''
               ''cccccccc-0000-4000-8000-000000000001'' (slug_patch ''beta'')
               (fs_empty\<lparr>movies_file := Some demo_movies\<rparr>)))
   \<and> map_option (map mv_slug)
        (movies_file (snd (updateMovie demo_env ''2024-02-01T00:00:00.000Z''
               ''cccccccc-0000-4000-8000-000000000001'' (slug_patch ''beta'')
               (fs_empty\<lparr>movies_file := Some demo_movies\<rparr>))))
       = Some [''beta'', ''beta'']"
  by code_simp

subsection \<open>Finding by index\<close>

lemma findIndex_None: "findIndex P xs = None \<longleftrightarrow> find P xs = None"
  by (induction xs) auto

lemma findIndex_Some:
  "findIndex P xs = Some i \<Longrightarrow> i < length xs \<and> P (xs ! i) \<and> find P xs = Some (xs ! i)"
  by (induction xs arbitrary: i) (auto split: if_splits)

lemma find_Some_findIndex:
  "find P xs = Some x \<Longrightarrow> \<exists>i. findIndex P xs = Some i \<and> i < length xs \<and> xs ! i = x"
  by (induction xs) (auto split: if_splits)

lemma find_update_at_findIndex:
  "findIndex P xs = Some i \<Longrightarrow> P y \<Longrightarrow> find P (xs[i := y]) = Some y"
  by (induction xs arbitrary: i) (auto split: if_splits)

subsection \<open>Timestamps of a series\<close>

lemma seriesSchema_parse_updatedAt:
  "seriesSchema_parse env r = Inr s \<Longrightarrow>
   sr_updatedAt s = sr_updatedAt r \<and> sr_id s = sr_id r \<and> sr_createdAt s = sr_createdAt r
   \<and> sr_slug s = sanitize env (sr_slug r)"
  by (auto simp: seriesSchema_parse_def split: if_splits sum.splits)

lemma readSeriesFile_Some:
  "readSeriesFile env fs slug = Inr (Some d) \<Longrightarrow>
   \<exists>stored. series_files fs slug = Some stored
      \<and> seriesSchema_parse env (series_to_raw stored) = Inr d"
  by (auto simp: readSeriesFile_def split: option.splits sum.splits)

lemma mergeEpisode_document_updatedAt:
  "mergeEpisode_document env now uuid p d = Inr s \<Longrightarrow> sr_updatedAt s = now \<and> sr_slug s = sr_slug d"
  by (auto simp: mergeEpisode_document_def Let_def split: option.splits sum.splits)

lemma incrementSeriesView_target:
  assumes r: "readSeriesFile env fs slug = Inr (Some d)"
      and t: "target_episode d season n = Some e"
  shows "\<exists>s'. incrementSeriesView env now slug season n fs
             = (Inr (), fs\<lparr>series_files := (series_files fs)(sr_slug d \<mapsto> s')\<rparr>)
          \<and> sr_updatedAt s' = sr_updatedAt d
          \<and> target_episode s' season n
             = Some (e\<lparr>ep_views := js_plus_one (ep_views e), ep_lastUpdated := now\<rparr>)"
proof -
  from t obtain sn where sn: "find (\<lambda>sn. sn_season sn = season) (sr_seasons d) = Some sn"
    and e: "find (\<lambda>ep. ep_episode ep = n) (sn_episodes sn) = Some e"
    by (auto simp: target_episode_def split: option.splits)
  from find_Some_findIndex[OF sn] obtain i where
    i: "findIndex (\<lambda>sn. sn_season sn = season) (sr_seasons d) = Some i"
    "i < length (sr_seasons d)" "sr_seasons d ! i = sn" by blast
  from find_Some_findIndex[OF e] obtain j where
    j: "findIndex (\<lambda>ep. ep_episode ep = n) (sn_episodes sn) = Some j"
    "j < length (sn_episodes sn)" "sn_episodes sn ! j = e" by blast
  let ?e' = "e\<lparr>ep_views := js_plus_one (ep_views e), ep_lastUpdated := now\<rparr>"
  let ?sn' = "sn\<lparr>sn_episodes := (sn_episodes sn)[j := ?e']\<rparr>"
  let ?s' = "d\<lparr>sr_seasons := (sr_seasons d)[i := ?sn']\<rparr>"
  have run: "incrementSeriesView env now slug season n fs
             = (Inr (), fs\<lparr>series_files := (series_files fs)(sr_slug d \<mapsto> ?s')\<rparr>)"
    using r i j by (simp add: incrementSeriesView_def saveSeries_def Let_def)
  have pe: "ep_episode e = n" using findIndex_Some[OF j(1)] j(3) by simp
  have ps: "sn_season sn = season" using findIndex_Some[OF i(1)] i(3) by simp
  have f1: "find (\<lambda>sn. sn_season sn = season) (sr_seasons ?s') = Some ?sn'"
    using find_update_at_findIndex[OF i(1), of ?sn'] ps by simp
  have f2: "find (\<lambda>ep. ep_episode ep = n) (sn_episodes ?sn') = Some ?e'"
    using find_update_at_findIndex[OF j(1), of ?e'] pe by simp
  have tgt: "target_episode ?s' season n = Some ?e'"
    using f1 f2 by (simp add: target_episode_def)
  have upd: "sr_updatedAt ?s' = sr_updatedAt d" by simp
  from run upd tgt show ?thesis by blast
qed

lemma result_pair: "\<not> isl (fst R) \<Longrightarrow> R = (Inr (projr (fst R)), snd R)"
  by (cases R; cases "fst R") auto

text \<open>
  Every other function that writes a series file sets the \<^verbatim>\<open>updatedAt\<close> of the series
  to the current time: \<^verbatim>\<open>mergeEpisode\<close>, \<^verbatim>\<open>createOrMergeSeries\<close> (creating or merging) and
  \<^verbatim>\<open>updateSeries\<close>.
\<close>

lemma createOrMergeSeries_updatedAt:
  assumes "createOrMergeSeries env now uuid payload fs = (Inr s, fs')"
  shows "sr_updatedAt s = now \<and> series_files fs' (sr_slug s) = Some s"
proof -
  from assms obtain r where p: "seriesSchema_parse env r = Inr s" and u: "sr_updatedAt r = now"
    and f: "fs' = saveSeries s fs"
    by (auto simp: createOrMergeSeries_def Let_def split: sum.splits option.splits)
  from seriesSchema_parse_updatedAt[OF p] u f show ?thesis by (simp add: saveSeries_def)
qed

lemma updateSeries_updatedAt:
  assumes "updateSeries env now slug update fs = (Inr s, fs')"
  shows "sr_updatedAt s = now \<and> series_files fs' (sr_slug s) = Some s"
proof -
  from assms obtain r where p: "seriesSchema_parse env r = Inr s" and u: "sr_updatedAt r = now"
    and f: "fs' = saveSeries s fs"
    by (auto simp: updateSeries_def split: sum.splits option.splits)
  from seriesSchema_parse_updatedAt[OF p] u f show ?thesis by (simp add: saveSeries_def)
qed

lemma mergeEpisode_updatedAt:
  assumes "mergeEpisode env now uuid slug p fs = (Inr s, fs')"
  shows "sr_updatedAt s = now \<and> series_files fs' (sr_slug s) = Some s"
proof -
  from assms obtain d where "mergeEpisode_document env now uuid p d = Inr s"
    and "fs' = saveSeries s fs"
    by (auto simp: mergeEpisode_def split: sum.splits option.splits)
  then show ?thesis
    using mergeEpisode_document_updatedAt[of env now uuid p d s]
    by (simp add: saveSeries_def)
qed

text \<open>
  C8 asks that every operation that mutates an episode of a stored series sets the
  \<^verbatim>\<open>updatedAt\<close> of the series to the current time in the saved document,
  \<^verbatim>\<open>incrementSeriesView\<close> on an existing episode included. Here the stored series was
  last updated on 2024-01-01 and episode 1 of season 1 is viewed on 2024-02-01: the
  saved document holds the episode with 6 views and the new \<^verbatim>\<open>lastUpdated\<close>, and the
  series with the \<^verbatim>\<open>updatedAt\<close> of 2024-01-01.
\<close>

theorem incrementSeriesView_keeps_updatedAt:
  "map_option sr_updatedAt (series_files demo_fs ''echoes-of-atlas'')
     = Some ''2024-01-01T00:00:00.000Z''
   \<and> target_episode demo_series 1 1 \<noteq> None
   \<and> fst (incrementSeriesView demo_env ''2024-02-01T00:00:00.000Z''
            ''echoes-of-atlas'' 1 1 demo_fs) = Inr ()
   \<and> map_option (\<lambda>s. map (\<lambda>sn. map (\<lambda>e. (ep_views e, ep_lastUpdated e)) (sn_episodes sn))
                      (sr_seasons s))
        (series_files (snd (incrementSeriesView demo_env ''2024-02-01T00:00:00.000Z''
            ''echoes-of-atlas'' 1 1 demo_fs)) ''echoes-of-atlas'')
       = Some [[(6, ''2024-02-01T00:00:00.000Z''), (5, ''2024-01-01T00:00:00.000Z'')]]
   \<and> map_option sr_updatedAt
        (series_files (snd (incrementSeriesView demo_env ''2024-02-01T00:00:00.000Z''
            ''echoes-of-atlas'' 1 1 demo_fs)) ''echoes-of-atlas'')
       = Some ''2024-01-01T00:00:00.000Z''
   \<and> map_option sr_updatedAt
        (series_files (snd (incrementSeriesView demo_env ''2024-02-01T00:00:00.000Z''
            ''echoes-of-atlas'' 1 1 demo_fs)) ''echoes-of-atlas'')
       \<noteq> Some ''2024-02-01T00:00:00.000Z''"
  by code_simp

subsection \<open>View counters\<close>

lemma js_plus_one_exact: "0 \<le> v \<Longrightarrow> v < 2 ^ 53 \<Longrightarrow> js_plus_one v = v + 1"
  by (simp add: js_plus_one_def)

text \<open>View counters that passed validation are not negative.\<close>

lemma loaded_movie_views:
  assumes "parse_array (movieSchema_parse env) stored = Inr ms" "m \<in> set ms"
  shows "0 \<le> mv_views m"
proof -
  from parse_array_elem[OF assms] obtain m0 where "movieSchema_parse env m0 = Inr m" by blast
  then show ?thesis by (auto simp: movieSchema_parse_def split: if_splits sum.splits)
qed

lemma loaded_episode_views:
  assumes "seriesSchema_parse env r = Inr d" "sn \<in> set (sr_seasons d)" "e \<in> set (sn_episodes sn)"
  shows "0 \<le> ep_views e"
proof -
  from assms(1) have "parse_array (seasonSchema_parse env) (sr_seasons r) = Inr (sr_seasons d)"
    by (auto simp: seriesSchema_parse_def split: if_splits sum.splits)
  from parse_array_elem[OF this assms(2)] obtain sn0 where
    "seasonSchema_parse env sn0 = Inr sn" by blast
  then have "parse_array (episodeSchema_parse env) (sn_episodes sn0) = Inr (sn_episodes sn)"
    by (auto simp: seasonSchema_parse_def split: if_splits sum.splits)
  from parse_array_elem[OF this assms(3)] obtain e0 where
    "episodeSchema_parse env e0 = Inr e" by blast
  then show ?thesis by (auto simp: episodeSchema_parse_def split: if_splits sum.splits)
qed

lemma target_episode_views:
  assumes r: "readSeriesFile env fs slug = Inr (Some d)"
      and t: "target_episode d season n = Some e"
  shows "0 \<le> ep_views e"
proof -
  from t obtain sn where "find (\<lambda>sn. sn_season sn = season) (sr_seasons d) = Some sn"
    and "find (\<lambda>ep. ep_episode ep = n) (sn_episodes sn) = Some e"
    by (auto simp: target_episode_def split: option.splits)
  then have m: "sn \<in> set (sr_seasons d)" "e \<in> set (sn_episodes sn)"
    by (auto simp: find_Some_iff)
  from readSeriesFile_Some[OF r] obtain stored where
    "seriesSchema_parse env (series_to_raw stored) = Inr d" by blast
  from loaded_episode_views[OF this m] show ?thesis .
qed

lemma incrementMovieView_target:
  assumes f: "movies_file fs = Some stored"
      and p: "parse_array (movieSchema_parse env) stored = Inr ms"
      and t: "find (\<lambda>movie. mv_id movie = ident) ms = Some m"
  shows "\<exists>saved. incrementMovieView env now ident fs = (Inr (), fs\<lparr>movies_file := Some saved\<rparr>)
           \<and> length saved = length ms
           \<and> find (\<lambda>movie. mv_id movie = ident) saved
              = Some (m\<lparr>mv_views := js_plus_one (mv_views m), mv_updatedAt := now\<rparr>)"
proof -
  from find_Some_findIndex[OF t] obtain i where
    i: "findIndex (\<lambda>movie. mv_id movie = ident) ms = Some i" "i < length ms" "ms ! i = m"
    by blast
  let ?m' = "m\<lparr>mv_views := js_plus_one (mv_views m), mv_updatedAt := now\<rparr>"
  have run: "incrementMovieView env now ident fs = (Inr (), fs\<lparr>movies_file := Some (ms[i := ?m'])\<rparr>)"
    using f p i
    by (simp add: incrementMovieView_def listMovies_def ensure_movies_file_def
          with_default_def saveMovies_def)
  have pm: "mv_id m = ident" using findIndex_Some[OF i(1)] i(3) by simp
  have fnd: "find (\<lambda>movie. mv_id movie = ident) (ms[i := ?m']) = Some ?m'"
    using find_update_at_findIndex[OF i(1), of ?m'] pm by simp
  have len: "length (ms[i := ?m']) = length ms" by simp
  from run len fnd show ?thesis by blast
qed

text \<open>
  C9, as stated, fails in its last part: the increment is a double addition, and a
  counter that has reached \<open>2 ^ 53\<close> is saved unchanged, for a movie as for an episode
  (the new \<^verbatim>\<open>updatedAt\<close> and \<^verbatim>\<open>lastUpdated\<close> show that the document was saved).
\<close>

theorem view_increment_at_2_53_counterexample:
  "map_option (map mv_views) (movies_file (fs_empty\<lparr>movies_file := Some [much_viewed_movie]\<rparr>))
     = Some [9007199254740992]
   \<and> fst (incrementMovieView demo_env ''2024-02-01T00:00:00.000Z''
          ''cccccccc-0000-4000-8000-000000000001''
          (fs_empty\<lparr>movies_file := Some [much_viewed_movie]\<rparr>)) = Inr ()
   \<and> map_option (map (\<lambda>m. (mv_views m, mv_updatedAt m)))
        (movies_file (snd (incrementMovieView demo_env ''2024-02-01T00:00:00.000Z''
          ''cccccccc-0000-4000-8000-000000000001''
          (fs_empty\<lparr>movies_file := Some [much_viewed_movie]\<rparr>))))
       = Some [(9007199254740992, ''2024-02-01T00:00:00.000Z'')]
   \<and> map_option (map mv_views)
        (movies_file (snd (incrementMovieView demo_env ''2024-02-01T00:00:00.000Z''
          ''cccccccc-0000-4000-8000-000000000001''
          (fs_empty\<lparr>movies_file := Some [much_viewed_movie]\<rparr>))))
       \<noteq> Some [9007199254740992 + 1]
   \<and> fst (incrementSeriesView demo_env ''2024-02-01T00:00:00.000Z'' ''echoes-of-atlas'' 1 1
          (fs_empty\<lparr>series_files := [''echoes-of-atlas'' \<mapsto> much_viewed_series]\<rparr>)) = Inr ()
   \<and> map_option (\<lambda>s. map_option (\<lambda>e. (ep_views e, ep_lastUpdated e)) (target_episode s 1 1))
        (series_files (snd (incrementSeriesView demo_env ''2024-02-01T00:00:00.000Z''
          ''echoes-of-atlas'' 1 1
          (fs_empty\<lparr>series_files := [''echoes-of-atlas'' \<mapsto> much_viewed_series]\<rparr>)))
          ''echoes-of-atlas'')
       = Some (Some (9007199254740992, ''2024-02-01T00:00:00.000Z''))"
  by code_simp

text \<open>
  C9, amended. On a store whose documents validate, the view increments never fail for
  a missing target: \<^verbatim>\<open>incrementMovieView\<close> with an id that no movie has returns with the
  store as it was (a movies file that does not exist yet is first written with the
  empty list, as every load does); \<^verbatim>\<open>incrementSeriesView\<close> with a slug that has no
  file, or with a season and episode number that \<^verbatim>\<open>find\<close> does not reach, returns
  with the store as it was. When the target exists and its view counter is below
  \<open>2 ^ 53\<close>, the saved document holds it with the counter raised by exactly one.
\<close>

theorem view_increment_noop_or_plus_one:
  "(movies_file fs = None
      \<longrightarrow> incrementMovieView env now ident fs = (Inr (), fs\<lparr>movies_file := Some []\<rparr>))
   \<and> (movies_file fs = Some stored \<and> parse_array (movieSchema_parse env) stored = Inr ms
        \<and> find (\<lambda>movie. mv_id movie = ident) ms = None
      \<longrightarrow> incrementMovieView env now ident fs = (Inr (), fs))
   \<and> (movies_file fs = Some stored \<and> parse_array (movieSchema_parse env) stored = Inr ms
        \<and> find (\<lambda>movie. mv_id movie = ident) ms = Some m \<and> mv_views m < 2 ^ 53
      \<longrightarrow> (\<exists>saved. incrementMovieView env now ident fs
                     = (Inr (), fs\<lparr>movies_file := Some saved\<rparr>)
                \<and> length saved = length ms
                \<and> find (\<lambda>movie. mv_id movie = ident) saved
                    = Some (m\<lparr>mv_views := mv_views m + 1, mv_updatedAt := now\<rparr>)))
   \<and> (series_files fs slug = None
      \<longrightarrow> incrementSeriesView env now slug season n fs = (Inr (), fs))
   \<and> (readSeriesFile env fs slug = Inr (Some d) \<and> target_episode d season n = None
      \<longrightarrow> incrementSeriesView env now slug season n fs = (Inr (), fs))
   \<and> (readSeriesFile env fs slug = Inr (Some d) \<and> target_episode d season n = Some e
        \<and> ep_views e < 2 ^ 53
      \<longrightarrow> (\<exists>s'. incrementSeriesView env now slug season n fs
                  = (Inr (), fs\<lparr>series_files := (series_files fs)(sr_slug d \<mapsto> s')\<rparr>)
               \<and> target_episode s' season n
                  = Some (e\<lparr>ep_views := ep_views e + 1, ep_lastUpdated := now\<rparr>)))"
proof -
  have a: "movies_file fs = None
      \<longrightarrow> incrementMovieView env now ident fs = (Inr (), fs\<lparr>movies_file := Some []\<rparr>)"
    by (simp add: incrementMovieView_def listMovies_def ensure_movies_file_def
          with_default_def)
  have b: "movies_file fs = Some stored \<and> parse_array (movieSchema_parse env) stored = Inr ms
        \<and> find (\<lambda>movie. mv_id movie = ident) ms = None
      \<longrightarrow> incrementMovieView env now ident fs = (Inr (), fs)"
    using findIndex_None[of "\<lambda>movie. mv_id movie = ident" ms]
    by (auto simp: incrementMovieView_def listMovies_def ensure_movies_file_def
          with_default_def)
  have c: "movies_file fs = Some stored \<and> parse_array (movieSchema_parse env) stored = Inr ms
        \<and> find (\<lambda>movie. mv_id movie = ident) ms = Some m \<and> mv_views m < 2 ^ 53
      \<longrightarrow> (\<exists>saved. incrementMovieView env now ident fs
                     = (Inr (), fs\<lparr>movies_file := Some saved\<rparr>)
                \<and> length saved = length ms
                \<and> find (\<lambda>movie. mv_id movie = ident) saved
                    = Some (m\<lparr>mv_views := mv_views m + 1, mv_updatedAt := now\<rparr>))"
  proof
    assume h: "movies_file fs = Some stored \<and> parse_array (movieSchema_parse env) stored = Inr ms
        \<and> find (\<lambda>movie. mv_id movie = ident) ms = Some m \<and> mv_views m < 2 ^ 53"
    then have "m \<in> set ms" by (auto simp: find_Some_iff)
    with h have "0 \<le> mv_views m" using loaded_movie_views[of env stored ms m] by blast
    with h have "js_plus_one (mv_views m) = mv_views m + 1" by (simp add: js_plus_one_exact)
    with h incrementMovieView_target[of fs stored env ms ident m now]
    show "\<exists>saved. incrementMovieView env now ident fs
                     = (Inr (), fs\<lparr>movies_file := Some saved\<rparr>)
                \<and> length saved = length ms
                \<and> find (\<lambda>movie. mv_id movie = ident) saved
                    = Some (m\<lparr>mv_views := mv_views m + 1, mv_updatedAt := now\<rparr>)"
      by simp
  qed
  have d: "series_files fs slug = None
      \<longrightarrow> incrementSeriesView env now slug season n fs = (Inr (), fs)"
    by (simp add: incrementSeriesView_def readSeriesFile_def)
  have e: "readSeriesFile env fs slug = Inr (Some d) \<and> target_episode d season n = None
      \<longrightarrow> incrementSeriesView env now slug season n fs = (Inr (), fs)"
  proof
    assume h: "readSeriesFile env fs slug = Inr (Some d) \<and> target_episode d season n = None"
    show "incrementSeriesView env now slug season n fs = (Inr (), fs)"
    proof (cases "findIndex (\<lambda>s. sn_season s = season) (sr_seasons d)")
      case None
      with h show ?thesis by (simp add: incrementSeriesView_def)
    next
      case (Some i)
      from findIndex_Some[OF Some] h
      have "find (\<lambda>ep. ep_episode ep = n) (sn_episodes (sr_seasons d ! i)) = None"
        by (simp add: target_episode_def)
      then have "findIndex (\<lambda>ep. ep_episode ep = n) (sn_episodes (sr_seasons d ! i)) = None"
        by (simp add: findIndex_None)
      with h Some show ?thesis by (simp add: incrementSeriesView_def Let_def)
    qed
  qed
  have f: "readSeriesFile env fs slug = Inr (Some d) \<and> target_episode d season n = Some e
        \<and> ep_views e < 2 ^ 53
      \<longrightarrow> (\<exists>s'. incrementSeriesView env now slug season n fs
                  = (Inr (), fs\<lparr>series_files := (series_files fs)(sr_slug d \<mapsto> s')\<rparr>)
               \<and> target_episode s' season n
                  = Some (e\<lparr>ep_views := ep_views e + 1, ep_lastUpdated := now\<rparr>))"
  proof
    assume h: "readSeriesFile env fs slug = Inr (Some d) \<and> target_episode d season n = Some e
        \<and> ep_views e < 2 ^ 53"
    then have "0 \<le> ep_views e" using target_episode_views[of env fs slug d season n e] by blast
    with h have x: "js_plus_one (ep_views e) = ep_views e + 1" by (simp add: js_plus_one_exact)
    from h incrementSeriesView_target[of env fs slug d season n e now]
    obtain s' where "incrementSeriesView env now slug season n fs
                  = (Inr (), fs\<lparr>series_files := (series_files fs)(sr_slug d \<mapsto> s')\<rparr>)"
      and "target_episode s' season n
                  = Some (e\<lparr>ep_views := js_plus_one (ep_views e), ep_lastUpdated := now\<rparr>)"
      by blast
    with x show "\<exists>s'. incrementSeriesView env now slug season n fs
                  = (Inr (), fs\<lparr>series_files := (series_files fs)(sr_slug d \<mapsto> s')\<rparr>)
               \<and> target_episode s' season n
                  = Some (e\<lparr>ep_views := ep_views e + 1, ep_lastUpdated := now\<rparr>)"
      by auto
  qed
  from a b c d e f show ?thesis by blast
qed


theorem view_increment_noop_or_plus_one_witness:
  "movies_file fs_empty = None
   \<and> incrementMovieView demo_env ''2024-02-01T00:00:00.000Z''
        ''cccccccc-0000-4000-8000-000000000001'' fs_empty
       = (Inr (), fs_empty\<lparr>movies_file := Some []\<rparr>)
   \<and> parse_array (movieSchema_parse demo_env) demo_movies = Inr demo_movies
   \<and> find (\<lambda>movie. mv_id movie = ''cccccccc-0000-4000-8000-000000000009'') demo_movies = None
   \<and> incrementMovieView demo_env ''2024-02-01T00:00:00.000Z''
        ''cccccccc-0000-4000-8000-000000000009'' (fs_empty\<lparr>movies_file := Some demo_movies\<rparr>)
       = (Inr (), fs_empty\<lparr>movies_file := Some demo_movies\<rparr>)
   \<and> find (\<lambda>movie. mv_id movie = ''cccccccc-0000-4000-8000-000000000001'') demo_movies
       = Some (demo_movie ''cccccccc-0000-4000-8000-000000000001'' ''Alpha'' ''alpha'')
   \<and> mv_views (demo_movie ''cccccccc-0000-4000-8000-000000000001'' ''Alpha'' ''alpha'') < 2 ^ 53
   \<and> fst (incrementMovieView demo_env ''2024-02-01T00:00:00.000Z''
        ''cccccccc-0000-4000-8000-000000000001'' (fs_empty\<lparr>movies_file := Some demo_movies\<rparr>))
       = Inr ()
   \<and> map_option mv_views
        (find (\<lambda>movie. mv_id movie = ''cccccccc-0000-4000-8000-000000000001'')
           (with_default []
              (movies_file (snd (incrementMovieView demo_env ''2024-02-01T00:00:00.000Z''
                 ''cccccccc-0000-4000-8000-000000000001''
                 (fs_empty\<lparr>movies_file := Some demo_movies\<rparr>))))))
       = Some 8
   \<and> series_files demo_fs ''missing'' = None
   \<and> incrementSeriesView demo_env ''2024-02-01T00:00:00.000Z'' ''missing'' 1 1 demo_fs
       = (Inr (), demo_fs)
   \<and> readSeriesFile demo_env demo_fs ''echoes-of-atlas'' = Inr (Some demo_series)
   \<and> target_episode demo_series 1 9 = None
   \<and> incrementSeriesView demo_env ''2024-02-01T00:00:00.000Z'' ''echoes-of-atlas'' 1 9 demo_fs
       = (Inr (), demo_fs)
   \<and> target_episode demo_series 1 1
       = Some (demo_episode ''aaaaaaaa-0000-4000-8000-000000000001'' ''Pilot'' 1 1)
   \<and> ep_views (demo_episode ''aaaaaaaa-0000-4000-8000-000000000001'' ''Pilot'' 1 1) < 2 ^ 53
   \<and> fst (incrementSeriesView demo_env ''2024-02-01T00:00:00.000Z'' ''echoes-of-atlas'' 1 1 demo_fs)
       = Inr ()
   \<and> map_option (\<lambda>s. map_option ep_views (target_episode s 1 1))
        (series_files (snd (incrementSeriesView demo_env ''2024-02-01T00:00:00.000Z''
            ''echoes-of-atlas'' 1 1 demo_fs)) ''echoes-of-atlas'')
       = Some (Some 6)"
proof -
  let ?now = "''2024-02-01T00:00:00.000Z''"
  let ?id1 = "''cccccccc-0000-4000-8000-000000000001''"
  let ?id9 = "''cccccccc-0000-4000-8000-000000000009''"
  let ?fs = "fs_empty\<lparr>movies_file := Some demo_movies\<rparr>"
  let ?m = "demo_movie ?id1 ''Alpha'' ''alpha''"
  let ?e = "demo_episode ''aaaaaaaa-0000-4000-8000-000000000001'' ''Pilot'' 1 1"
  have h0: "movies_file fs_empty = None" by (simp add: fs_empty_def)
  have h1: "movies_file ?fs = Some demo_movies" by simp
  have h2: "parse_array (movieSchema_parse demo_env) demo_movies = Inr demo_movies"
    by code_simp
  have h3: "find (\<lambda>movie. mv_id movie = ?id9) demo_movies = None" by code_simp
  have h4: "find (\<lambda>movie. mv_id movie = ?id1) demo_movies = Some ?m" by code_simp
  have h5: "series_files demo_fs ''missing'' = None" by (simp add: demo_fs_def fs_empty_def)
  have h6: "readSeriesFile demo_env demo_fs ''echoes-of-atlas'' = Inr (Some demo_series)"
    by code_simp
  have h7: "target_episode demo_series 1 9 = None" by code_simp
  have h8: "target_episode demo_series 1 1 = Some ?e" by code_simp
  have v: "mv_views ?m = 7" "ep_views ?e = 5" "sr_slug demo_series = ''echoes-of-atlas''"
    by (simp_all add: demo_movie_def demo_episode_def demo_series_def)
  have bm: "mv_views ?m < 2 ^ 53" and be: "ep_views ?e < 2 ^ 53"
    by (simp_all add: v)
  note T = view_increment_noop_or_plus_one
  have c1: "incrementMovieView demo_env ?now ?id1 fs_empty
       = (Inr (), fs_empty\<lparr>movies_file := Some []\<rparr>)"
    using T[where fs = fs_empty and env = demo_env and now = ?now and ident = ?id1] h0
    by blast
  have c2: "incrementMovieView demo_env ?now ?id9 ?fs = (Inr (), ?fs)"
    using T[where fs = ?fs and env = demo_env and now = ?now and ident = ?id9
              and stored = demo_movies and ms = demo_movies] h1 h2 h3
    by blast
  obtain saved where
    s1: "incrementMovieView demo_env ?now ?id1 ?fs = (Inr (), ?fs\<lparr>movies_file := Some saved\<rparr>)"
    and s2: "find (\<lambda>movie. mv_id movie = ?id1) saved
              = Some (?m\<lparr>mv_views := mv_views ?m + 1, mv_updatedAt := ?now\<rparr>)"
    using T[where fs = ?fs and env = demo_env and now = ?now and ident = ?id1
              and stored = demo_movies and ms = demo_movies and m = ?m,
            THEN conjunct2, THEN conjunct2, THEN conjunct1] h1 h2 h4 bm
    by blast
  have c3: "fst (incrementMovieView demo_env ?now ?id1 ?fs) = Inr ()
    \<and> map_option mv_views
        (find (\<lambda>movie. mv_id movie = ?id1)
           (with_default [] (movies_file (snd (incrementMovieView demo_env ?now ?id1 ?fs)))))
       = Some 8"
    using s1 s2 v by (simp add: with_default_def)
  have c4: "incrementSeriesView demo_env ?now ''missing'' 1 1 demo_fs = (Inr (), demo_fs)"
    using T[where fs = demo_fs and env = demo_env and now = ?now and slug = "''missing''"
              and season = 1 and n = 1] h5
    by blast
  have c5: "incrementSeriesView demo_env ?now ''echoes-of-atlas'' 1 9 demo_fs = (Inr (), demo_fs)"
    using T[where fs = demo_fs and env = demo_env and now = ?now
              and slug = "''echoes-of-atlas''" and season = 1 and n = 9 and d = demo_series]
          h6 h7
    by blast
  obtain s' where
    t1: "incrementSeriesView demo_env ?now ''echoes-of-atlas'' 1 1 demo_fs
          = (Inr (), demo_fs\<lparr>series_files :=
                       (series_files demo_fs)(sr_slug demo_series \<mapsto> s')\<rparr>)"
    and t2: "target_episode s' 1 1
              = Some (?e\<lparr>ep_views := ep_views ?e + 1, ep_lastUpdated := ?now\<rparr>)"
    using T[where fs = demo_fs and env = demo_env and now = ?now
              and slug = "''echoes-of-atlas''" and season = 1 and n = 1 and d = demo_series
              and e = ?e,
            THEN conjunct2, THEN conjunct2, THEN conjunct2, THEN conjunct2, THEN conjunct2]
          h6 h8 be
    by blast
  have c6: "fst (incrementSeriesView demo_env ?now ''echoes-of-atlas'' 1 1 demo_fs) = Inr ()
    \<and> map_option (\<lambda>s. map_option ep_views (target_episode s 1 1))
        (series_files (snd (incrementSeriesView demo_env ?now ''echoes-of-atlas'' 1 1 demo_fs))
           ''echoes-of-atlas'')
       = Some (Some 6)"
    using t1 t2 v by simp
  from h0 h2 h3 h4 h5 h6 h7 h8 bm be c1 c2 c3 c4 c5 c6 show ?thesis by blast
qed

subsection \<open>Identity of a merged series\<close>

text \<open>
  C7. When a file exists under the slug that \<^verbatim>\<open>slugify\<close> computes from the payload's
  slug (or its name, when the slug is empty), a successful \<^verbatim>\<open>createOrMergeSeries\<close>
  returns a document with the \<^verbatim>\<open>id\<close> and \<^verbatim>\<open>createdAt\<close> of the stored series, whose slug
  is the computed slug as the schema's sanitizing returns it, and saves it under the
  result's slug and nowhere else; the computed slug passes the slug pattern, and
  where sanitizing leaves it alone the result replaces the file that was read.
\<close>

theorem createOrMergeSeries_existing_identity:
  assumes key: "slug = slugify env (if pl_slug payload \<noteq> [] then pl_slug payload
                                     else pl_name payload)"
      and stored: "series_files fs slug = Some stored"
      and run: "createOrMergeSeries env now uuid payload fs = (Inr series, fs')"
  shows "sr_id series = sr_id stored
       \<and> sr_createdAt series = sr_createdAt stored
       \<and> slug_regex slug \<and> sr_slug series = sanitize env slug
       \<and> fs' = fs\<lparr>series_files := (series_files fs)(sr_slug series \<mapsto> series)\<rparr>
       \<and> (sanitize env slug = slug \<longrightarrow> sr_slug series = slug \<and> series_files fs' slug = Some series)"
proof -
  from stored run key obtain existing where
    ex: "readSeriesFile env fs slug = Inr (Some existing)"
    by (auto simp: createOrMergeSeries_def readSeriesFile_def Let_def
             split: sum.splits option.splits)
  from ex stored have pe: "seriesSchema_parse env (series_to_raw stored) = Inr existing"
    by (simp add: readSeriesFile_def split: sum.splits)
  have ids: "sr_id existing = sr_id stored" "sr_createdAt existing = sr_createdAt stored"
    using seriesSchema_parse_updatedAt[OF pe] by (simp_all add: series_to_raw_def)
  from run ex key obtain mergedSeasons where
    ps: "seriesSchema_parse env
           \<lparr>sr_id = sr_id existing, sr_name = pl_name payload, sr_slug = slug,
            sr_description = pl_description payload, sr_posterUrl = pl_posterUrl payload,
            sr_categories = pl_categories payload,
            sr_seasons = map season_to_raw mergedSeasons,
            sr_published = pl_published payload, sr_featured = pl_featured payload,
            sr_createdAt = sr_createdAt existing, sr_updatedAt = now\<rparr> = Inr series"
    and sv: "fs' = saveSeries series fs"
    by (auto simp: createOrMergeSeries_def Let_def split: sum.splits)
  note f = seriesSchema_parse_updatedAt[OF ps]
  from ps have rx: "slug_regex slug"
    by (auto simp: seriesSchema_parse_def split: if_splits)
  from f ids sv rx show ?thesis by (simp add: saveSeries_def)
qed

theorem createOrMergeSeries_existing_identity_witness:
  "''echoes-of-atlas'' = slugify demo_env (if pl_slug (demo_payload []) \<noteq> []
       then pl_slug (demo_payload []) else pl_name (demo_payload []))
   \<and> series_files demo_fs ''echoes-of-atlas'' = Some demo_series
   \<and> \<not> isl (fst (createOrMergeSeries demo_env ''2024-02-01T00:00:00.000Z''
               ''dddddddd-0000-4000-8000-000000000000'' (demo_payload []) demo_fs))
   \<and> sanitize demo_env ''echoes-of-atlas'' = ''echoes-of-atlas''
   \<and> sr_id (projr (fst (createOrMergeSeries demo_env ''2024-02-01T00:00:00.000Z''
               ''dddddddd-0000-4000-8000-000000000000'' (demo_payload []) demo_fs)))
       = ''aaaaaaaa-0000-4000-8000-000000000000''
   \<and> sr_createdAt (projr (fst (createOrMergeSeries demo_env ''2024-02-01T00:00:00.000Z''
               ''dddddddd-0000-4000-8000-000000000000'' (demo_payload []) demo_fs)))
       = ''2023-12-31T00:00:00.000Z''
   \<and> sr_slug (projr (fst (createOrMergeSeries demo_env ''2024-02-01T00:00:00.000Z''
               ''dddddddd-0000-4000-8000-000000000000'' (demo_payload []) demo_fs)))
       = ''echoes-of-atlas''
   \<and> series_files (snd (createOrMergeSeries demo_env ''2024-02-01T00:00:00.000Z''
               ''dddddddd-0000-4000-8000-000000000000'' (demo_payload []) demo_fs))
         ''echoes-of-atlas''
       = Some (projr (fst (createOrMergeSeries demo_env ''2024-02-01T00:00:00.000Z''
               ''dddddddd-0000-4000-8000-000000000000'' (demo_payload []) demo_fs)))"
proof -
  let ?R = "createOrMergeSeries demo_env ''2024-02-01T00:00:00.000Z''
               ''dddddddd-0000-4000-8000-000000000000'' (demo_payload []) demo_fs"
  have h1: "''echoes-of-atlas'' = slugify demo_env (if pl_slug (demo_payload []) \<noteq> []
       then pl_slug (demo_payload []) else pl_name (demo_payload []))"
    by code_simp
  have h2: "series_files demo_fs ''echoes-of-atlas'' = Some demo_series"
    by (simp add: demo_fs_def)
  have h3: "\<not> isl (fst ?R)" by code_simp
  have h4: "sanitize demo_env ''echoes-of-atlas'' = ''echoes-of-atlas''"
    by code_simp
  have v: "sr_id demo_series = ''aaaaaaaa-0000-4000-8000-000000000000''"
    "sr_createdAt demo_series = ''2023-12-31T00:00:00.000Z''"
    by (simp_all add: demo_series_def)
  from createOrMergeSeries_existing_identity[OF h1 h2 result_pair[OF h3]] h4 v
  have "sr_id (projr (fst ?R)) = ''aaaaaaaa-0000-4000-8000-000000000000''
     \<and> sr_createdAt (projr (fst ?R)) = ''2023-12-31T00:00:00.000Z''
     \<and> sr_slug (projr (fst ?R)) = ''echoes-of-atlas''
     \<and> series_files (snd ?R) ''echoes-of-atlas'' = Some (projr (fst ?R))"
    by simp
  with h1 h2 h3 h4 show ?thesis by blast
qed

subsection \<open>Uniqueness checks on creation\<close>

lemma parse_array_movies:
  "parse_array (movieSchema_parse env) stored = Inr ms \<Longrightarrow>
   map mv_slug ms = map (\<lambda>m. sanitize env (mv_slug m)) stored
   \<and> map mv_id ms = map mv_id stored \<and> map mv_views ms = map mv_views stored"
  by (induction stored arbitrary: ms)
     (auto simp: movieSchema_parse_def split: sum.splits if_splits)

lemma parse_array_users:
  "parse_array (userSchema_parse env) stored = Inr us \<Longrightarrow>
   map u_username us = map (\<lambda>u. sanitize env (u_username u)) stored"
  by (induction stored arbitrary: us)
     (auto simp: userSchema_parse_def split: sum.splits if_splits)

lemma createMovie_conflict:
  assumes p: "movieSchema_parse env
                (payload\<lparr>mv_id := uuid, mv_createdAt := now, mv_updatedAt := now, mv_views := 0\<rparr>)
              = Inr movie"
      and f: "movies_file fs = Some stored"
      and l: "parse_array (movieSchema_parse env) stored = Inr movies"
      and s: "existing \<in> set stored" "mv_slug existing = mv_slug payload"
  shows "createMovie env now uuid payload fs = (Inl (Conflict ''Movie slug already exists''), fs)"
proof -
  have ms: "mv_slug movie = sanitize env (mv_slug payload)"
    using p by (auto simp: movieSchema_parse_def split: if_splits sum.splits)
  have "sanitize env (mv_slug existing) \<in> set (map mv_slug movies)"
    using parse_array_movies[OF l] s(1) by auto
  then have "list_ex (\<lambda>m. mv_slug m = mv_slug movie) movies"
    using ms s(2) by (auto simp: list_ex_iff)
  then show ?thesis
    using p f l
    by (simp add: createMovie_def listMovies_def ensure_movies_file_def with_default_def)
qed

lemma find_username:
  assumes l: "parse_array (userSchema_parse env) stored = Inr users"
      and s: "existing \<in> set stored" "sanitize env (u_username existing) = name"
  shows "find (\<lambda>user. u_username user = name) users \<noteq> None"
proof -
  have "name \<in> set (map u_username users)"
    using parse_array_users[OF l] s by auto
  then show ?thesis by (auto simp: find_None_iff)
qed

lemma createUser_conflict_admin:
  assumes p: "createUserSchema_parse env payload = Inr parsed"
      and a: "admin_file fs = Some admin" "userSchema_parse env admin = Inr admin'"
      and n: "u_username admin = cu_username payload"
  shows "createUser env now uuid bcrypt payload fs
           = (Inl (Conflict ''Username already exists''), fs)"
proof -
  have "cu_username parsed = sanitize env (cu_username payload)"
    using p by (auto simp: createUserSchema_parse_def split: if_splits)
  moreover have "u_username admin' = sanitize env (u_username admin)"
    using a(2) by (auto simp: userSchema_parse_def split: if_splits)
  ultimately show ?thesis
    using p a n
    by (simp add: createUser_def findUserByUsername_def getAdmin_def)
qed

lemma createUser_conflict_user:
  assumes p: "createUserSchema_parse env payload = Inr parsed"
      and a: "getAdmin env fs = Inr admin"
      and f: "users_file fs = Some stored"
      and l: "parse_array (userSchema_parse env) stored = Inr users"
      and s: "existing \<in> set stored" "u_username existing = cu_username payload"
  shows "createUser env now uuid bcrypt payload fs
           = (Inl (Conflict ''Username already exists''), fs)"
proof -
  have pn: "cu_username parsed = sanitize env (cu_username payload)"
    using p by (auto simp: createUserSchema_parse_def split: if_splits)
  from find_username[OF l s(1), of "cu_username parsed"] s(2) pn
  obtain u where u: "find (\<lambda>user. u_username user = cu_username parsed) users = Some u"
    by auto
  have lu: "listUsers env fs = (Inr users, fs)"
    using f l by (simp add: listUsers_def ensure_users_file_def with_default_def)
  have "\<exists>x. findUserByUsername env (cu_username parsed) fs = (Inr (Some x), fs)"
    using a lu u by (auto simp: findUserByUsername_def split: option.splits)
  then show ?thesis using p by (auto simp: createUser_def)
qed

text \<open>
  C5. For a payload that passes its schema and a store that validates:
  \<^verbatim>\<open>createMovie\<close> with the slug of a stored movie returns the error
  "Movie slug already exists" and leaves the store as it was; \<^verbatim>\<open>createUser\<close> with
  the user name of the stored admin, or of a user in the users file, returns the error
  "Username already exists" and leaves the store (admin file and users file) as it was.
\<close>

theorem create_conflicts:
  "(movieSchema_parse env
       (payload\<lparr>mv_id := uuid, mv_createdAt := now, mv_updatedAt := now, mv_views := 0\<rparr>)
      = Inr movie
     \<and> movies_file fs = Some stored_movies
     \<and> parse_array (movieSchema_parse env) stored_movies = Inr movies
     \<and> existing \<in> set stored_movies \<and> mv_slug existing = mv_slug payload
    \<longrightarrow> createMovie env now uuid payload fs
          = (Inl (Conflict ''Movie slug already exists''), fs))
   \<and> (createUserSchema_parse env upayload = Inr parsed
       \<and> admin_file fs = Some admin \<and> userSchema_parse env admin = Inr admin'
       \<and> u_username admin = cu_username upayload
    \<longrightarrow> createUser env now uuid bcrypt upayload fs
          = (Inl (Conflict ''Username already exists''), fs))
   \<and> (createUserSchema_parse env upayload = Inr parsed
       \<and> getAdmin env fs = Inr loaded_admin
       \<and> users_file fs = Some stored_users
       \<and> parse_array (userSchema_parse env) stored_users = Inr users
       \<and> u \<in> set stored_users \<and> u_username u = cu_username upayload
    \<longrightarrow> createUser env now uuid bcrypt upayload fs
          = (Inl (Conflict ''Username already exists''), fs))"
proof (intro conjI impI)
  assume "movieSchema_parse env
       (payload\<lparr>mv_id := uuid, mv_createdAt := now, mv_updatedAt := now, mv_views := 0\<rparr>)
      = Inr movie
     \<and> movies_file fs = Some stored_movies
     \<and> parse_array (movieSchema_parse env) stored_movies = Inr movies
     \<and> existing \<in> set stored_movies \<and> mv_slug existing = mv_slug payload"
  then show "createMovie env now uuid payload fs
          = (Inl (Conflict ''Movie slug already exists''), fs)"
    by (elim conjE) (rule createMovie_conflict)
next
  assume "createUserSchema_parse env upayload = Inr parsed
       \<and> admin_file fs = Some admin \<and> userSchema_parse env admin = Inr admin'
       \<and> u_username admin = cu_username upayload"
  then show "createUser env now uuid bcrypt upayload fs
          = (Inl (Conflict ''Username already exists''), fs)"
    by (elim conjE) (rule createUser_conflict_admin)
next
  assume "createUserSchema_parse env upayload = Inr parsed
       \<and> getAdmin env fs = Inr loaded_admin
       \<and> users_file fs = Some stored_users
       \<and> parse_array (userSchema_parse env) stored_users = Inr users
       \<and> u \<in> set stored_users \<and> u_username u = cu_username upayload"
  then show "createUser env now uuid bcrypt upayload fs
          = (Inl (Conflict ''Username already exists''), fs)"
    by (elim conjE) (rule createUser_conflict_user)
qed


theorem create_conflicts_witness:
  "movieSchema_parse demo_env
      ((demo_movie [] ''Another Beta'' ''beta'')
         \<lparr>mv_id := ''dddddddd-0000-4000-8000-000000000000'',
          mv_createdAt := ''2024-02-01T00:00:00.000Z'',
          mv_updatedAt := ''2024-02-01T00:00:00.000Z'', mv_views := 0\<rparr>)
     = Inr ((demo_movie [] ''Another Beta'' ''beta'')
         \<lparr>mv_id := ''dddddddd-0000-4000-8000-000000000000'',
          mv_createdAt := ''2024-02-01T00:00:00.000Z'',
          mv_updatedAt := ''2024-02-01T00:00:00.000Z'', mv_views := 0\<rparr>)
   \<and> parse_array (movieSchema_parse demo_env) demo_movies = Inr demo_movies
   \<and> demo_movie ''cccccccc-0000-4000-8000-000000000002'' ''Beta'' ''beta'' \<in> set demo_movies
   \<and> createMovie demo_env ''2024-02-01T00:00:00.000Z'' ''dddddddd-0000-4000-8000-000000000000''
        (demo_movie [] ''Another Beta'' ''beta'') (fs_empty\<lparr>movies_file := Some demo_movies\<rparr>)
       = (Inl (Conflict ''Movie slug already exists''), fs_empty\<lparr>movies_file := Some demo_movies\<rparr>)
   \<and> createUserSchema_parse demo_env (demo_new_user ''admin'') = Inr (demo_new_user ''admin'')
   \<and> getAdmin demo_env demo_users_fs
       = Inr (Some (demo_user ''ffffffff-0000-4000-8000-000000000001'' ''admin'' Admin))
   \<and> createUser demo_env ''2024-02-01T00:00:00.000Z'' ''dddddddd-0000-4000-8000-000000000000''
        (\<lambda>pw. ''$2a$12$new'') (demo_new_user ''admin'') demo_users_fs
       = (Inl (Conflict ''Username already exists''), demo_users_fs)
   \<and> createUserSchema_parse demo_env (demo_new_user ''jane'') = Inr (demo_new_user ''jane'')
   \<and> parse_array (userSchema_parse demo_env)
        [demo_user ''ffffffff-0000-4000-8000-000000000002'' ''jane'' User]
       = Inr [demo_user ''ffffffff-0000-4000-8000-000000000002'' ''jane'' User]
   \<and> createUser demo_env ''2024-02-01T00:00:00.000Z'' ''dddddddd-0000-4000-8000-000000000000''
        (\<lambda>pw. ''$2a$12$new'') (demo_new_user ''jane'') demo_users_fs
       = (Inl (Conflict ''Username already exists''), demo_users_fs)"
proof -
  let ?now = "''2024-02-01T00:00:00.000Z''"
  let ?uuid = "''dddddddd-0000-4000-8000-000000000000''"
  let ?payload = "demo_movie [] ''Another Beta'' ''beta''"
  let ?movie = "?payload\<lparr>mv_id := ?uuid, mv_createdAt := ?now, mv_updatedAt := ?now, mv_views := 0\<rparr>"
  let ?beta = "demo_movie ''cccccccc-0000-4000-8000-000000000002'' ''Beta'' ''beta''"
  let ?fs = "fs_empty\<lparr>movies_file := Some demo_movies\<rparr>"
  let ?admin = "demo_user ''ffffffff-0000-4000-8000-000000000001'' ''admin'' Admin"
  let ?jane = "demo_user ''ffffffff-0000-4000-8000-000000000002'' ''jane'' User"
  have m1: "movieSchema_parse demo_env ?movie = Inr ?movie" by code_simp
  have m2: "movies_file ?fs = Some demo_movies" by simp
  have m3: "parse_array (movieSchema_parse demo_env) demo_movies = Inr demo_movies"
    by code_simp
  have m4: "?beta \<in> set demo_movies" by (simp add: demo_movies_def)
  have m5: "mv_slug ?beta = mv_slug ?payload" by (simp add: demo_movie_def)
  have a1: "createUserSchema_parse demo_env (demo_new_user ''admin'') = Inr (demo_new_user ''admin'')"
    by code_simp
  have a2: "admin_file demo_users_fs = Some ?admin" by (simp add: demo_users_fs_def)
  have a3: "userSchema_parse demo_env ?admin = Inr ?admin" by code_simp
  have a4: "u_username ?admin = cu_username (demo_new_user ''admin'')"
    by (simp add: demo_user_def demo_new_user_def)
  have j1: "createUserSchema_parse demo_env (demo_new_user ''jane'') = Inr (demo_new_user ''jane'')"
    by code_simp
  have j2: "getAdmin demo_env demo_users_fs = Inr (Some ?admin)" by code_simp
  have j3: "users_file demo_users_fs = Some [?jane]" by (simp add: demo_users_fs_def)
  have j4: "parse_array (userSchema_parse demo_env) [?jane] = Inr [?jane]" by code_simp
  have j5: "?jane \<in> set [?jane]" by simp
  have j6: "u_username ?jane = cu_username (demo_new_user ''jane'')"
    by (simp add: demo_user_def demo_new_user_def)
  note T = create_conflicts
  have c1: "createMovie demo_env ?now ?uuid ?payload ?fs
       = (Inl (Conflict ''Movie slug already exists''), ?fs)"
    using T[where env = demo_env and payload = ?payload and uuid = ?uuid and now = ?now
              and movie = ?movie and fs = ?fs and stored_movies = demo_movies
              and movies = demo_movies and existing = ?beta, THEN conjunct1]
          m1 m2 m3 m4 m5
    by blast
  have c2: "createUser demo_env ?now ?uuid (\<lambda>pw. ''$2a$12$new'') (demo_new_user ''admin'')
              demo_users_fs = (Inl (Conflict ''Username already exists''), demo_users_fs)"
    using T[where env = demo_env and upayload = "demo_new_user ''admin''"
              and parsed = "demo_new_user ''admin''" and fs = demo_users_fs
              and admin = ?admin and admin' = ?admin, THEN conjunct2, THEN conjunct1]
          a1 a2 a3 a4
    by blast
  have c3: "createUser demo_env ?now ?uuid (\<lambda>pw. ''$2a$12$new'') (demo_new_user ''jane'')
              demo_users_fs = (Inl (Conflict ''Username already exists''), demo_users_fs)"
    using T[where env = demo_env and upayload = "demo_new_user ''jane''"
              and parsed = "demo_new_user ''jane''" and fs = demo_users_fs
              and loaded_admin = "Some ?admin" and stored_users = "[?jane]"
              and users = "[?jane]" and u = ?jane, THEN conjunct2, THEN conjunct2]
          j1 j2 j3 j4 j5 j6
    by blast
  from m1 m3 m4 a1 j1 j2 j4 c1 c2 c3 show ?thesis by blast
qed

subsection \<open>Sorting by a numeric key\<close>

lemma insort_cmp_key: "insort_cmp (\<lambda>a b. f a - f b) x xs = insort_key f x xs"
  for f :: "'a \<Rightarrow> int"
  by (induction xs) auto

lemma sort_cmp_key: "sort_cmp (\<lambda>a b. f a - f b) xs = sort_key f xs"
  for f :: "'a \<Rightarrow> int"
  by (induction xs) (simp_all add: sort_cmp_def insort_cmp_key)

lemma distinct_map_sort_key: "distinct (map f (sort_key f xs)) = distinct (map f xs)"
  by (induction xs) (simp_all add: distinct_insort_key)

lemma strict_sort_key:
  "distinct (map f xs) \<Longrightarrow> sorted_wrt (<) (map f (sort_key f xs))"
  for f :: "'a \<Rightarrow> int"
  by (simp add: strict_sorted_iff distinct_map_sort_key)

lemma sort_key_strict_id:
  "sorted_wrt (<) (map f xs) \<Longrightarrow> sort_key f xs = xs"
  for f :: "'a \<Rightarrow> int"
  by (simp add: strict_sorted_iff sort_key_id_if_sorted)

lemma strict_unique:
  "sorted_wrt (<) (map f xs) \<Longrightarrow> x \<in> set xs \<Longrightarrow> y \<in> set xs \<Longrightarrow> f x = f y \<Longrightarrow> x = y"
  for f :: "'a \<Rightarrow> int"
  by (auto simp: strict_sorted_iff distinct_map dest: inj_onD)

lemma find_None_set: "find P xs = None \<Longrightarrow> x \<in> set xs \<Longrightarrow> \<not> P x"
  by (auto simp: find_None_iff)

lemma findIndex_key_absent:
  "findIndex (\<lambda>x. f x = k) xs = None \<Longrightarrow> k \<notin> set (map f xs)"
  by (auto simp: findIndex_None find_None_iff)

lemma findIndex_key_present:
  "x \<in> set xs \<Longrightarrow> \<exists>i. findIndex (\<lambda>y. f y = f x) xs = Some i"
  by (cases "findIndex (\<lambda>y. f y = f x) xs") (auto dest: findIndex_key_absent)

lemma findIndex_unique:
  fixes f :: "'a \<Rightarrow> int"
  assumes "sorted_wrt (<) (map f xs)" "x \<in> set xs"
  shows "\<exists>i. findIndex (\<lambda>y. f y = f x) xs = Some i \<and> i < length xs \<and> xs ! i = x"
proof -
  from findIndex_key_present[OF assms(2)] obtain i where
    i: "findIndex (\<lambda>y. f y = f x) xs = Some i" by blast
  from findIndex_Some[OF i] have "i < length xs" "f (xs ! i) = f x" by simp_all
  then have "xs ! i = x" using strict_unique[OF assms(1) _ assms(2)] by simp
  with i \<open>i < length xs\<close> show ?thesis by blast
qed

lemma map_key_update:
  "i < length xs \<Longrightarrow> f y = f (xs ! i) \<Longrightarrow> map f (xs[i := y]) = map f xs"
  by (simp add: map_update list_eq_iff_nth_eq nth_list_update)

subsection \<open>Documents that read back unchanged\<close>

lemma parse_array_stable:
  "parse_array f (map g xs) = Inr xs \<longleftrightarrow> list_all (\<lambda>x. f (g x) = Inr x) xs"
  by (induction xs) (auto split: sum.splits)

lemma season_stable_iff:
  "season_stable env sn \<longleftrightarrow> 1 \<le> sn_season sn \<and> list_all (episode_stable env) (sn_episodes sn)"
proof -
  have "parse_array (episodeSchema_parse env) (map episode_to_raw (sn_episodes sn))
          = Inr (sn_episodes sn)
        \<longleftrightarrow> list_all (episode_stable env) (sn_episodes sn)"
    unfolding episode_stable_def by (rule parse_array_stable)
  then show ?thesis
    by (cases sn) (auto simp: season_stable_def seasonSchema_parse_def season_to_raw_def
                        split: sum.splits)
qed

lemma series_stable_seasons:
  assumes "series_stable env d"
  shows "list_all (season_stable env) (sr_seasons d)"
proof -
  from assms have "parse_array (seasonSchema_parse env) (map season_to_raw (sr_seasons d))
          = Inr (sr_seasons d)"
    by (cases d) (auto simp: series_stable_def seriesSchema_parse_def series_to_raw_def
                       split: if_splits sum.splits)
  then show ?thesis
    unfolding season_stable_def by (simp add: parse_array_stable)
qed

lemma series_stable_replace_seasons:
  assumes d: "series_stable env d" and s: "list_all (season_stable env) sns"
  shows "series_stable env (d\<lparr>sr_seasons := sns, sr_updatedAt := t\<rparr>)"
proof -
  from s have p: "parse_array (seasonSchema_parse env) (map season_to_raw sns) = Inr sns"
    unfolding season_stable_def by (simp add: parse_array_stable)
  from d show ?thesis
    using p
    by (cases d) (auto simp: series_stable_def seriesSchema_parse_def series_to_raw_def
                       split: if_splits sum.splits)
qed

lemma subtitles_sanitized_parse:
  "list_all (subtitle_sanitized env) subs \<Longrightarrow>
   parse_array (subtitleSchema_parse env) subs = Inr subs' \<Longrightarrow> subs' = subs"
  by (induction subs arbitrary: subs')
     (auto simp: subtitleSchema_parse_def subtitle_sanitized_def split: sum.splits if_splits)

text \<open>Parsing an object that holds the sanitized payload gives an episode that carries
  the payload and is stable.\<close>

lemma parse_payload_fields:
  assumes san: "payload_sanitized env p"
      and raw: "r_title r = Some (p_title p)" "r_description r = Some (p_description p)"
               "r_season r = Some (p_season p)" "r_episode r = Some (p_episode p)"
               "r_duration r = Some (p_duration p)" "r_streamUrl r = Some (p_streamUrl p)"
               "r_subtitles r = Some (p_subtitles p)" "r_published r = Some (p_published p)"
      and par: "episodeSchema_parse env r = Inr e"
  shows "carries e p \<and> episode_stable env e
       \<and> ep_id e = the (r_id r) \<and> ep_views e = with_default 0 (r_views r)
       \<and> ep_lastUpdated e = the (r_lastUpdated r)"
proof -
  from par obtain subs where
    ok: "required_present r" "is_uuid env (the (r_id r))"
        "1 \<le> length (p_title p)" "length (p_title p) \<le> 160"
        "length (p_description p) \<le> 1024" "1 \<le> p_season p" "1 \<le> p_episode p"
        "0 < p_duration p" "url_allowed env (p_streamUrl p)" "0 \<le> with_default 0 (r_views r)"
    and subs: "parse_array (subtitleSchema_parse env) (p_subtitles p) = Inr subs"
    and e: "e = \<lparr>ep_id = the (r_id r), ep_title = sanitize env (p_title p),
                 ep_description = sanitize env (p_description p),
                 ep_season = p_season p, ep_episode = p_episode p,
                 ep_duration = p_duration p, ep_streamUrl = p_streamUrl p,
                 ep_subtitles = subs, ep_published = p_published p,
                 ep_views = with_default 0 (r_views r),
                 ep_lastUpdated = the (r_lastUpdated r)\<rparr>"
    using raw
    by (auto simp: episodeSchema_parse_def with_default_def split: if_splits sum.splits)
  from san have s1: "sanitize env (p_title p) = p_title p"
    "sanitize env (p_description p) = p_description p"
    "list_all (subtitle_sanitized env) (p_subtitles p)"
    by (simp_all add: payload_sanitized_def)
  from subtitles_sanitized_parse[OF s1(3) subs] have s2: "subs = p_subtitles p" .
  have c: "carries e p" using e s1 s2 by (simp add: carries_def)
  have st: "episode_stable env e"
    using e s1 s2 ok subs
    by (simp add: episode_stable_def episodeSchema_parse_def episode_to_raw_def
          required_present_def with_default_def)
  from c st e show ?thesis by simp
qed

lemma fresh_episode_parse:
  assumes "payload_sanitized env p" "episodeSchema_parse env (fresh_episode_raw p uuid now) = Inr e"
  shows "carries e p \<and> episode_stable env e"
  using parse_payload_fields[OF assms(1) _ _ _ _ _ _ _ _ assms(2)]
  by (simp add: fresh_episode_raw_def payload_to_raw_def)

lemma overwrite_episode_parse:
  assumes "payload_sanitized env p"
          "episodeSchema_parse env (overwrite_episode_raw ex p now) = Inr e"
  shows "carries e p \<and> episode_stable env e \<and> ep_id e = ep_id ex \<and> ep_views e = ep_views ex"
  using parse_payload_fields[OF assms(1) _ _ _ _ _ _ _ _ assms(2)]
  by (simp add: overwrite_episode_raw_def payload_to_raw_def episode_to_raw_def
        spread_episode_def with_default_def)

text \<open>Overwriting a stable episode that carries the payload changes its timestamp only.\<close>

lemma overwrite_carrying_episode:
  assumes c: "carries ex p" and st: "episode_stable env ex"
  shows "episodeSchema_parse env (overwrite_episode_raw ex p now) = Inr (ex\<lparr>ep_lastUpdated := now\<rparr>)"
proof -
  have "overwrite_episode_raw ex p now = (episode_to_raw ex)\<lparr>r_lastUpdated := Some now\<rparr>"
    using c
    by (simp add: overwrite_episode_raw_def payload_to_raw_def episode_to_raw_def
          spread_episode_def with_default_def carries_def)
  moreover have "episodeSchema_parse env ((episode_to_raw ex)\<lparr>r_lastUpdated := Some now\<rparr>)
                  = Inr (ex\<lparr>ep_lastUpdated := now\<rparr>)"
    using st
    by (cases ex) (auto simp: episode_stable_def episodeSchema_parse_def episode_to_raw_def
          required_present_def with_default_def split: if_splits sum.splits)
  ultimately show ?thesis by simp
qed

subsection \<open>One episode merged into an ordered, stable document\<close>

lemma list_all_update:
  "list_all P xs \<Longrightarrow> P y \<Longrightarrow> list_all P (xs[i := y])"
  by (induction xs arbitrary: i) (auto split: nat.splits)

lemma replace_season:
  assumes o: "seasons_ordered sns" and st: "list_all (season_stable env) sns"
      and i: "i < length sns" and n: "sn_season sn' = sn_season (sns ! i)"
      and o': "episodes_ordered sn'" and st': "season_stable env sn'"
  shows "seasons_ordered (sns[i := sn']) \<and> list_all (season_stable env) (sns[i := sn'])
       \<and> sort_cmp (\<lambda>a b. sn_season a - sn_season b) (sns[i := sn']) = sns[i := sn']
       \<and> sn' \<in> set (sns[i := sn'])"
proof -
  have m: "map sn_season (sns[i := sn']) = map sn_season sns"
    using i n by (rule map_key_update)
  from o have s: "sorted_wrt (<) (map sn_season (sns[i := sn']))"
    by (simp add: seasons_ordered_def m)
  have a: "list_all episodes_ordered (sns[i := sn'])"
    using o o' by (simp add: seasons_ordered_def list_all_update)
  have b: "list_all (season_stable env) (sns[i := sn'])"
    using st st' by (rule list_all_update)
  have c: "sort_cmp (\<lambda>a b. sn_season a - sn_season b) (sns[i := sn']) = sns[i := sn']"
    using s by (simp add: sort_cmp_key sort_key_strict_id)
  from s a b c i show ?thesis
    by (simp add: seasons_ordered_def set_update_memI)
qed

lemma append_season:
  assumes o: "seasons_ordered sns" and st: "list_all (season_stable env) sns"
      and n: "findIndex (\<lambda>season. sn_season season = sn_season sn') sns = None"
      and o': "episodes_ordered sn'" and st': "season_stable env sn'"
  shows "seasons_ordered (sort_cmp (\<lambda>a b. sn_season a - sn_season b) (sns @ [sn']))
       \<and> list_all (season_stable env) (sort_cmp (\<lambda>a b. sn_season a - sn_season b) (sns @ [sn']))
       \<and> sn' \<in> set (sort_cmp (\<lambda>a b. sn_season a - sn_season b) (sns @ [sn']))"
proof -
  let ?xs = "sort_key sn_season (sns @ [sn'])"
  have d: "distinct (map sn_season (sns @ [sn']))"
    using o findIndex_key_absent[OF n] by (auto simp: seasons_ordered_def strict_sorted_iff)
  have s: "sorted_wrt (<) (map sn_season ?xs)" using d by (rule strict_sort_key)
  have a: "list_all episodes_ordered ?xs"
    using o o' by (simp add: seasons_ordered_def list_all_iff)
  have b: "list_all (season_stable env) ?xs"
    using st st' by (simp add: list_all_iff)
  from s a b show ?thesis by (simp add: sort_cmp_key seasons_ordered_def)
qed

lemma append_episode:
  assumes o: "episodes_ordered sn" and st: "season_stable env sn"
      and n: "findIndex (\<lambda>ep. ep_episode ep = ep_episode e) (sn_episodes sn) = None"
      and st': "episode_stable env e"
  shows "episodes_ordered (sn\<lparr>sn_episodes :=
             sort_cmp (\<lambda>a b. ep_episode a - ep_episode b) (sn_episodes sn @ [e])\<rparr>)
       \<and> season_stable env (sn\<lparr>sn_episodes :=
             sort_cmp (\<lambda>a b. ep_episode a - ep_episode b) (sn_episodes sn @ [e])\<rparr>)
       \<and> e \<in> set (sort_cmp (\<lambda>a b. ep_episode a - ep_episode b) (sn_episodes sn @ [e]))"
proof -
  have d: "distinct (map ep_episode (sn_episodes sn @ [e]))"
    using o findIndex_key_absent[OF n] by (auto simp: episodes_ordered_def strict_sorted_iff)
  have s: "sorted_wrt (<) (map ep_episode (sort_key ep_episode (sn_episodes sn @ [e])))"
    using d by (rule strict_sort_key)
  have b: "list_all (episode_stable env) (sort_key ep_episode (sn_episodes sn @ [e]))"
    using st st' by (simp add: season_stable_iff list_all_iff)
  from s b st show ?thesis
    by (simp add: sort_cmp_key episodes_ordered_def season_stable_iff)
qed

lemma replace_episode:
  assumes o: "episodes_ordered sn" and st: "season_stable env sn"
      and j: "j < length (sn_episodes sn)" and n: "ep_episode e = ep_episode (sn_episodes sn ! j)"
      and st': "episode_stable env e"
  shows "sort_cmp (\<lambda>a b. ep_episode a - ep_episode b) ((sn_episodes sn)[j := e])
           = (sn_episodes sn)[j := e]
       \<and> episodes_ordered (sn\<lparr>sn_episodes := (sn_episodes sn)[j := e]\<rparr>)
       \<and> season_stable env (sn\<lparr>sn_episodes := (sn_episodes sn)[j := e]\<rparr>)
       \<and> e \<in> set ((sn_episodes sn)[j := e])"
proof -
  have m: "map ep_episode ((sn_episodes sn)[j := e]) = map ep_episode (sn_episodes sn)"
    using j n by (rule map_key_update)
  from o have s: "sorted_wrt (<) (map ep_episode ((sn_episodes sn)[j := e]))"
    by (simp add: episodes_ordered_def m)
  have b: "list_all (episode_stable env) ((sn_episodes sn)[j := e])"
    using st st' by (simp add: season_stable_iff list_all_update)
  from s b st j show ?thesis
    by (simp add: sort_cmp_key sort_key_strict_id episodes_ordered_def season_stable_iff
          set_update_memI)
qed

lemma mergeEpisode_document_first:
  assumes o: "seasons_ordered (sr_seasons d)" and st: "series_stable env d"
      and san: "payload_sanitized env p"
      and run: "mergeEpisode_document env now uuid p d = Inr s"
  shows "seasons_ordered (sr_seasons s) \<and> series_stable env s \<and> sr_slug s = sr_slug d
       \<and> (\<exists>sn \<in> set (sr_seasons s). sn_season sn = p_season p
            \<and> (\<exists>e \<in> set (sn_episodes sn). carries e p \<and> episode_stable env e))"
proof -
  let ?cmp = "\<lambda>a b. sn_season a - sn_season b"
  note sts = series_stable_seasons[OF st]
  have fin: "\<And>sns. seasons_ordered sns \<Longrightarrow> list_all (season_stable env) sns \<Longrightarrow>
      (\<exists>sn \<in> set sns. sn_season sn = p_season p
            \<and> (\<exists>e \<in> set (sn_episodes sn). carries e p \<and> episode_stable env e)) \<Longrightarrow>
      s = d\<lparr>sr_seasons := sns, sr_updatedAt := now\<rparr> \<Longrightarrow> ?thesis"
    using series_stable_replace_seasons[OF st] by simp
  show ?thesis
  proof (cases "findIndex (\<lambda>season. sn_season season = p_season p) (sr_seasons d)")
    case None
    from run None obtain ep sn where
      ep: "episodeSchema_parse env (fresh_episode_raw p uuid now) = Inr ep"
      and sn: "seasonSchema_parse env \<lparr>sn_season = p_season p, sn_episodes = [episode_to_raw ep]\<rparr>
                = Inr sn"
      and s: "s = d\<lparr>sr_seasons := sort_cmp ?cmp (sr_seasons d @ [sn]), sr_updatedAt := now\<rparr>"
      by (auto simp: mergeEpisode_document_def Let_def split: sum.splits)
    from fresh_episode_parse[OF san ep] have c: "carries ep p" "episode_stable env ep"
      by simp_all
    from sn c(2) have sn_eq: "sn = \<lparr>sn_season = p_season p, sn_episodes = [ep]\<rparr>"
      and p1: "1 \<le> p_season p"
      by (auto simp: seasonSchema_parse_def episode_stable_def split: if_splits sum.splits)
    have sn_st: "season_stable env sn" using sn_eq p1 c(2) by (simp add: season_stable_iff)
    have sn_o: "episodes_ordered sn" using sn_eq by (simp add: episodes_ordered_def)
    have n: "findIndex (\<lambda>season. sn_season season = sn_season sn) (sr_seasons d) = None"
      using None sn_eq by simp
    note as = append_season[OF o sts n sn_o sn_st]
    have ex: "\<exists>sn \<in> set (sort_cmp ?cmp (sr_seasons d @ [sn])). sn_season sn = p_season p
            \<and> (\<exists>e \<in> set (sn_episodes sn). carries e p \<and> episode_stable env e)"
      using as sn_eq c by (intro bexI[of _ sn]) auto
    from as ex s show ?thesis
      by (intro fin[of "sort_cmp ?cmp (sr_seasons d @ [sn])"]) simp_all
  next
    case (Some i)
    let ?season = "sr_seasons d ! i"
    from findIndex_Some[OF Some] have i: "i < length (sr_seasons d)"
      and ni: "sn_season ?season = p_season p" by simp_all
    have so: "episodes_ordered ?season"
      using o i by (simp add: seasons_ordered_def list_all_length)
    have sst: "season_stable env ?season"
      using sts i by (simp add: list_all_length)
    show ?thesis
    proof (cases "findIndex (\<lambda>ep. ep_episode ep = p_episode p) (sn_episodes ?season)")
      case None
      let ?eps = "\<lambda>ep. sort_cmp (\<lambda>a b. ep_episode a - ep_episode b) (sn_episodes ?season @ [ep])"
      from run Some None obtain ep where
        ep: "episodeSchema_parse env (fresh_episode_raw p uuid now) = Inr ep"
        and s: "s = d\<lparr>sr_seasons := sort_cmp ?cmp
                       ((sr_seasons d)[i := ?season\<lparr>sn_episodes := ?eps ep\<rparr>]),
                     sr_updatedAt := now\<rparr>"
        by (auto simp: mergeEpisode_document_def Let_def split: sum.splits)
      from fresh_episode_parse[OF san ep] have c: "carries ep p" "episode_stable env ep"
        by simp_all
      have n: "findIndex (\<lambda>e. ep_episode e = ep_episode ep) (sn_episodes ?season) = None"
        using None c(1) by (simp add: carries_def)
      note ae = append_episode[OF so sst n c(2)]
      let ?sn' = "?season\<lparr>sn_episodes := ?eps ep\<rparr>"
      have rs: "seasons_ordered ((sr_seasons d)[i := ?sn'])
          \<and> list_all (season_stable env) ((sr_seasons d)[i := ?sn'])
          \<and> sort_cmp ?cmp ((sr_seasons d)[i := ?sn']) = (sr_seasons d)[i := ?sn']
          \<and> ?sn' \<in> set ((sr_seasons d)[i := ?sn'])"
        using ae by (intro replace_season[OF o sts i]) simp_all
      have ex: "\<exists>sn \<in> set ((sr_seasons d)[i := ?sn']). sn_season sn = p_season p
            \<and> (\<exists>e \<in> set (sn_episodes sn). carries e p \<and> episode_stable env e)"
        using rs ae c ni by (intro bexI[of _ ?sn']) auto
      from rs ex s show ?thesis by (intro fin[of "(sr_seasons d)[i := ?sn']"]) simp_all
    next
      case (Some j)
      let ?old = "sn_episodes ?season ! j"
      from findIndex_Some[OF Some] have j: "j < length (sn_episodes ?season)"
        and nj: "ep_episode ?old = p_episode p" by simp_all
      from run \<open>findIndex (\<lambda>season. sn_season season = p_season p) (sr_seasons d) = Some i\<close> Some
      obtain ep where
        ep: "episodeSchema_parse env (overwrite_episode_raw ?old p now) = Inr ep"
        and s: "s = d\<lparr>sr_seasons := sort_cmp ?cmp
                       ((sr_seasons d)[i := ?season\<lparr>sn_episodes :=
                           sort_cmp (\<lambda>a b. ep_episode a - ep_episode b)
                             ((sn_episodes ?season)[j := ep])\<rparr>]),
                     sr_updatedAt := now\<rparr>"
        by (auto simp: mergeEpisode_document_def Let_def split: sum.splits)
      from overwrite_episode_parse[OF san ep] have c: "carries ep p" "episode_stable env ep"
        by simp_all
      have n: "ep_episode ep = ep_episode ?old" using c(1) nj by (simp add: carries_def)
      note re = replace_episode[OF so sst j n c(2)]
      let ?sn' = "?season\<lparr>sn_episodes := (sn_episodes ?season)[j := ep]\<rparr>"
      have rs: "seasons_ordered ((sr_seasons d)[i := ?sn'])
          \<and> list_all (season_stable env) ((sr_seasons d)[i := ?sn'])
          \<and> sort_cmp ?cmp ((sr_seasons d)[i := ?sn']) = (sr_seasons d)[i := ?sn']
          \<and> ?sn' \<in> set ((sr_seasons d)[i := ?sn'])"
        using re by (intro replace_season[OF o sts i]) simp_all
      have ex: "\<exists>sn \<in> set ((sr_seasons d)[i := ?sn']). sn_season sn = p_season p
            \<and> (\<exists>e \<in> set (sn_episodes sn). carries e p \<and> episode_stable env e)"
        using rs re c ni by (intro bexI[of _ ?sn']) auto
      from rs ex s re show ?thesis by (intro fin[of "(sr_seasons d)[i := ?sn']"]) simp_all
    qed
  qed
qed

lemma episode_stable_restamp:
  "episode_stable env e \<Longrightarrow> episode_stable env (e\<lparr>ep_lastUpdated := t\<rparr>)"
  by (cases e) (auto simp: episode_stable_def episodeSchema_parse_def episode_to_raw_def
                  required_present_def with_default_def split: if_splits sum.splits)

lemma mergeEpisode_document_again:
  assumes o: "seasons_ordered (sr_seasons s)" and st: "series_stable env s"
      and ex: "\<exists>sn \<in> set (sr_seasons s). sn_season sn = p_season p
            \<and> (\<exists>e \<in> set (sn_episodes sn). carries e p \<and> episode_stable env e)"
  shows "\<exists>s'. mergeEpisode_document env now uuid p s = Inr s'
           \<and> without_timestamps s' = without_timestamps s
           \<and> seasons_ordered (sr_seasons s')
           \<and> outline (sr_seasons s') = outline (sr_seasons s)
           \<and> sr_slug s' = sr_slug s \<and> sr_updatedAt s' = now \<and> series_stable env s'"
proof -
  let ?cmp = "\<lambda>a b. sn_season a - sn_season b"
  note sts = series_stable_seasons[OF st]
  from ex obtain sn e where sn: "sn \<in> set (sr_seasons s)" "sn_season sn = p_season p"
    and e: "e \<in> set (sn_episodes sn)" "carries e p" "episode_stable env e"
    by blast
  from o have os: "sorted_wrt (<) (map sn_season (sr_seasons s))"
    by (simp add: seasons_ordered_def)
  from findIndex_unique[OF os sn(1)] sn(2) obtain i where
    i: "findIndex (\<lambda>season. sn_season season = p_season p) (sr_seasons s) = Some i"
       "i < length (sr_seasons s)" "sr_seasons s ! i = sn"
    by auto
  have so: "episodes_ordered sn" using o sn(1) by (simp add: seasons_ordered_def list_all_iff)
  have sst: "season_stable env sn" using sts sn(1) by (simp add: list_all_iff)
  have pe: "ep_episode e = p_episode p" using e(2) by (simp add: carries_def)
  from so have oe: "sorted_wrt (<) (map ep_episode (sn_episodes sn))"
    by (simp add: episodes_ordered_def)
  from findIndex_unique[OF oe e(1)] pe obtain j where
    j: "findIndex (\<lambda>ep. ep_episode ep = p_episode p) (sn_episodes sn) = Some j"
       "j < length (sn_episodes sn)" "sn_episodes sn ! j = e"
    by auto
  let ?e' = "e\<lparr>ep_lastUpdated := now\<rparr>"
  let ?sn' = "sn\<lparr>sn_episodes := (sn_episodes sn)[j := ?e']\<rparr>"
  let ?s' = "s\<lparr>sr_seasons := (sr_seasons s)[i := ?sn'], sr_updatedAt := now\<rparr>"
  have par: "episodeSchema_parse env (overwrite_episode_raw e p now) = Inr ?e'"
    using e(2,3) by (rule overwrite_carrying_episode)
  have ne: "ep_episode ?e' = ep_episode (sn_episodes sn ! j)" using j(3) by simp
  note re = replace_episode[OF so sst j(2) ne episode_stable_restamp[OF e(3)]]
  have rs: "seasons_ordered ((sr_seasons s)[i := ?sn'])
          \<and> list_all (season_stable env) ((sr_seasons s)[i := ?sn'])
          \<and> sort_cmp ?cmp ((sr_seasons s)[i := ?sn']) = (sr_seasons s)[i := ?sn']
          \<and> ?sn' \<in> set ((sr_seasons s)[i := ?sn'])"
    using re i(3) by (intro replace_season[OF o sts i(2)]) simp_all
  have run: "mergeEpisode_document env now uuid p s = Inr ?s'"
    using i j par re rs by (simp add: mergeEpisode_document_def Let_def)
  have g: "map (\<lambda>e. e\<lparr>ep_lastUpdated := []\<rparr>) ((sn_episodes sn)[j := ?e'])
            = map (\<lambda>e. e\<lparr>ep_lastUpdated := []\<rparr>) (sn_episodes sn)"
    using j by (intro map_key_update) simp_all
  have wt: "without_timestamps ?s' = without_timestamps s"
    using i g
    by (simp add: without_timestamps_def map_update list_eq_iff_nth_eq nth_list_update)
  have h: "map ep_episode ((sn_episodes sn)[j := ?e']) = map ep_episode (sn_episodes sn)"
    using j by (intro map_key_update) simp_all
  have ol: "outline (sr_seasons ?s') = outline (sr_seasons s)"
    using i h by (simp add: outline_def map_update list_eq_iff_nth_eq nth_list_update)
  have stable: "series_stable env ?s'"
    using series_stable_replace_seasons[OF st, of "(sr_seasons s)[i := ?sn']" now] rs by simp
  from run wt ol rs stable show ?thesis by (intro exI[of _ ?s']) simp
qed

subsection \<open>Merging the same episode twice\<close>

text \<open>
  When the payload is sanitized the second merge changes timestamps only. Let the file
  of the series hold a document that is stored under its own slug, reads back unchanged
  and has strictly ascending season and episode numbers, and let sanitizing change none
  of the text fields of the payload. If \<^verbatim>\<open>mergeEpisode\<close> succeeds, then \<^verbatim>\<open>mergeEpisode\<close> with
  the same payload on the store it left succeeds too (at any later time, with any fresh
  UUID), saves its result under the same slug, and returns a document that differs
  from the first result in \<^verbatim>\<open>updatedAt\<close> and \<^verbatim>\<open>lastUpdated\<close> values only.
\<close>

lemma mergeEpisode_sanitized_twice:
  assumes stored: "series_files fs slug = Some d"
      and key: "sr_slug d = slug"
      and stable: "series_stable env d"
      and ordered: "seasons_ordered (sr_seasons d)"
      and san: "payload_sanitized env p"
      and first: "mergeEpisode env t1 u1 slug p fs = (Inr s1, fs1)"
  shows "\<exists>s2. mergeEpisode env t2 u2 slug p fs1
               = (Inr s2, fs1\<lparr>series_files := (series_files fs1)(slug \<mapsto> s2)\<rparr>)
            \<and> without_timestamps s2 = without_timestamps s1
            \<and> outline (sr_seasons s2) = outline (sr_seasons s1)
            \<and> seasons_ordered (sr_seasons s1) \<and> seasons_ordered (sr_seasons s2)
            \<and> sr_updatedAt s2 = t2"
proof -
  have rd: "readSeriesFile env fs slug = Inr (Some d)"
    using stored stable by (simp add: readSeriesFile_def series_stable_def)
  from first rd have m1: "mergeEpisode_document env t1 u1 p d = Inr s1"
    and f1: "fs1 = saveSeries s1 fs"
    by (auto simp: mergeEpisode_def split: sum.splits)
  note a = mergeEpisode_document_first[OF ordered stable san m1]
  from a key f1 have st1: "series_files fs1 slug = Some s1"
    by (simp add: saveSeries_def)
  from a have rd1: "readSeriesFile env fs1 slug = Inr (Some s1)"
    using st1 by (simp add: readSeriesFile_def series_stable_def)
  from a have o1: "seasons_ordered (sr_seasons s1)" and stb1: "series_stable env s1"
    and ex1: "\<exists>sn \<in> set (sr_seasons s1). sn_season sn = p_season p
            \<and> (\<exists>e \<in> set (sn_episodes sn). carries e p \<and> episode_stable env e)"
    by simp_all
  from mergeEpisode_document_again[OF o1 stb1 ex1, of t2 u2] obtain s2 where
    m2: "mergeEpisode_document env t2 u2 p s1 = Inr s2"
    and b: "without_timestamps s2 = without_timestamps s1" "seasons_ordered (sr_seasons s2)"
       "outline (sr_seasons s2) = outline (sr_seasons s1)" "sr_slug s2 = sr_slug s1"
       "sr_updatedAt s2 = t2"
    by blast
  have sl: "sr_slug s2 = slug" using b(4) a key by simp
  have run: "mergeEpisode env t2 u2 slug p fs1
               = (Inr s2, fs1\<lparr>series_files := (series_files fs1)(slug \<mapsto> s2)\<rparr>)"
    using rd1 m2 sl by (simp add: mergeEpisode_def saveSeries_def)
  from run b o1 show ?thesis by blast
qed

lemma mergeEpisode_sanitized_twice_demo:
  "series_files demo_fs ''echoes-of-atlas'' = Some demo_series
   \<and> sr_slug demo_series = ''echoes-of-atlas''
   \<and> series_stable demo_env demo_series
   \<and> seasons_ordered (sr_seasons demo_series)
   \<and> payload_sanitized demo_env new_season_episode
   \<and> \<not> isl (fst (mergeEpisode demo_env ''2024-02-01T00:00:00.000Z''
         ''dddddddd-0000-4000-8000-000000000001'' ''echoes-of-atlas'' new_season_episode demo_fs))
   \<and> outline (sr_seasons (projr (fst (mergeEpisode demo_env ''2024-02-01T00:00:00.000Z''
         ''dddddddd-0000-4000-8000-000000000001'' ''echoes-of-atlas'' new_season_episode demo_fs))))
       = [(1, [1, 2]), (2, [1])]
   \<and> \<not> isl (fst (mergeEpisode demo_env ''2024-03-01T00:00:00.000Z''
         ''dddddddd-0000-4000-8000-000000000002'' ''echoes-of-atlas'' new_season_episode
         (snd (mergeEpisode demo_env ''2024-02-01T00:00:00.000Z''
           ''dddddddd-0000-4000-8000-000000000001'' ''echoes-of-atlas'' new_season_episode
           demo_fs))))
   \<and> outline (sr_seasons (projr (fst (mergeEpisode demo_env ''2024-03-01T00:00:00.000Z''
         ''dddddddd-0000-4000-8000-000000000002'' ''echoes-of-atlas'' new_season_episode
         (snd (mergeEpisode demo_env ''2024-02-01T00:00:00.000Z''
           ''dddddddd-0000-4000-8000-000000000001'' ''echoes-of-atlas'' new_season_episode
           demo_fs))))))
       = [(1, [1, 2]), (2, [1])]
   \<and> without_timestamps (projr (fst (mergeEpisode demo_env ''2024-03-01T00:00:00.000Z''
         ''dddddddd-0000-4000-8000-000000000002'' ''echoes-of-atlas'' new_season_episode
         (snd (mergeEpisode demo_env ''2024-02-01T00:00:00.000Z''
           ''dddddddd-0000-4000-8000-000000000001'' ''echoes-of-atlas'' new_season_episode
           demo_fs)))))
       = without_timestamps (projr (fst (mergeEpisode demo_env ''2024-02-01T00:00:00.000Z''
         ''dddddddd-0000-4000-8000-000000000001'' ''echoes-of-atlas'' new_season_episode demo_fs)))"
proof -
  let ?R1 = "mergeEpisode demo_env ''2024-02-01T00:00:00.000Z''
         ''dddddddd-0000-4000-8000-000000000001'' ''echoes-of-atlas'' new_season_episode demo_fs"
  let ?R2 = "mergeEpisode demo_env ''2024-03-01T00:00:00.000Z''
         ''dddddddd-0000-4000-8000-000000000002'' ''echoes-of-atlas'' new_season_episode (snd ?R1)"
  have h1: "series_files demo_fs ''echoes-of-atlas'' = Some demo_series"
    by (simp add: demo_fs_def)
  have h2: "sr_slug demo_series = ''echoes-of-atlas''" by (simp add: demo_series_def)
  have h3: "series_stable demo_env demo_series" by code_simp
  have h4: "seasons_ordered (sr_seasons demo_series)" by code_simp
  have h5: "payload_sanitized demo_env new_season_episode" by code_simp
  have h6: "\<not> isl (fst ?R1)" by code_simp
  have h7: "outline (sr_seasons (projr (fst ?R1))) = [(1, [1, 2]), (2, [1])]" by code_simp
  from mergeEpisode_sanitized_twice[OF h1 h2 h3 h4 h5 result_pair[OF h6],
         of "''2024-03-01T00:00:00.000Z''" "''dddddddd-0000-4000-8000-000000000002''"]
  obtain s2 where r2: "fst ?R2 = Inr s2"
    and w: "without_timestamps s2 = without_timestamps (projr (fst ?R1))"
    and ol: "outline (sr_seasons s2) = outline (sr_seasons (projr (fst ?R1)))"
    by auto
  from r2 w ol h7 have "\<not> isl (fst ?R2)
     \<and> outline (sr_seasons (projr (fst ?R2))) = [(1, [1, 2]), (2, [1])]
     \<and> without_timestamps (projr (fst ?R2)) = without_timestamps (projr (fst ?R1))"
    by simp
  with h1 h2 h3 h4 h5 h6 h7 show ?thesis by blast
qed


subsection \<open>What the merge and the movie operations do maintain\<close>

lemma set_insort_cmp: "set (insort_cmp c x xs) = insert x (set xs)"
  by (induction xs) auto

lemma set_sort_cmp: "set (sort_cmp c xs) = set xs"
  by (induction xs) (simp_all add: sort_cmp_def set_insort_cmp)

lemma distinct_map_insort_cmp:
  "distinct (map f (insort_cmp c x xs)) = (f x \<notin> f ` set xs \<and> distinct (map f xs))"
  by (induction xs) (auto simp: set_insort_cmp)

lemma distinct_map_sort_cmp: "distinct (map f (sort_cmp c xs)) = distinct (map f xs)"
  by (induction xs) (simp_all add: sort_cmp_def distinct_map_insort_cmp set_sort_cmp[unfolded sort_cmp_def])

text \<open>\<^verbatim>\<open>createMovie\<close> and \<^verbatim>\<open>deleteMovie\<close> keep the slugs of the loaded list pairwise distinct.\<close>

lemma createMovie_keeps_slugs_distinct:
  assumes l: "listMovies env fs = (Inr movies, fs1)" and d: "distinct (map mv_slug movies)"
      and c: "createMovie env now uuid payload fs = (Inr movie, fs')"
  shows "\<exists>saved. movies_file fs' = Some saved \<and> distinct (map mv_slug saved)
           \<and> set saved = insert movie (set movies)"
proof -
  let ?saved = "sort_cmp (\<lambda>a b. localeCompare env (mv_title a) (mv_title b)) (movies @ [movie])"
  from c l have n: "\<not> list_ex (\<lambda>existing. mv_slug existing = mv_slug movie) movies"
    and s: "fs' = saveMovies ?saved fs1"
    by (auto simp: createMovie_def split: sum.splits if_splits)
  from n d have "distinct (map mv_slug (movies @ [movie]))"
    by (auto simp: list_ex_iff)
  then have "distinct (map mv_slug ?saved)" by (simp add: distinct_map_sort_cmp)
  with s show ?thesis by (simp add: saveMovies_def set_sort_cmp)
qed

lemma deleteMovie_keeps_slugs_distinct:
  assumes l: "listMovies env fs = (Inr movies, fs1)" and d: "distinct (map mv_slug movies)"
  shows "\<exists>saved. deleteMovie env ident fs = (Inr (), fs1\<lparr>movies_file := Some saved\<rparr>)
           \<and> distinct (map mv_slug saved)"
proof -
  have "fs1 = ensure_movies_file fs" using l by (auto simp: listMovies_def Let_def)
  then have e: "ensure_movies_file fs1 = fs1"
    by (simp add: ensure_movies_file_def split: option.splits)
  have "distinct (map mv_slug (filter (\<lambda>movie. mv_id movie \<noteq> ident) movies))"
    using d by (rule distinct_map_filter)
  with l e show ?thesis
    by (intro exI[of _ "filter (\<lambda>movie. mv_id movie \<noteq> ident) movies"])
       (simp add: deleteMovie_def saveMovies_def)
qed

text \<open>\<^verbatim>\<open>mergeSeasons\<close> always returns strictly ascending season numbers: the keys of the
  season map are distinct and each season is stored under its own number.\<close>

lemma update_keyed:
  "distinct (map fst m) \<Longrightarrow> list_all (\<lambda>kv. sn_season (snd kv) = fst kv) m \<Longrightarrow>
   sn_season v = k \<Longrightarrow>
   distinct (map fst (AList.update k v m))
   \<and> list_all (\<lambda>kv. sn_season (snd kv) = fst kv) (AList.update k v m)"
proof (induction m)
  case Nil
  then show ?case by simp
next
  case (Cons kv m)
  then show ?case by (cases kv) (force simp: AList.dom_update)
qed

lemma fold_update_keyed:
  "distinct (map fst m) \<Longrightarrow> list_all (\<lambda>kv. sn_season (snd kv) = fst kv) m \<Longrightarrow>
   distinct (map fst (fold (\<lambda>season m. AList.update (sn_season season) season m) sns m))
   \<and> list_all (\<lambda>kv. sn_season (snd kv) = fst kv)
        (fold (\<lambda>season m. AList.update (sn_season season) season m) sns m)"
  by (induction sns arbitrary: m) (simp_all add: update_keyed)

lemma merge_incoming_seasons_keyed:
  "distinct (map fst m) \<Longrightarrow> list_all (\<lambda>kv. sn_season (snd kv) = fst kv) m \<Longrightarrow>
   merge_incoming_seasons env now m incoming = Inr m' \<Longrightarrow>
   distinct (map fst m') \<and> list_all (\<lambda>kv. sn_season (snd kv) = fst kv) m'"
proof (induction incoming arbitrary: m)
  case Nil
  then show ?case by simp
next
  case (Cons inc rest)
  from Cons.prems(3) obtain sanitized where
    p: "seasonSchema_parse env inc = Inr sanitized"
    by (auto split: sum.splits)
  show ?case
  proof (cases "map_of m (sn_season sanitized)")
    case None
    with Cons.prems(3) p have
      "merge_incoming_seasons env now (AList.update (sn_season sanitized) sanitized m) rest = Inr m'"
      by simp
    with update_keyed[OF Cons.prems(1,2), of sanitized "sn_season sanitized"]
    show ?thesis by (intro Cons.IH) simp_all
  next
    case (Some current)
    with Cons.prems(3) p obtain episodeMap :: "(int \<times> episode) list" where
      r: "merge_incoming_seasons env now
            (AList.update (sn_season current)
               (current\<lparr>sn_episodes := sort_cmp (\<lambda>a b. ep_episode a - ep_episode b)
                                          (map snd episodeMap)\<rparr>) m) rest = Inr m'"
      by (auto split: sum.splits)
    with update_keyed[OF Cons.prems(1,2),
           of "current\<lparr>sn_episodes := sort_cmp (\<lambda>a b. ep_episode a - ep_episode b)
                                          (map snd episodeMap)\<rparr>" "sn_season current"]
    show ?thesis by (intro Cons.IH) simp_all
  qed
qed

lemma mergeSeasons_season_numbers_ascending:
  assumes "mergeSeasons env now existing incoming = Inr merged"
  shows "sorted_wrt (<) (map sn_season merged)"
proof -
  from assms obtain m where
    m: "merge_incoming_seasons env now
          (fold (\<lambda>season m. AList.update (sn_season season) season m) existing []) incoming
        = Inr m"
    and r: "merged = sort_cmp (\<lambda>a b. sn_season a - sn_season b) (map snd m)"
    by (auto simp: mergeSeasons_def split: sum.splits)
  from fold_update_keyed[of "[]" existing]
  have k0: "distinct (map fst (fold (\<lambda>season m. AList.update (sn_season season) season m) existing []))"
    "list_all (\<lambda>kv. sn_season (snd kv) = fst kv)
        (fold (\<lambda>season m. AList.update (sn_season season) season m) existing [])"
    by simp_all
  from merge_incoming_seasons_keyed[OF k0 m]
  have k: "distinct (map fst m)" "list_all (\<lambda>kv. sn_season (snd kv) = fst kv) m" by simp_all
  from k(2) have eq: "map (sn_season \<circ> snd) m = map fst m"
    by (induction m) auto
  have "distinct (map (sn_season \<circ> snd) m)" unfolding eq by (rule k(1))
  then have "distinct (map sn_season (map snd m))" by simp
  then show ?thesis unfolding r by (simp add: sort_cmp_key strict_sort_key)
qed

text \<open>
  A payload that omits only keys with a default passes validation in \<^verbatim>\<open>mergeSeasons\<close>;
  the defaults then stand in the merged episode: the stored episode had 5 views and
  was published, the merged one has 0 views and is unpublished.
\<close>

lemma mergeSeasons_defaults_replace_stored:
  "map (\<lambda>sn. map (\<lambda>e. (ep_published e, ep_views e)) (sn_episodes sn))
     [\<lparr>sn_season = 1, sn_episodes =
        [demo_episode ''aaaaaaaa-0000-4000-8000-000000000001'' ''Pilot'' 1 1]\<rparr>]
     = [[(True, 5)]]
   \<and> map_sum id (map (\<lambda>sn. map (\<lambda>e. (ep_published e, ep_views e)) (sn_episodes sn)))
       (mergeSeasons demo_env ''2024-02-01T00:00:00.000Z''
          [\<lparr>sn_season = 1, sn_episodes =
             [demo_episode ''aaaaaaaa-0000-4000-8000-000000000001'' ''Pilot'' 1 1]\<rparr>]
          [\<lparr>sn_season = 1, sn_episodes =
             [(episode_to_raw (demo_episode ''aaaaaaaa-0000-4000-8000-000000000001'' ''Pilot'' 1 1))
                \<lparr>r_subtitles := None, r_published := None, r_views := None\<rparr>]\<rparr>])
     = Inr [[(False, 0)]]"
  by code_simp

subsection \<open>The series merge, episode by episode\<close>

lemma find_distinct_key:
  "distinct (map f xs) \<Longrightarrow> x \<in> set xs \<Longrightarrow> find (\<lambda>y. f y = f x) xs = Some x"
  by (induction xs) (auto simp: rev_image_eqI)

lemma find_values:
  assumes d: "distinct (map fst m)"
    and kd: "\<forall>k v. map_of m k = Some v \<longrightarrow> f v = k"
    and s: "set ys = snd ` set m"
    and dy: "distinct (map f ys)"
  shows "find (\<lambda>y. f y = k) ys = map_of m k"
proof (cases "map_of m k")
  case None
  have "f y \<noteq> k" if y: "y \<in> set ys" for y
  proof
    assume fk: "f y = k"
    from y s obtain k' where "(k', y) \<in> set m" by force
    with d have m: "map_of m k' = Some y" by simp
    with kd have "f y = k'" by blast
    with fk m None show False by simp
  qed
  then have "find (\<lambda>y. f y = k) ys = None" by (simp add: find_None_iff)
  with None show ?thesis by simp
next
  case (Some v)
  then have "(k, v) \<in> set m" by (rule map_of_SomeD)
  with s have "v \<in> set ys" by force
  moreover from kd Some have "f v = k" by blast
  ultimately show ?thesis using find_distinct_key[OF dy, of v] Some by simp
qed

lemma values_distinct:
  assumes d: "distinct (map fst m)"
    and kd: "\<forall>k v. map_of m k = Some v \<longrightarrow> f v = k"
  shows "distinct (map f (map snd m))"
proof -
  have "f (snd kv) = fst kv" if kv: "kv \<in> set m" for kv
  proof -
    from kv d have "map_of m (fst kv) = Some (snd kv)" by simp
    with kd show ?thesis by blast
  qed
  then have "map (\<lambda>kv. f (snd kv)) m = map fst m" by (intro map_cong) simp_all
  then have "map f (map snd m) = map fst m" by (simp add: comp_def)
  with d show ?thesis by (simp only:)
qed

lemma map_of_fold_update:
  "distinct (map f xs) \<Longrightarrow>
   map_of (fold (\<lambda>x m. AList.update (f x) x m) xs m) k
     = (case find (\<lambda>x. f x = k) xs of None \<Rightarrow> map_of m k | Some x \<Rightarrow> Some x)"
proof (induction xs arbitrary: m)
  case Nil
  then show ?case by simp
next
  case (Cons a xs)
  have "f x \<noteq> f a" if "x \<in> set xs" for x
    using that Cons.prems by (metis distinct.simps(2) imageI list.simps(9) set_map)
  then have "find (\<lambda>x. f x = f a) xs = None"
    by (simp add: find_None_iff)
  with Cons show ?case by (auto simp: AList.update_conv' split: option.splits)
qed

lemma distinct_fold_update:
  "distinct (map fst m) \<Longrightarrow> distinct (map fst (fold (\<lambda>x m. AList.update (f x) x m) xs m))"
  by (induction xs arbitrary: m) (simp_all add: AList.distinct_update)

lemma parse_episode_number:
  "episodeSchema_parse env r = Inr p \<Longrightarrow> r_episode r = Some (ep_episode p)"
  by (auto simp: episodeSchema_parse_def required_present_def split: if_splits sum.splits)

lemma parse_validated_number:
  "episodeSchema_parse env (episode_to_raw e) = Inr p \<Longrightarrow> ep_episode p = ep_episode e"
  using parse_episode_number[of env "episode_to_raw e" p] by (simp add: episode_to_raw_def)

text \<open>One turn of the loop over the incoming episodes of a season.\<close>

lemma merge_incoming_episodes_Cons:
  assumes "merge_incoming_episodes env now em (e # ps) = Inr em'"
  shows "\<exists>p. episodeSchema_parse env (episode_to_raw e) = Inr p \<and> ep_episode p = ep_episode e
           \<and> merge_incoming_episodes env now
                (AList.update (ep_episode e)
                   (case map_of em (ep_episode e) of
                      None \<Rightarrow> p | Some x \<Rightarrow> p\<lparr>ep_lastUpdated := now\<rparr>) em) ps = Inr em'"
proof -
  from assms obtain p where p: "episodeSchema_parse env (episode_to_raw e) = Inr p"
    by (auto split: sum.splits)
  note n = parse_validated_number[OF p]
  from assms p n show ?thesis by (auto split: option.splits)
qed

lemma merge_incoming_episodes_keyed:
  "merge_incoming_episodes env now em ps = Inr em' \<Longrightarrow> distinct (map fst em) \<Longrightarrow>
   \<forall>k v. map_of em k = Some v \<longrightarrow> ep_episode v = k \<Longrightarrow>
   distinct (map fst em') \<and> (\<forall>k v. map_of em' k = Some v \<longrightarrow> ep_episode v = k)"
proof (induction ps arbitrary: em)
  case Nil
  then show ?case by simp
next
  case (Cons e ps)
  from merge_incoming_episodes_Cons[OF Cons.prems(1)] obtain p v where
    p: "ep_episode p = ep_episode e"
    and v: "v = (case map_of em (ep_episode e) of None \<Rightarrow> p | Some x \<Rightarrow> p\<lparr>ep_lastUpdated := now\<rparr>)"
    and run: "merge_incoming_episodes env now (AList.update (ep_episode e) v em) ps = Inr em'"
    by blast
  have "ep_episode v = ep_episode e" using p v by (simp split: option.splits)
  then have "\<forall>k w. map_of (AList.update (ep_episode e) v em) k = Some w \<longrightarrow> ep_episode w = k"
    using Cons.prems(3) by (auto simp: AList.update_conv')
  with Cons.IH[OF run AList.distinct_update[OF Cons.prems(2)]] show ?case by blast
qed

text \<open>A number that no incoming episode has keeps its entry.\<close>

lemma merge_incoming_episodes_other:
  "merge_incoming_episodes env now em ps = Inr em' \<Longrightarrow> \<forall>e \<in> set ps. ep_episode e \<noteq> k \<Longrightarrow>
   map_of em' k = map_of em k"
proof (induction ps arbitrary: em)
  case Nil
  then show ?case by simp
next
  case (Cons e ps)
  from merge_incoming_episodes_Cons[OF Cons.prems(1)] obtain v where
    run: "merge_incoming_episodes env now (AList.update (ep_episode e) v em) ps = Inr em'"
    by blast
  from Cons.IH[OF run] Cons.prems(2) show ?case by (simp add: AList.update_conv')
qed

text \<open>A number that is in the map ends with the last incoming episode of that number,
  as parsed, with the time of the merge.\<close>

lemma merge_incoming_episodes_last:
  "merge_incoming_episodes env now em (ps1 @ e # ps2) = Inr em' \<Longrightarrow> map_of em k \<noteq> None \<Longrightarrow>
   ep_episode e = k \<Longrightarrow> \<forall>e' \<in> set ps2. ep_episode e' \<noteq> k \<Longrightarrow>
   \<exists>p. episodeSchema_parse env (episode_to_raw e) = Inr p
      \<and> map_of em' k = Some (p\<lparr>ep_lastUpdated := now\<rparr>)"
proof (induction ps1 arbitrary: em)
  case Nil
  from Nil.prems(1) have "merge_incoming_episodes env now em (e # ps2) = Inr em'" by simp
  from merge_incoming_episodes_Cons[OF this] obtain p where
    p: "episodeSchema_parse env (episode_to_raw e) = Inr p"
    and run: "merge_incoming_episodes env now
                (AList.update (ep_episode e)
                   (case map_of em (ep_episode e) of
                      None \<Rightarrow> p | Some x \<Rightarrow> p\<lparr>ep_lastUpdated := now\<rparr>) em) ps2 = Inr em'"
    by blast
  from merge_incoming_episodes_other[OF run Nil.prems(4)] Nil.prems(2,3)
  have "map_of em' k = Some (p\<lparr>ep_lastUpdated := now\<rparr>)"
    by (auto simp: AList.update_conv')
  with p show ?case by blast
next
  case (Cons a ps1)
  from Cons.prems(1) have "merge_incoming_episodes env now em (a # (ps1 @ e # ps2)) = Inr em'"
    by simp
  from merge_incoming_episodes_Cons[OF this] obtain v where
    run: "merge_incoming_episodes env now (AList.update (ep_episode a) v em) (ps1 @ e # ps2)
            = Inr em'"
    by blast
  have "map_of (AList.update (ep_episode a) v em) k \<noteq> None"
    using Cons.prems(2) by (simp add: AList.update_conv')
  from Cons.IH[OF run this Cons.prems(3,4)] show ?case .
qed

lemma filter_last_split:
  "filter P xs \<noteq> [] \<Longrightarrow>
   \<exists>xs1 xs2. xs = xs1 @ last (filter P xs) # xs2 \<and> P (last (filter P xs))
      \<and> (\<forall>x \<in> set xs2. \<not> P x)"
proof (induction xs rule: rev_induct)
  case Nil
  then show ?case by simp
next
  case (snoc x xs)
  show ?case
  proof (cases "P x")
    case True
    then show ?thesis by (intro exI[of _ xs] exI[of _ "[]"]) simp
  next
    case False
    with snoc.prems have ne: "filter P xs \<noteq> []" by simp
    from snoc.IH[OF ne] obtain xs1 xs2 where
      "xs = xs1 @ last (filter P xs) # xs2" "P (last (filter P xs))" "\<forall>x \<in> set xs2. \<not> P x"
      by blast
    with False show ?thesis
      by (intro exI[of _ xs1] exI[of _ "xs2 @ [x]"]) auto
  qed
qed

lemma parse_array_split:
  "parse_array f (xs1 @ x # xs2) = Inr ys \<Longrightarrow>
   \<exists>ys1 y ys2. ys = ys1 @ y # ys2 \<and> f x = Inr y \<and> parse_array f xs2 = Inr ys2"
proof (induction xs1 arbitrary: ys)
  case Nil
  then show ?case by (auto split: sum.splits)
next
  case (Cons a xs1)
  from Cons.prems obtain b bs where b: "f a = Inr b"
    and bs: "parse_array f (xs1 @ x # xs2) = Inr bs" and ys: "ys = b # bs"
    by (auto split: sum.splits)
  from Cons.IH[OF bs] obtain ys1 y ys2 where
    "bs = ys1 @ y # ys2" "f x = Inr y" "parse_array f xs2 = Inr ys2" by blast
  with ys show ?case by (intro exI[of _ "b # ys1"] exI[of _ y] exI[of _ ys2]) simp
qed

text \<open>What the parsed episodes of an incoming season do to an episode map that holds
  the number \<open>k\<close>.\<close>

lemma merge_parsed_payloads:
  assumes pa: "parse_array (episodeSchema_parse env) rs = Inr es"
    and run: "merge_incoming_episodes env now em es = Inr em'"
    and ex: "map_of em k = Some ex"
  shows "(filter (\<lambda>r. r_episode r = Some k) rs = [] \<longrightarrow> map_of em' k = Some ex)
       \<and> (filter (\<lambda>r. r_episode r = Some k) rs \<noteq> [] \<longrightarrow>
            (\<exists>p p2. episodeSchema_parse env (last (filter (\<lambda>r. r_episode r = Some k) rs)) = Inr p
               \<and> episodeSchema_parse env (episode_to_raw p) = Inr p2
               \<and> map_of em' k = Some (p2\<lparr>ep_lastUpdated := now\<rparr>)))"
proof (rule conjI; rule impI)
  assume "filter (\<lambda>r. r_episode r = Some k) rs = []"
  then have none: "\<forall>r \<in> set rs. r_episode r \<noteq> Some k" by (simp add: filter_empty_conv)
  have "\<forall>e \<in> set es. ep_episode e \<noteq> k"
  proof
    fix e assume "e \<in> set es"
    from parse_array_elem[OF pa this] obtain r where
      "r \<in> set rs" "episodeSchema_parse env r = Inr e" by blast
    with none parse_episode_number[of env r e] show "ep_episode e \<noteq> k" by auto
  qed
  from merge_incoming_episodes_other[OF run this] ex show "map_of em' k = Some ex" by simp
next
  let ?r = "last (filter (\<lambda>r. r_episode r = Some k) rs)"
  assume "filter (\<lambda>r. r_episode r = Some k) rs \<noteq> []"
  from filter_last_split[OF this] obtain rs1 rs2 where
    rs: "rs = rs1 @ ?r # rs2" and rk: "r_episode ?r = Some k"
    and none: "\<forall>r \<in> set rs2. r_episode r \<noteq> Some k"
    by blast
  from pa rs have "parse_array (episodeSchema_parse env) (rs1 @ ?r # rs2) = Inr es" by simp
  from parse_array_split[OF this] obtain es1 p es2 where
    es: "es = es1 @ p # es2" and p: "episodeSchema_parse env ?r = Inr p"
    and pa2: "parse_array (episodeSchema_parse env) rs2 = Inr es2"
    by blast
  have pk: "ep_episode p = k" using parse_episode_number[OF p] rk by simp
  have "\<forall>e \<in> set es2. ep_episode e \<noteq> k"
  proof
    fix e assume "e \<in> set es2"
    from parse_array_elem[OF pa2 this] obtain r where
      "r \<in> set rs2" "episodeSchema_parse env r = Inr e" by blast
    with none parse_episode_number[of env r e] show "ep_episode e \<noteq> k" by auto
  qed
  with merge_incoming_episodes_last[of env now em es1 p es2 em' k] run es ex pk
  obtain p2 where "episodeSchema_parse env (episode_to_raw p) = Inr p2"
    "map_of em' k = Some (p2\<lparr>ep_lastUpdated := now\<rparr>)" by auto
  with p show "\<exists>p p2. episodeSchema_parse env ?r = Inr p
               \<and> episodeSchema_parse env (episode_to_raw p) = Inr p2
               \<and> map_of em' k = Some (p2\<lparr>ep_lastUpdated := now\<rparr>)" by blast
qed

text \<open>One turn of the loop over the incoming seasons.\<close>

lemma merge_incoming_seasons_Cons:
  assumes "merge_incoming_seasons env now sm (inc # rest) = Inr sm'"
  shows "\<exists>es. parse_array (episodeSchema_parse env) (sn_episodes inc) = Inr es
     \<and> (case map_of sm (sn_season inc) of
          None \<Rightarrow>
            merge_incoming_seasons env now
              (AList.update (sn_season inc) \<lparr>sn_season = sn_season inc, sn_episodes = es\<rparr> sm)
              rest = Inr sm'
        | Some current \<Rightarrow>
            (\<exists>em. merge_incoming_episodes env now
                     (fold (\<lambda>episode m. AList.update (ep_episode episode) episode m)
                        (sn_episodes current) []) es = Inr em
               \<and> merge_incoming_seasons env now
                    (AList.update (sn_season current)
                       (current\<lparr>sn_episodes :=
                          sort_cmp (\<lambda>a b. ep_episode a - ep_episode b) (map snd em)\<rparr>) sm)
                    rest = Inr sm'))"
  using assms
  by (auto simp: seasonSchema_parse_def split: sum.splits if_splits option.splits)

lemma payloads_for_Cons:
  "payloads_for (inc # rest) s k = payloads_for [inc] s k @ payloads_for rest s k"
  by (simp add: payloads_for_def)

lemma season_step:
  assumes run: "merge_incoming_seasons env now sm (inc # rest) = Inr sm'"
    and d: "distinct (map fst sm)"
    and kd: "list_all (\<lambda>kv. sn_season (snd kv) = fst kv) sm"
    and cur: "map_of sm s = Some cur"
    and dc: "distinct (map ep_episode (sn_episodes cur))"
    and ex: "find (\<lambda>e. ep_episode e = k) (sn_episodes cur) = Some ex"
  shows "\<exists>sm1 cur1. merge_incoming_seasons env now sm1 rest = Inr sm'
      \<and> distinct (map fst sm1) \<and> list_all (\<lambda>kv. sn_season (snd kv) = fst kv) sm1
      \<and> map_of sm1 s = Some cur1 \<and> distinct (map ep_episode (sn_episodes cur1))
      \<and> (payloads_for [inc] s k = [] \<longrightarrow>
           find (\<lambda>e. ep_episode e = k) (sn_episodes cur1) = Some ex)
      \<and> (payloads_for [inc] s k \<noteq> [] \<longrightarrow>
           (\<exists>p p2. episodeSchema_parse env (last (payloads_for [inc] s k)) = Inr p
              \<and> episodeSchema_parse env (episode_to_raw p) = Inr p2
              \<and> find (\<lambda>e. ep_episode e = k) (sn_episodes cur1)
                  = Some (p2\<lparr>ep_lastUpdated := now\<rparr>)))"
proof -
  from merge_incoming_seasons_Cons[OF run] obtain es where
    pa: "parse_array (episodeSchema_parse env) (sn_episodes inc) = Inr es"
    and step: "case map_of sm (sn_season inc) of
          None \<Rightarrow>
            merge_incoming_seasons env now
              (AList.update (sn_season inc) \<lparr>sn_season = sn_season inc, sn_episodes = es\<rparr> sm)
              rest = Inr sm'
        | Some current \<Rightarrow>
            (\<exists>em. merge_incoming_episodes env now
                     (fold (\<lambda>episode m. AList.update (ep_episode episode) episode m)
                        (sn_episodes current) []) es = Inr em
               \<and> merge_incoming_seasons env now
                    (AList.update (sn_season current)
                       (current\<lparr>sn_episodes :=
                          sort_cmp (\<lambda>a b. ep_episode a - ep_episode b) (map snd em)\<rparr>) sm)
                    rest = Inr sm')"
    by blast
  have key: "sn_season c = n" if "map_of sm n = Some c" for n c
    using map_of_SomeD[OF that] kd by (auto simp: list_all_iff)
  show ?thesis
  proof (cases "sn_season inc = s")
    case False
    then have pf: "payloads_for [inc] s k = []" by (simp add: payloads_for_def)
    obtain v where r: "merge_incoming_seasons env now (AList.update (sn_season inc) v sm) rest = Inr sm'"
      and v: "sn_season v = sn_season inc"
    proof (cases "map_of sm (sn_season inc)")
      case None
      with step that[of "\<lparr>sn_season = sn_season inc, sn_episodes = es\<rparr>"] show ?thesis by simp
    next
      case (Some c)
      from key[OF Some] have "sn_season c = sn_season inc" .
      with step Some that show ?thesis by auto
    qed
    note i = update_keyed[OF d kd v]
    have m: "map_of (AList.update (sn_season inc) v sm) s = Some cur"
      using cur False by (simp add: AList.update_conv')
    from r i m dc ex pf show ?thesis by blast
  next
    case True
    let ?em0 = "fold (\<lambda>episode m. AList.update (ep_episode episode) episode m)
                  (sn_episodes cur) []"
    from True cur step obtain em where
      inner: "merge_incoming_episodes env now ?em0 es = Inr em"
      and r: "merge_incoming_seasons env now
                (AList.update (sn_season cur)
                   (cur\<lparr>sn_episodes :=
                      sort_cmp (\<lambda>a b. ep_episode a - ep_episode b) (map snd em)\<rparr>) sm)
                rest = Inr sm'"
      by auto
    let ?eps = "sort_cmp (\<lambda>a b. ep_episode a - ep_episode b) (map snd em)"
    let ?cur1 = "cur\<lparr>sn_episodes := ?eps\<rparr>"
    have sc: "sn_season cur = s" by (rule key[OF cur])
    have d0: "distinct (map fst ?em0)" by (rule distinct_fold_update) simp
    have m0: "map_of ?em0 n = find (\<lambda>e. ep_episode e = n) (sn_episodes cur)" for n
      using map_of_fold_update[OF dc, of "[]" n] by (simp split: option.splits)
    have k0: "\<forall>n v. map_of ?em0 n = Some v \<longrightarrow> ep_episode v = n"
      using m0 by (auto simp: find_Some_iff)
    note ki = merge_incoming_episodes_keyed[OF inner d0 k0]
    have de: "distinct (map ep_episode ?eps)"
      using values_distinct[of em ep_episode] ki by (simp add: distinct_map_sort_cmp)
    have fe: "find (\<lambda>e. ep_episode e = k) ?eps = map_of em k"
      using find_values[of em ep_episode ?eps k] ki de by (simp add: set_sort_cmp)
    have e0: "map_of ?em0 k = Some ex" using m0 ex by simp
    note mp = merge_parsed_payloads[OF pa inner e0]
    have pf: "payloads_for [inc] s k = filter (\<lambda>r. r_episode r = Some k) (sn_episodes inc)"
      using True by (simp add: payloads_for_def)
    have "sn_season ?cur1 = sn_season cur" by simp
    note i = update_keyed[OF d kd this]
    have m: "map_of (AList.update (sn_season cur) ?cur1 sm) s = Some ?cur1"
      using sc by (simp add: AList.update_conv')
    have c1: "distinct (map ep_episode (sn_episodes ?cur1))" using de by simp
    have c2: "payloads_for [inc] s k = [] \<longrightarrow>
           find (\<lambda>e. ep_episode e = k) (sn_episodes ?cur1) = Some ex"
      using mp fe pf by simp
    have c3: "payloads_for [inc] s k \<noteq> [] \<longrightarrow>
           (\<exists>p p2. episodeSchema_parse env (last (payloads_for [inc] s k)) = Inr p
              \<and> episodeSchema_parse env (episode_to_raw p) = Inr p2
              \<and> find (\<lambda>e. ep_episode e = k) (sn_episodes ?cur1)
                  = Some (p2\<lparr>ep_lastUpdated := now\<rparr>))"
      using mp fe pf by simp
    from r i m c1 c2 c3 show ?thesis by blast
  qed
qed

text \<open>The whole loop: an episode that the season map holds is, in the end, the last
  payload for its numbers as parsed twice, with the time of the merge, or itself when
  no payload has its numbers.\<close>

lemma merge_incoming_seasons_episode:
  "merge_incoming_seasons env now sm incoming = Inr sm' \<Longrightarrow>
   distinct (map fst sm) \<Longrightarrow> list_all (\<lambda>kv. sn_season (snd kv) = fst kv) sm \<Longrightarrow>
   map_of sm s = Some cur \<Longrightarrow> distinct (map ep_episode (sn_episodes cur)) \<Longrightarrow>
   find (\<lambda>e. ep_episode e = k) (sn_episodes cur) = Some ex \<Longrightarrow>
   \<exists>cur'. map_of sm' s = Some cur'
      \<and> (payloads_for incoming s k = [] \<longrightarrow>
           find (\<lambda>e. ep_episode e = k) (sn_episodes cur') = Some ex)
      \<and> (payloads_for incoming s k \<noteq> [] \<longrightarrow>
           (\<exists>p p2. episodeSchema_parse env (last (payloads_for incoming s k)) = Inr p
              \<and> episodeSchema_parse env (episode_to_raw p) = Inr p2
              \<and> find (\<lambda>e. ep_episode e = k) (sn_episodes cur')
                  = Some (p2\<lparr>ep_lastUpdated := now\<rparr>)))"
proof (induction incoming arbitrary: sm cur ex)
  case Nil
  then show ?case by (simp add: payloads_for_def)
next
  case (Cons inc rest)
  from season_step[OF Cons.prems] obtain sm1 cur1 where
    r: "merge_incoming_seasons env now sm1 rest = Inr sm'"
    and i: "distinct (map fst sm1)" "list_all (\<lambda>kv. sn_season (snd kv) = fst kv) sm1"
    and m: "map_of sm1 s = Some cur1" and dc: "distinct (map ep_episode (sn_episodes cur1))"
    and a: "payloads_for [inc] s k = [] \<longrightarrow>
           find (\<lambda>e. ep_episode e = k) (sn_episodes cur1) = Some ex"
    and b: "payloads_for [inc] s k \<noteq> [] \<longrightarrow>
           (\<exists>p p2. episodeSchema_parse env (last (payloads_for [inc] s k)) = Inr p
              \<and> episodeSchema_parse env (episode_to_raw p) = Inr p2
              \<and> find (\<lambda>e. ep_episode e = k) (sn_episodes cur1)
                  = Some (p2\<lparr>ep_lastUpdated := now\<rparr>))"
    by blast
  from a b obtain ex1 where ex1: "find (\<lambda>e. ep_episode e = k) (sn_episodes cur1) = Some ex1"
    by blast
  from Cons.IH[OF r i m dc ex1] obtain cur' where
    m': "map_of sm' s = Some cur'"
    and a': "payloads_for rest s k = [] \<longrightarrow>
           find (\<lambda>e. ep_episode e = k) (sn_episodes cur') = Some ex1"
    and b': "payloads_for rest s k \<noteq> [] \<longrightarrow>
           (\<exists>p p2. episodeSchema_parse env (last (payloads_for rest s k)) = Inr p
              \<and> episodeSchema_parse env (episode_to_raw p) = Inr p2
              \<and> find (\<lambda>e. ep_episode e = k) (sn_episodes cur')
                  = Some (p2\<lparr>ep_lastUpdated := now\<rparr>))"
    by blast
  have "(payloads_for (inc # rest) s k = [] \<longrightarrow>
           find (\<lambda>e. ep_episode e = k) (sn_episodes cur') = Some ex)
      \<and> (payloads_for (inc # rest) s k \<noteq> [] \<longrightarrow>
           (\<exists>p p2. episodeSchema_parse env (last (payloads_for (inc # rest) s k)) = Inr p
              \<and> episodeSchema_parse env (episode_to_raw p) = Inr p2
              \<and> find (\<lambda>e. ep_episode e = k) (sn_episodes cur')
                  = Some (p2\<lparr>ep_lastUpdated := now\<rparr>)))"
  proof (cases "payloads_for rest s k = []")
    case True
    then have "payloads_for (inc # rest) s k = payloads_for [inc] s k"
      by (simp add: payloads_for_Cons[of inc rest])
    with True a b a' ex1 show ?thesis by auto
  next
    case False
    then have "payloads_for (inc # rest) s k \<noteq> []"
      "last (payloads_for (inc # rest) s k) = last (payloads_for rest s k)"
      by (simp_all add: payloads_for_Cons[of inc rest])
    with False b' show ?thesis by simp
  qed
  with m' show ?case by blast
qed

lemma episode_at_Some:
  "episode_at sns s k = Some ex \<Longrightarrow>
   \<exists>sn. find (\<lambda>sn. sn_season sn = s) sns = Some sn
       \<and> find (\<lambda>e. ep_episode e = k) (sn_episodes sn) = Some ex"
  by (auto simp: episode_at_def split: option.splits)

lemma mergeSeasons_episode:
  assumes u: "numbers_unique existing"
    and m: "mergeSeasons env now existing incoming = Inr merged"
    and ex: "episode_at existing s k = Some ex"
  shows "(payloads_for incoming s k = [] \<longrightarrow> episode_at merged s k = Some ex)
      \<and> (payloads_for incoming s k \<noteq> [] \<longrightarrow>
           (\<exists>p p2. episodeSchema_parse env (last (payloads_for incoming s k)) = Inr p
              \<and> episodeSchema_parse env (episode_to_raw p) = Inr p2
              \<and> episode_at merged s k = Some (p2\<lparr>ep_lastUpdated := now\<rparr>)))"
proof -
  let ?sm0 = "fold (\<lambda>season m. AList.update (sn_season season) season m) existing []"
  from m obtain sm' where run: "merge_incoming_seasons env now ?sm0 incoming = Inr sm'"
    and merged: "merged = sort_cmp (\<lambda>a b. sn_season a - sn_season b) (map snd sm')"
    by (auto simp: mergeSeasons_def split: sum.splits)
  from episode_at_Some[OF ex] obtain cur where
    cur: "find (\<lambda>sn. sn_season sn = s) existing = Some cur"
    and e: "find (\<lambda>e. ep_episode e = k) (sn_episodes cur) = Some ex" by blast
  from u have ds: "distinct (map sn_season existing)" by (simp add: numbers_unique_def)
  from cur have "cur \<in> set existing" by (auto simp: find_Some_iff)
  with u have dc: "distinct (map ep_episode (sn_episodes cur))"
    by (simp add: numbers_unique_def list_all_iff)
  have i0: "distinct (map fst ?sm0) \<and> list_all (\<lambda>kv. sn_season (snd kv) = fst kv) ?sm0"
    by (rule fold_update_keyed) simp_all
  have m0: "map_of ?sm0 s = Some cur"
    using map_of_fold_update[OF ds, of "[]" s] cur by simp
  from merge_incoming_seasons_episode[OF run i0[THEN conjunct1] i0[THEN conjunct2] m0 dc e]
  obtain cur' where
    m': "map_of sm' s = Some cur'"
    and a: "payloads_for incoming s k = [] \<longrightarrow>
           find (\<lambda>e. ep_episode e = k) (sn_episodes cur') = Some ex"
    and b: "payloads_for incoming s k \<noteq> [] \<longrightarrow>
           (\<exists>p p2. episodeSchema_parse env (last (payloads_for incoming s k)) = Inr p
              \<and> episodeSchema_parse env (episode_to_raw p) = Inr p2
              \<and> find (\<lambda>e. ep_episode e = k) (sn_episodes cur')
                  = Some (p2\<lparr>ep_lastUpdated := now\<rparr>))"
    by blast
  note i' = merge_incoming_seasons_keyed[OF i0[THEN conjunct1] i0[THEN conjunct2] run]
  have kd: "\<forall>n v. map_of sm' n = Some v \<longrightarrow> sn_season v = n"
  proof (intro allI impI)
    fix n v assume "map_of sm' n = Some v"
    from map_of_SomeD[OF this] i' show "sn_season v = n" by (auto simp: list_all_iff)
  qed
  have dm: "distinct (map sn_season merged)"
    using values_distinct[of sm' sn_season] i' kd merged by (simp add: distinct_map_sort_cmp)
  have "find (\<lambda>sn. sn_season sn = s) merged = map_of sm' s"
    using find_values[of sm' sn_season merged s] i' kd dm merged by (simp add: set_sort_cmp)
  with m' have "episode_at merged s k = find (\<lambda>e. ep_episode e = k) (sn_episodes cur')"
    by (simp add: episode_at_def)
  with a b show ?thesis by simp
qed

text \<open>
  C1, as stated, fails: merging the partial payload \<^verbatim>\<open>{season: 1, episode: 1, duration: 20}\<close>
  onto the existing episode \<^verbatim>\<open>{title: "A", duration: 10, published: false}\<close> does not
  yield that episode with duration 20; \<^verbatim>\<open>seasonSchema.parse\<close> rejects the payload and
  \<^verbatim>\<open>mergeSeasons\<close> throws.
\<close>

theorem mergeSeasons_partial_payload_counterexample:
  "mergeSeasons demo_env ''2024-02-01T00:00:00.000Z''
      [\<lparr>sn_season = 1, sn_episodes = [episode_A]\<rparr>]
      [\<lparr>sn_season = 1, sn_episodes = [partial_duration_20]\<rparr>]
     = Inl ValidationError
   \<and> mergeSeasons demo_env ''2024-02-01T00:00:00.000Z''
      [\<lparr>sn_season = 1, sn_episodes = [episode_A]\<rparr>]
      [\<lparr>sn_season = 1, sn_episodes = [partial_duration_20]\<rparr>]
     \<noteq> Inr [\<lparr>sn_season = 1, sn_episodes =
              [episode_A\<lparr>ep_duration := 20, ep_lastUpdated := ''2024-02-01T00:00:00.000Z''\<rparr>]\<rparr>]"
  by code_simp

text \<open>
  C1, amended. \<^verbatim>\<open>mergeSeasons\<close> validates every incoming episode with
  \<^verbatim>\<open>episodeSchema\<close> before it merges, so a payload that lacks a key without default
  makes the whole merge fail with a validation error. Let the merge succeed on stored
  seasons in which no season number and, within a season, no episode number occurs
  twice, with any number of incoming seasons and episodes, and take an episode that
  the stored seasons hold at a season and episode number. If payloads come in for
  these numbers and the last of them supplies every key, the merged seasons hold at
  these numbers the episode whose fields are all that payload's (text fields
  sanitized by both parses) with \<^verbatim>\<open>lastUpdated\<close> set to the current time. If no
  payload comes in for these numbers, the merged seasons hold the stored episode
  there, unchanged.
\<close>

theorem mergeSeasons_validated_overwrite:
  "(inc \<in> set incoming \<and> r \<in> set (sn_episodes inc) \<and> \<not> required_present r
      \<longrightarrow> mergeSeasons env now existing incoming = Inl ValidationError)
   \<and> (numbers_unique stored \<and> mergeSeasons env now stored payloads = Inr merged
        \<and> episode_at stored s k = Some ex
        \<and> payloads_for payloads s k \<noteq> [] \<and> last (payloads_for payloads s k) = r'
        \<and> all_present r'
      \<longrightarrow> episode_at merged s k =
            Some \<lparr>ep_id = the (r_id r'),
                  ep_title = sanitize env (sanitize env (the (r_title r'))),
                  ep_description = sanitize env (sanitize env (the (r_description r'))),
                  ep_season = the (r_season r'),
                  ep_episode = k,
                  ep_duration = the (r_duration r'),
                  ep_streamUrl = the (r_streamUrl r'),
                  ep_subtitles =
                    map (\<lambda>s. s\<lparr>st_lang := sanitize env (sanitize env (st_lang s)),
                                st_label := sanitize env (sanitize env (st_label s))\<rparr>)
                      (the (r_subtitles r')),
                  ep_published = the (r_published r'),
                  ep_views = the (r_views r'),
                  ep_lastUpdated = now\<rparr>)
   \<and> (numbers_unique kept \<and> mergeSeasons env now kept others = Inr merged'
        \<and> episode_at kept s' k' = Some ex' \<and> payloads_for others s' k' = []
      \<longrightarrow> episode_at merged' s' k' = Some ex')"
proof (intro conjI impI)
  assume "inc \<in> set incoming \<and> r \<in> set (sn_episodes inc) \<and> \<not> required_present r"
  then show "mergeSeasons env now existing incoming = Inl ValidationError"
    using season_missing_key[of r inc env] mergeSeasons_rejects[of inc incoming env]
    by blast
next
  assume a: "numbers_unique kept \<and> mergeSeasons env now kept others = Inr merged'
        \<and> episode_at kept s' k' = Some ex' \<and> payloads_for others s' k' = []"
  then show "episode_at merged' s' k' = Some ex'"
    using mergeSeasons_episode[of kept env now others merged' s' k' ex'] by blast
next
  assume a: "numbers_unique stored \<and> mergeSeasons env now stored payloads = Inr merged
        \<and> episode_at stored s k = Some ex
        \<and> payloads_for payloads s k \<noteq> [] \<and> last (payloads_for payloads s k) = r'
        \<and> all_present r'"
  with mergeSeasons_episode[of stored env now payloads merged s k ex]
  obtain p1 p2 where p1: "episodeSchema_parse env r' = Inr p1"
    and p2: "episodeSchema_parse env (episode_to_raw p1) = Inr p2"
    and m: "episode_at merged s k = Some (p2\<lparr>ep_lastUpdated := now\<rparr>)"
    by blast
  from a have "r' \<in> set (payloads_for payloads s k)" using last_in_set by blast
  then have rk: "r_episode r' = Some k" by (simp add: payloads_for_def)
  from a have present: "r_subtitles r' \<noteq> None" "r_published r' \<noteq> None" "r_views r' \<noteq> None"
    by (simp_all add: all_present_def)
  note f1 = episodeSchema_parse_fields[OF p1]
  note f2 = episodeSchema_parse_fields[OF p2]
  have "p2\<lparr>ep_lastUpdated := now\<rparr> =
        \<lparr>ep_id = the (r_id r'),
         ep_title = sanitize env (sanitize env (the (r_title r'))),
         ep_description = sanitize env (sanitize env (the (r_description r'))),
         ep_season = the (r_season r'),
         ep_episode = k,
         ep_duration = the (r_duration r'),
         ep_streamUrl = the (r_streamUrl r'),
         ep_subtitles =
           map (\<lambda>s. s\<lparr>st_lang := sanitize env (sanitize env (st_lang s)),
                       st_label := sanitize env (sanitize env (st_label s))\<rparr>)
             (the (r_subtitles r')),
         ep_published = the (r_published r'),
         ep_views = the (r_views r'),
         ep_lastUpdated = now\<rparr>"
    using f1 f2 present rk
    by (cases p2) (auto simp: episode_to_raw_def with_default_def comp_def)
  with m show "episode_at merged s k =
            Some \<lparr>ep_id = the (r_id r'),
                  ep_title = sanitize env (sanitize env (the (r_title r'))),
                  ep_description = sanitize env (sanitize env (the (r_description r'))),
                  ep_season = the (r_season r'),
                  ep_episode = k,
                  ep_duration = the (r_duration r'),
                  ep_streamUrl = the (r_streamUrl r'),
                  ep_subtitles =
                    map (\<lambda>s. s\<lparr>st_lang := sanitize env (sanitize env (st_lang s)),
                                st_label := sanitize env (sanitize env (st_label s))\<rparr>)
                      (the (r_subtitles r')),
                  ep_published = the (r_published r'),
                  ep_views = the (r_views r'),
                  ep_lastUpdated = now\<rparr>"
    by simp
qed

theorem mergeSeasons_validated_overwrite_witness:
  "\<lparr>sn_season = 1, sn_episodes = [partial_duration_20]\<rparr>
      \<in> set [\<lparr>sn_season = 1, sn_episodes = [partial_duration_20]\<rparr>]
   \<and> partial_duration_20 \<in> set [partial_duration_20]
   \<and> \<not> required_present partial_duration_20
   \<and> mergeSeasons demo_env ''2024-02-01T00:00:00.000Z''
        [\<lparr>sn_season = 1, sn_episodes = [episode_A]\<rparr>]
        [\<lparr>sn_season = 1, sn_episodes = [partial_duration_20]\<rparr>] = Inl ValidationError
   \<and> numbers_unique stored_seasons
   \<and> \<not> isl (mergeSeasons demo_env ''2024-02-01T00:00:00.000Z'' stored_seasons incoming_seasons)
   \<and> outline (projr (mergeSeasons demo_env ''2024-02-01T00:00:00.000Z''
        stored_seasons incoming_seasons)) = [(1, [1, 2, 3]), (2, [1, 2])]
   \<and> episode_at stored_seasons 1 1
       = Some (demo_episode ''aaaaaaaa-0000-4000-8000-000000000001'' ''Pilot'' 1 1)
   \<and> map r_title (payloads_for incoming_seasons 1 1) = [Some ''Draft'', Some ''Final'']
   \<and> all_present (last (payloads_for incoming_seasons 1 1))
   \<and> episode_at (projr (mergeSeasons demo_env ''2024-02-01T00:00:00.000Z''
        stored_seasons incoming_seasons)) 1 1
       = Some ((demo_episode ''eeeeeeee-0000-4000-8000-000000000002'' ''Final'' 1 1)
                 \<lparr>ep_duration := 20, ep_views := 0,
                  ep_lastUpdated := ''2024-02-01T00:00:00.000Z''\<rparr>)
   \<and> episode_at stored_seasons 1 2
       = Some (demo_episode ''aaaaaaaa-0000-4000-8000-000000000002'' ''Second'' 1 2)
   \<and> payloads_for incoming_seasons 1 2 = []
   \<and> episode_at (projr (mergeSeasons demo_env ''2024-02-01T00:00:00.000Z''
        stored_seasons incoming_seasons)) 1 2
       = Some (demo_episode ''aaaaaaaa-0000-4000-8000-000000000002'' ''Second'' 1 2)
   \<and> episode_at stored_seasons 2 1
       = Some (demo_episode ''bbbbbbbb-0000-4000-8000-000000000001'' ''Return'' 2 1)
   \<and> payloads_for incoming_seasons 2 1 = []
   \<and> episode_at (projr (mergeSeasons demo_env ''2024-02-01T00:00:00.000Z''
        stored_seasons incoming_seasons)) 2 1
       = Some (demo_episode ''bbbbbbbb-0000-4000-8000-000000000001'' ''Return'' 2 1)"
proof -
  let ?now = "''2024-02-01T00:00:00.000Z''"
  let ?M = "projr (mergeSeasons demo_env ?now stored_seasons incoming_seasons)"
  let ?r = "last (payloads_for incoming_seasons 1 1)"
  let ?pilot = "demo_episode ''aaaaaaaa-0000-4000-8000-000000000001'' ''Pilot'' 1 1"
  let ?second = "demo_episode ''aaaaaaaa-0000-4000-8000-000000000002'' ''Second'' 1 2"
  let ?return = "demo_episode ''bbbbbbbb-0000-4000-8000-000000000001'' ''Return'' 2 1"
  let ?final = "(demo_episode ''eeeeeeee-0000-4000-8000-000000000002'' ''Final'' 1 1)
                 \<lparr>ep_duration := 20, ep_views := 0, ep_lastUpdated := ?now\<rparr>"
  have h1: "\<not> required_present partial_duration_20" by code_simp
  have h2: "numbers_unique stored_seasons" by code_simp
  have h3: "\<not> isl (mergeSeasons demo_env ?now stored_seasons incoming_seasons)" by code_simp
  then have run: "mergeSeasons demo_env ?now stored_seasons incoming_seasons = Inr ?M" by simp
  have h4: "outline ?M = [(1, [1, 2, 3]), (2, [1, 2])]" by code_simp
  have h5: "episode_at stored_seasons 1 1 = Some ?pilot" by code_simp
  have h6: "map r_title (payloads_for incoming_seasons 1 1) = [Some ''Draft'', Some ''Final'']"
    by code_simp
  then have h6': "payloads_for incoming_seasons 1 1 \<noteq> []" by auto
  have h7: "all_present ?r" by code_simp
  have h8: "episode_at stored_seasons 1 2 = Some ?second" by code_simp
  have h9: "payloads_for incoming_seasons 1 2 = []" by code_simp
  have h10: "episode_at stored_seasons 2 1 = Some ?return" by code_simp
  have h11: "payloads_for incoming_seasons 2 1 = []" by code_simp
  have c1: "mergeSeasons demo_env ?now [\<lparr>sn_season = 1, sn_episodes = [episode_A]\<rparr>]
        [\<lparr>sn_season = 1, sn_episodes = [partial_duration_20]\<rparr>] = Inl ValidationError"
    using mergeSeasons_validated_overwrite
      [where inc = "\<lparr>sn_season = 1, sn_episodes = [partial_duration_20]\<rparr>"
         and incoming = "[\<lparr>sn_season = 1, sn_episodes = [partial_duration_20]\<rparr>]"
         and r = partial_duration_20 and env = demo_env and now = ?now
         and existing = "[\<lparr>sn_season = 1, sn_episodes = [episode_A]\<rparr>]",
       THEN conjunct1] h1
    by simp
  have e: "\<lparr>ep_id = the (r_id ?r),
            ep_title = sanitize demo_env (sanitize demo_env (the (r_title ?r))),
            ep_description = sanitize demo_env (sanitize demo_env (the (r_description ?r))),
            ep_season = the (r_season ?r),
            ep_episode = 1,
            ep_duration = the (r_duration ?r),
            ep_streamUrl = the (r_streamUrl ?r),
            ep_subtitles =
              map (\<lambda>s. s\<lparr>st_lang := sanitize demo_env (sanitize demo_env (st_lang s)),
                          st_label := sanitize demo_env (sanitize demo_env (st_label s))\<rparr>)
                (the (r_subtitles ?r)),
            ep_published = the (r_published ?r),
            ep_views = the (r_views ?r),
            ep_lastUpdated = ?now\<rparr> = ?final"
    by code_simp
  have c2: "episode_at ?M 1 1 = Some ?final"
    using mergeSeasons_validated_overwrite
      [where stored = stored_seasons and env = demo_env and now = ?now
         and payloads = incoming_seasons and merged = ?M and s = 1 and k = 1
         and ex = ?pilot and r' = ?r,
       THEN conjunct2, THEN conjunct1] h2 run h5 h6' h7
    unfolding e by blast
  have c3: "episode_at ?M 1 2 = Some ?second"
    using mergeSeasons_validated_overwrite
      [where kept = stored_seasons and env = demo_env and now = ?now
         and others = incoming_seasons and merged' = ?M and s' = 1 and k' = 2
         and ex' = ?second,
       THEN conjunct2, THEN conjunct2] h2 run h8 h9
    by blast
  have c4: "episode_at ?M 2 1 = Some ?return"
    using mergeSeasons_validated_overwrite
      [where kept = stored_seasons and env = demo_env and now = ?now
         and others = incoming_seasons and merged' = ?M and s' = 2 and k' = 1
         and ex' = ?return,
       THEN conjunct2, THEN conjunct2] h2 run h10 h11
    by blast
  from h1 h2 h3 h4 h5 h6 h7 h8 h9 h10 h11 c1 c2 c3 c4 show ?thesis by simp
qed

end
